(* ===== verification/Prelude.thy ===== *)
theory Prelude
  imports Main "HOL-Library.Word" "HOL-Library.Signed_Division"
    "HOL-Library.Char_ord" "HOL-Library.List_Lexorder" "HOL-Library.Product_Lexorder"
begin

text \<open>
  Shared vocabulary of the development: Go's fixed-width integers and instants, byte
  strings and the parts of the packages \<open>strings\<close>, \<open>path\<close>, \<open>unicode/utf8\<close> and
  \<open>encoding/hex\<close> that the service uses, SQL tables as lists of rows, and the outcome
  of a database call. The lemmas declared here carry the component proofs.
\<close>

unbundle bit_operations_syntax

named_theorems table_simps \<open>selection, insertion and update of table rows\<close>
named_theorems time_intros \<open>order of instants after PostgreSQL rounding\<close>

type_synonym byte = "8 word"
type_synonym bytes = "byte list"

text \<open>
  Go errors. \<open>Sentinel\<close> carries a package's exported sentinel or error type, which callers
  test with \<open>errors.Is\<close> or \<open>errors.As\<close>; \<open>ErrText\<close> is an error known by its message only
  (the format string, where the message is formatted); \<open>StorageError\<close> is the wrapper of a
  failed database call, with the operation it names. A function that returns only an error
  has type \<open>'s check\<close>, with \<open>None\<close> for \<open>nil\<close>; one that returns a value or an error has a
  sum type, with \<open>Inl\<close> for the error.
\<close>

datatype 's err = ErrText string | StorageError string | Sentinel 's

type_synonym 's check = "'s err option"

subsection \<open>Machine integers\<close>

text \<open>
  Go integers are modelled as \<open>int\<close> with the wrap-around of the declared width written
  at every addition, subtraction and multiplication that could leave it.
\<close>

definition int64 :: "int \<Rightarrow> int" where
  "int64 x = signed_take_bit 63 x"

definition int32 :: "int \<Rightarrow> int" where
  "int32 x = signed_take_bit 31 x"

abbreviation MaxInt32 :: int where "MaxInt32 \<equiv> 2147483647"
abbreviation MaxInt64 :: int where "MaxInt64 \<equiv> 9223372036854775807"
abbreviation MinInt64 :: int where "MinInt64 \<equiv> - 9223372036854775808"

lemma int64_id [simp]: "MinInt64 \<le> x \<Longrightarrow> x \<le> MaxInt64 \<Longrightarrow> int64 x = x"
  unfolding int64_def by (rule signed_take_bit_int_eq_self) simp_all

lemma int32_id [simp]: "- 2147483648 \<le> x \<Longrightarrow> x \<le> MaxInt32 \<Longrightarrow> int32 x = x"
  unfolding int32_def by (rule signed_take_bit_int_eq_self) simp_all


subsection \<open>Instants and durations\<close>

text \<open>
  A \<open>time.Time\<close> is its instant, in nanoseconds since Go's zero time (1 January of year 1,
  UTC), so \<open>IsZero\<close> is equality with 0; \<open>Before\<close> is \<open><\<close> and \<open>Add\<close> is \<open>+\<close>. A
  \<open>time.Duration\<close> is a number of nanoseconds. A \<open>timestamptz\<close> column holds whole
  microseconds: an instant that reaches a statement is cut to them by \<open>pg_time\<close>.
\<close>

type_synonym instant = int
type_synonym duration = int

abbreviation Second :: duration where "Second \<equiv> 1000000000"
abbreviation Minute :: duration where "Minute \<equiv> 60000000000"
abbreviation Hour :: duration where "Hour \<equiv> 3600000000000"
abbreviation Microsecond :: duration where "Microsecond \<equiv> 1000"

definition IsZero :: "instant \<Rightarrow> bool" where
  "IsZero t \<longleftrightarrow> t = 0"

definition Truncate :: "instant \<Rightarrow> duration \<Rightarrow> instant" where
  "Truncate t d = (if d \<le> 0 then t else t - t mod d)"

definition pg_time :: "instant \<Rightarrow> instant" where
  "pg_time t = t - t mod Microsecond"

definition pg_aligned :: "instant \<Rightarrow> bool" where
  "pg_aligned t \<longleftrightarrow> pg_time t = t"

lemma pg_time_div: "pg_time t = 1000 * (t div 1000)"
  by (simp add: pg_time_def minus_mod_eq_mult_div)

lemma pg_time_bounds: "pg_time t \<le> t \<and> t < pg_time t + 1000"
  using pos_mod_sign [of 1000 t] pos_mod_bound [of 1000 t] unfolding pg_time_def by linarith

lemma pg_time_le [simp, time_intros]: "pg_time t \<le> t"
  using pg_time_bounds by blast

lemma pg_time_mono [time_intros]: "s \<le> t \<Longrightarrow> pg_time s \<le> pg_time t"
  unfolding pg_time_div by (simp add: zdiv_mono1)

lemma pg_time_idem [simp]: "pg_time (pg_time t) = pg_time t"
  by (simp add: pg_time_div)

lemma pg_aligned_pg_time [simp]: "pg_aligned (pg_time t)"
  by (simp add: pg_aligned_def)

lemma pg_aligned_max [intro]: "pg_aligned s \<Longrightarrow> pg_aligned t \<Longrightarrow> pg_aligned (max s t)"
  by (simp add: max_def)

lemma pg_aligned_min [intro]: "pg_aligned s \<Longrightarrow> pg_aligned t \<Longrightarrow> pg_aligned (min s t)"
  by (simp add: min_def)

lemma pg_aligned_add_us [intro]: "pg_aligned t \<Longrightarrow> pg_aligned (t + Microsecond)"
  by (simp add: pg_aligned_def pg_time_def)

text \<open>Against a stored deadline, the rounded and the exact observation decide alike.\<close>

lemma pg_time_ge_iff: "pg_aligned e \<Longrightarrow> e \<le> pg_time t \<longleftrightarrow> e \<le> t"
  by (metis order_trans pg_aligned_def pg_time_le pg_time_mono)

lemma pg_time_less_iff: "pg_aligned e \<Longrightarrow> pg_time t < e \<longleftrightarrow> t < e"
  using pg_time_ge_iff linorder_not_less by blast

lemma pg_time_max: "pg_time (max s t) = max (pg_time s) (pg_time t)"
  by (metis max_def nle_le pg_time_mono)

subsection \<open>Byte strings\<close>

text \<open>
  A Go string is its bytes, a \<open>string\<close> (a list of 8-bit \<open>char\<close>), so \<open>length\<close> is \<open>len\<close>.
  \<open>strings.TrimSpace\<close> removes Unicode white space at both ends; on the bytes, it removes
  any of the UTF-8 encodings listed here. An ill-formed sequence decodes to
  \<open>utf8.RuneError\<close>, which is no space, so matching complete encodings is exact.
\<close>

definition white_space :: "string list" where
  "white_space =
     [[CHR 0x09], [CHR 0x0A], [CHR 0x0B], [CHR 0x0C], [CHR 0x0D], [CHR 0x20],
      [CHR 0xC2, CHR 0x85], [CHR 0xC2, CHR 0xA0], [CHR 0xE1, CHR 0x9A, CHR 0x80],
      [CHR 0xE2, CHR 0x80, CHR 0x80], [CHR 0xE2, CHR 0x80, CHR 0x81],
      [CHR 0xE2, CHR 0x80, CHR 0x82], [CHR 0xE2, CHR 0x80, CHR 0x83],
      [CHR 0xE2, CHR 0x80, CHR 0x84], [CHR 0xE2, CHR 0x80, CHR 0x85],
      [CHR 0xE2, CHR 0x80, CHR 0x86], [CHR 0xE2, CHR 0x80, CHR 0x87],
      [CHR 0xE2, CHR 0x80, CHR 0x88], [CHR 0xE2, CHR 0x80, CHR 0x89],
      [CHR 0xE2, CHR 0x80, CHR 0x8A], [CHR 0xE2, CHR 0x80, CHR 0xA8],
      [CHR 0xE2, CHR 0x80, CHR 0xA9], [CHR 0xE2, CHR 0x80, CHR 0xAF],
      [CHR 0xE2, CHR 0x81, CHR 0x9F], [CHR 0xE3, CHR 0x80, CHR 0x80]]"

fun cut_first :: "'a list list \<Rightarrow> 'a list \<Rightarrow> 'a list option" where
  "cut_first [] s = None"
| "cut_first (p # ps) s =
     (if p \<noteq> [] \<and> take (length p) s = p then Some (drop (length p) s) else cut_first ps s)"

lemma cut_first_shorter: "cut_first ps s = Some r \<Longrightarrow> length r < length s"
proof (induction ps)
  case (Cons p ps)
  show ?case
  proof (cases "p \<noteq> [] \<and> take (length p) s = p")
    case True
    then have "0 < length p" and "length p \<le> length s"
      by (auto simp: min_def dest: arg_cong [where f = length] split: if_splits)
    moreover have "r = drop (length p) s"
      using True Cons.prems by simp
    ultimately show ?thesis by (simp only: length_drop)
  next
    case False
    with Cons show ?thesis by auto
  qed
qed simp

function trim_with :: "'a list list \<Rightarrow> 'a list \<Rightarrow> 'a list" where
  "trim_with ps s = (case cut_first ps s of None \<Rightarrow> s | Some r \<Rightarrow> trim_with ps r)"
  by pat_completeness auto
termination
  by (relation "measure (\<lambda>(ps, s). length s)") (auto dest: cut_first_shorter)

declare trim_with.simps [simp del]

definition TrimLeft :: "string \<Rightarrow> string" where
  "TrimLeft s = trim_with white_space s"

definition TrimRight :: "string \<Rightarrow> string" where
  "TrimRight s = rev (trim_with (map rev white_space) (rev s))"

definition TrimSpace :: "string \<Rightarrow> string" where
  "TrimSpace s = TrimRight (TrimLeft s)"

lemma cut_first_None_iff:
  "cut_first ps s = None \<longleftrightarrow> (\<forall>p \<in> set ps. p \<noteq> [] \<longrightarrow> take (length p) s \<noteq> p)"
  by (induction ps) auto

lemma cut_first_Some_append: "cut_first ps s = Some r \<Longrightarrow> \<exists>u. s = u @ r"
  by (induction ps) (auto split: if_splits, metis append_take_drop_id)

lemma cut_first_prefix:
  assumes "cut_first ps (s @ t) = None"
  shows "cut_first ps s = None"
proof -
  have "take (length p) (s @ t) = p" if "take (length p) s = p" for p
    using that by (metis append_take_drop_id append_eq_conv_conj append.assoc)
  with assms show ?thesis unfolding cut_first_None_iff by blast
qed

lemma trim_with_stops: "cut_first ps (trim_with ps s) = None"
  by (induction ps s rule: trim_with.induct) (subst trim_with.simps, auto split: option.split)

lemma trim_with_suffix: "\<exists>u. s = u @ trim_with ps s"
proof (induction ps s rule: trim_with.induct)
  case (1 ps s)
  show ?case
  proof (cases "cut_first ps s")
    case None
    then show ?thesis by (simp add: trim_with.simps)
  next
    case (Some r)
    with 1 obtain u where "r = u @ trim_with ps r" by blast
    moreover obtain v where "s = v @ r" using cut_first_Some_append [OF Some] by blast
    ultimately have "s = (v @ u) @ trim_with ps s"
      by (metis Some append.assoc option.simps(5) trim_with.simps)
    then show ?thesis by blast
  qed
qed

lemma trim_with_id: "cut_first ps s = None \<Longrightarrow> trim_with ps s = s"
  by (simp add: trim_with.simps)

lemma TrimRight_prefix: "\<exists>v. s = TrimRight s @ v"
proof -
  obtain u where "rev s = u @ trim_with (map rev white_space) (rev s)"
    using trim_with_suffix by blast
  then have "s = TrimRight s @ rev u"
    unfolding TrimRight_def by (metis rev_append rev_rev_ident)
  then show ?thesis ..
qed

lemma TrimSpace_left_done: "cut_first white_space (TrimSpace s) = None"
proof -
  obtain v where v: "TrimLeft s = TrimSpace s @ v"
    unfolding TrimSpace_def using TrimRight_prefix by blast
  have "cut_first white_space (TrimLeft s) = None"
    by (simp add: TrimLeft_def trim_with_stops)
  then show ?thesis
    unfolding v by (rule cut_first_prefix)
qed

lemma TrimSpace_right_done: "cut_first (map rev white_space) (rev (TrimSpace s)) = None"
  by (simp add: TrimSpace_def TrimRight_def trim_with_stops)

lemma TrimSpace_fixed_iff:
  "TrimSpace s = s \<longleftrightarrow>
     cut_first white_space s = None \<and> cut_first (map rev white_space) (rev s) = None"
proof
  assume "TrimSpace s = s"
  then show "cut_first white_space s = None \<and> cut_first (map rev white_space) (rev s) = None"
    using TrimSpace_left_done [of s] TrimSpace_right_done [of s] by simp
next
  assume "cut_first white_space s = None \<and> cut_first (map rev white_space) (rev s) = None"
  then show "TrimSpace s = s"
    by (simp add: TrimSpace_def TrimLeft_def TrimRight_def trim_with_id)
qed

lemma TrimSpace_idem [simp]: "TrimSpace (TrimSpace s) = TrimSpace s"
  using TrimSpace_fixed_iff TrimSpace_left_done TrimSpace_right_done by blast

lemma set_TrimSpace: "set (TrimSpace s) \<subseteq> set s"
proof -
  have "set (TrimLeft s) \<subseteq> set s"
    unfolding TrimLeft_def using trim_with_suffix [of s white_space]
    by (metis set_append sup_ge2)
  moreover have "set (TrimSpace s) \<subseteq> set (TrimLeft s)"
    unfolding TrimSpace_def using TrimRight_prefix [of "TrimLeft s"]
    by (metis set_append sup_ge1)
  ultimately show ?thesis by blast
qed

lemma TrimSpace_Nil [simp]: "TrimSpace [] = []"
  by (simp add: TrimSpace_fixed_iff cut_first_None_iff)


text \<open>
  \<open>utf8.ValidString\<close>: the table of accepted ranges. \<open>path.Base\<close>: the last element of a
  slash-separated path. \<open>unicode.IsControl\<close> over the runes of a well-formed string: a
  byte below 0x20, 0x7F, or one of the two-byte encodings of U+0080 to U+009F.
\<close>

definition code :: "char \<Rightarrow> nat" where
  "code c = of_char c"

definition continuation :: "char \<Rightarrow> bool" where
  "continuation c \<longleftrightarrow> 0x80 \<le> code c \<and> code c \<le> 0xBF"

fun second_byte_ok :: "nat \<Rightarrow> char \<Rightarrow> bool" where
  "second_byte_ok a b =
     (if a = 0xE0 then 0xA0 \<le> code b \<and> code b \<le> 0xBF
      else if a = 0xED then 0x80 \<le> code b \<and> code b \<le> 0x9F
      else if a = 0xF0 then 0x90 \<le> code b \<and> code b \<le> 0xBF
      else if a = 0xF4 then 0x80 \<le> code b \<and> code b \<le> 0x8F
      else continuation b)"

fun utf8_valid :: "string \<Rightarrow> bool" where
  "utf8_valid [] = True"
| "utf8_valid [a] = (code a < 0x80)"
| "utf8_valid [a, b] =
     (if code a < 0x80 then utf8_valid [b]
      else 0xC2 \<le> code a \<and> code a \<le> 0xDF \<and> continuation b)"
| "utf8_valid [a, b, c] =
     (if code a < 0x80 then utf8_valid [b, c]
      else if 0xC2 \<le> code a \<and> code a \<le> 0xDF then continuation b \<and> utf8_valid [c]
      else 0xE0 \<le> code a \<and> code a \<le> 0xEF \<and> second_byte_ok (code a) b \<and> continuation c)"
| "utf8_valid (a # b # c # d # s) =
     (if code a < 0x80 then utf8_valid (b # c # d # s)
      else if 0xC2 \<le> code a \<and> code a \<le> 0xDF then continuation b \<and> utf8_valid (c # d # s)
      else if 0xE0 \<le> code a \<and> code a \<le> 0xEF
        then second_byte_ok (code a) b \<and> continuation c \<and> utf8_valid (d # s)
      else 0xF0 \<le> code a \<and> code a \<le> 0xF4 \<and> second_byte_ok (code a) b
        \<and> continuation c \<and> continuation d \<and> utf8_valid s)"

fun has_control :: "string \<Rightarrow> bool" where
  "has_control [] = False"
| "has_control (a # s) =
     (code a < 0x20 \<or> code a = 0x7F
      \<or> (code a = 0xC2 \<and> (case s of [] \<Rightarrow> False | b # _ \<Rightarrow> 0x80 \<le> code b \<and> code b \<le> 0x9F))
      \<or> has_control s)"

definition path_Base :: "string \<Rightarrow> string" where
  "path_Base p =
     (if p = [] then ''.''
      else let q = rev (dropWhile (\<lambda>c. c = CHR ''/'') (rev p));
               r = rev (takeWhile (\<lambda>c. c \<noteq> CHR ''/'') (rev q))
           in if r = [] then ''/'' else r)"

lemma path_Base_id: "p \<noteq> [] \<Longrightarrow> CHR ''/'' \<notin> set p \<Longrightarrow> path_Base p = p"
proof -
  assume ne: "p \<noteq> []" and nosl: "CHR ''/'' \<notin> set p"
  have dw: "dropWhile (\<lambda>c. c = CHR ''/'') (rev p) = rev p"
    unfolding dropWhile_eq_self_iff using nosl ne hd_in_set [of "rev p"] by auto
  have tw: "takeWhile (\<lambda>c. c \<noteq> CHR ''/'') (rev p) = rev p"
    unfolding takeWhile_eq_all_conv using nosl by auto
  show ?thesis
    unfolding path_Base_def Let_def dw rev_rev_ident tw using ne by simp
qed

lemma path_Base_no_slash: "path_Base p = ''/'' \<or> CHR ''/'' \<notin> set (path_Base p)"
  by (auto simp: path_Base_def Let_def dest: set_takeWhileD)

text \<open>\<open>strings.Cut\<close> at the first occurrence of a byte.\<close>

definition Cut :: "string \<Rightarrow> char \<Rightarrow> (string \<times> string) option" where
  "Cut s c = (if c \<in> set s
     then Some (takeWhile (\<lambda>x. x \<noteq> c) s, tl (dropWhile (\<lambda>x. x \<noteq> c) s)) else None)"

lemma Cut_append: "c \<notin> set a \<Longrightarrow> Cut (a @ c # b) c = Some (a, b)"
  by (induction a) (auto simp: Cut_def)

subsection \<open>Hexadecimal digits\<close>

definition hex_digit :: "nat \<Rightarrow> char" where
  "hex_digit n = ''0123456789abcdef'' ! (n mod 16)"

definition is_lower_hex :: "char \<Rightarrow> bool" where
  "is_lower_hex c \<longleftrightarrow> (0x30 \<le> code c \<and> code c \<le> 0x39) \<or> (0x61 \<le> code c \<and> code c \<le> 0x66)"

text \<open>\<open>encoding/hex\<close> reads both cases; a byte that is no digit is an error.\<close>

definition from_hex :: "char \<Rightarrow> nat option" where
  "from_hex c =
     (let n = code c in
      if 0x30 \<le> n \<and> n \<le> 0x39 then Some (n - 0x30)
      else if 0x61 \<le> n \<and> n \<le> 0x66 then Some (n - 0x61 + 10)
      else if 0x41 \<le> n \<and> n \<le> 0x46 then Some (n - 0x41 + 10)
      else None)"

definition hex_byte :: "byte \<Rightarrow> string" where
  "hex_byte b = [hex_digit (unat b div 16), hex_digit (unat b)]"

definition hex_EncodeToString :: "bytes \<Rightarrow> string" where
  "hex_EncodeToString bs = concat (map hex_byte bs)"

fun hex_DecodeString :: "string \<Rightarrow> bytes option" where
  "hex_DecodeString [] = Some []"
| "hex_DecodeString [c] = None"
| "hex_DecodeString (c # d # s) =
     (case (from_hex c, from_hex d, hex_DecodeString s) of
        (Some h, Some l, Some bs) \<Rightarrow> Some (of_nat (16 * h + l) # bs)
      | _ \<Rightarrow> None)"

lemma hex_digit_cases: "n < 16 \<Longrightarrow> is_lower_hex (hex_digit n) \<and> from_hex (hex_digit n) = Some n"
proof -
  have "\<forall>n \<in> set [0..<16]. is_lower_hex (hex_digit n) \<and> from_hex (hex_digit n) = Some n"
    by code_simp
  then show "n < 16 \<Longrightarrow> is_lower_hex (hex_digit n) \<and> from_hex (hex_digit n) = Some n"
    by simp
qed

lemma hex_digit_mod: "hex_digit n = hex_digit (n mod 16)"
  by (simp add: hex_digit_def)

lemma is_lower_hex_digit [simp]: "is_lower_hex (hex_digit n)"
  by (subst hex_digit_mod) (simp add: hex_digit_cases)

lemma from_hex_digit [simp]: "from_hex (hex_digit n) = Some (n mod 16)"
  by (subst hex_digit_mod) (simp add: hex_digit_cases)

lemma unat_lt2p_byte: "unat (b :: byte) < 256"
  using unsigned_less [of b] by simp

lemma length_hex_Encode [simp]: "length (hex_EncodeToString bs) = 2 * length bs"
  by (induction bs) (auto simp: hex_EncodeToString_def hex_byte_def)

lemma lower_hex_Encode: "c \<in> set (hex_EncodeToString bs) \<Longrightarrow> is_lower_hex c"
  by (auto simp: hex_EncodeToString_def hex_byte_def)

lemma hex_Decode_Encode [simp]: "hex_DecodeString (hex_EncodeToString bs) = Some bs"
proof (induction bs)
  case (Cons b bs)
  have "16 * (unat b div 16 mod 16) + unat b mod 16 = unat b"
  proof -
    have "unat b < 256" using unat_lt2p_byte by simp
    then have "unat b div 16 mod 16 = unat b div 16" by simp
    then show ?thesis by simp
  qed
  with Cons show ?case
    by (simp add: hex_EncodeToString_def hex_byte_def)
qed (simp add: hex_EncodeToString_def)

subsection \<open>Tables and database calls\<close>

text \<open>
  A table is the list of its rows. \<open>UPDATE \<dots> SET f WHERE P\<close> rewrites the rows that
  satisfy \<open>P\<close>; it is rejected when a rewritten row violates the table's \<open>CHECK\<close>
  constraints. A call on the connection either runs, or fails without effect, or runs while
  its reply is lost, so that the client sees an error although the effect is durable.
\<close>

definition sql_update :: "('r \<Rightarrow> bool) \<Rightarrow> ('r \<Rightarrow> 'r) \<Rightarrow> 'r list \<Rightarrow> 'r list" where
  "sql_update P f t = map (\<lambda>r. if P r then f r else r) t"

definition sql_checked_update ::
    "('r \<Rightarrow> bool) \<Rightarrow> ('r \<Rightarrow> bool) \<Rightarrow> ('r \<Rightarrow> 'r) \<Rightarrow> 'r list \<Rightarrow> 'r list option" where
  "sql_checked_update chk P f t =
     (if list_all (\<lambda>r. P r \<longrightarrow> chk (f r)) t then Some (sql_update P f t) else None)"

datatype dbcall = Call_Ok | Call_Failed | Reply_Lost

text \<open>
  Which calls fail is the environment's choice: a function of the operation name that the
  code puts into its storage error.
\<close>

type_synonym faults = "string \<Rightarrow> dbcall"

text \<open>Any failing outcome of a statement inside a transaction aborts the transaction.\<close>

abbreviation stmt_fails :: "faults \<Rightarrow> string \<Rightarrow> bool" where
  "stmt_fails flt op \<equiv> flt op \<noteq> Call_Ok"

text \<open>
  The end of a transaction, or a statement outside one: the state before, the state after,
  the result the client reports when it sees no success, and its result otherwise.
\<close>

definition finish :: "dbcall \<Rightarrow> 'd \<Rightarrow> 'd \<Rightarrow> 'r \<Rightarrow> 'r \<Rightarrow> 'r \<times> 'd" where
  "finish c old new failed v =
     (case c of Call_Ok \<Rightarrow> (v, new) | Call_Failed \<Rightarrow> (failed, old) | Reply_Lost \<Rightarrow> (failed, new))"

lemma finish_Inr_iff:
  "finish c b a (Inl e) v = (Inr x, d) \<longleftrightarrow> c = Call_Ok \<and> v = Inr x \<and> d = a"
  by (auto simp: finish_def split: dbcall.splits)

lemma finish_None_iff:
  "finish c b a (Some e) v = (None, d) \<longleftrightarrow> c = Call_Ok \<and> v = None \<and> d = a"
  by (auto simp: finish_def split: dbcall.splits)

lemma finish_state: "snd (finish c b a e v) = b \<or> snd (finish c b a e v) = a"
  by (auto simp: finish_def split: dbcall.splits)

lemma finish_same [simp]: "snd (finish c b b e v) = b"
  by (auto simp: finish_def split: dbcall.splits)

lemma finish_Ok [simp]: "finish Call_Ok b a e v = (v, a)"
  by (simp add: finish_def)

lemma sql_update_map [table_simps]:
  "(\<And>r. P r \<Longrightarrow> g (f r) = g r) \<Longrightarrow> map g (sql_update P f t) = map g t"
  by (induction t) (auto simp: sql_update_def)

lemma sql_update_id: "(\<And>r. r \<in> set t \<Longrightarrow> P r \<Longrightarrow> f r = r) \<Longrightarrow> sql_update P f t = t"
  by (induction t) (auto simp: sql_update_def)

lemma set_sql_update [table_simps]:
  "r \<in> set (sql_update P f t) \<longleftrightarrow> (\<exists>q \<in> set t. r = (if P q then f q else q))"
  by (auto simp: sql_update_def)

lemma sql_update_Nil [simp]: "sql_update P f [] = []"
  by (simp add: sql_update_def)

lemma sql_update_Cons [simp]:
  "sql_update P f (r # t) = (if P r then f r else r) # sql_update P f t"
  by (simp add: sql_update_def)

text \<open>Lookup by a key that an update keeps.\<close>

lemma find_sql_update [table_simps]:
  assumes "\<And>r. key (f r) = key r"
  shows "find (\<lambda>r. key r = k) (sql_update P f t) =
    map_option (\<lambda>r. if P r then f r else r) (find (\<lambda>r. key r = k) t)"
  by (induction t) (auto simp: assms)

lemma find_key_append:
  "find P (xs @ ys) = (case find P xs of None \<Rightarrow> find P ys | Some x \<Rightarrow> Some x)"
  by (induction xs) auto

lemma find_Some_in: "find P xs = Some x \<Longrightarrow> x \<in> set xs \<and> P x"
  by (induction xs) (auto split: if_splits)

lemma find_None_iff_in: "find P xs = None \<longleftrightarrow> (\<forall>x \<in> set xs. \<not> P x)"
  by (induction xs) auto

lemma find_distinct_key:
  assumes "distinct (map key t)" and "r \<in> set t"
  shows "find (\<lambda>q. key q = key r) t = Some r"
  using assms by (induction t) (auto simp: rev_image_eqI)

subsection \<open>Joined errors\<close>

text \<open>\<open>errors.Join\<close> of the collected problems: \<open>nil\<close> when there are none.\<close>

definition errors_Join :: "string list \<Rightarrow> 's check" where
  "errors_Join problems =
     (if problems = [] then None
      else Some (ErrText (concat (map (\<lambda>p. p @ [CHR 0x0A]) (butlast problems)) @ last problems)))"

lemma no_problem [simp]: "(if c then [p] else []) = [] \<longleftrightarrow> \<not> c"
  by simp

lemma errors_Join_None [simp]: "errors_Join problems = None \<longleftrightarrow> problems = []"
  by (simp add: errors_Join_def)

subsection \<open>Sums over the rows that a predicate selects\<close>

definition sum_rows :: "('r \<Rightarrow> bool) \<Rightarrow> ('r \<Rightarrow> int) \<Rightarrow> 'r list \<Rightarrow> int" where
  "sum_rows P f t = sum_list (map f (filter P t))"

lemma sum_rows_append [simp]: "sum_rows P f (t @ u) = sum_rows P f t + sum_rows P f u"
  by (simp add: sum_rows_def)

lemma sum_rows_Nil [simp]: "sum_rows P f [] = 0"
  by (simp add: sum_rows_def)

lemma sum_rows_Cons [simp]: "sum_rows P f (r # t) = (if P r then f r else 0) + sum_rows P f t"
  by (simp add: sum_rows_def)

lemma sum_rows_nonneg: "(\<And>r. r \<in> set t \<Longrightarrow> 0 \<le> f r) \<Longrightarrow> 0 \<le> sum_rows P f t"
  by (induction t) auto

text \<open>Updating the rows of one key, when the key is unique, changes a sum by one increment.\<close>

lemma sum_rows_update_absent:
  assumes K: "\<And>r. r \<in> set t \<Longrightarrow> \<not> K r"
  shows "sum_rows P f (sql_update K g t) = sum_rows P f t"
  using assms by (induction t) auto

lemma sum_rows_update:
  assumes K: "\<And>r. K r \<longleftrightarrow> key r = k" and "distinct (map key t)" and "k \<in> key ` set t"
    and P: "\<And>r. key r = k \<Longrightarrow> P (g r) = p \<and> P r = p" and f: "\<And>r. f (g r) = f r + c"
  shows "sum_rows P f (sql_update K g t) = sum_rows P f t + (if p then c else 0)"
  using assms(2,3)
proof (induction t)
  case (Cons r t)
  show ?case
  proof (cases "key r = k")
    case True
    have "sum_rows P f (sql_update K g t) = sum_rows P f t"
      by (rule sum_rows_update_absent) (use Cons.prems(1) True K in \<open>auto simp: rev_image_eqI\<close>)
    with P [OF True] f [of r] K [THEN iffD2, OF True] show ?thesis by simp
  next
    case False
    with Cons.IH Cons.prems K show ?thesis by auto
  qed
qed simp

lemma sum_rows_member:
  assumes "\<And>q. q \<in> set t \<Longrightarrow> 0 \<le> f q" and "r \<in> set t" and "P r"
  shows "f r \<le> sum_rows P f t"
  using assms
proof (induction t)
  case (Cons q t)
  have "0 \<le> sum_rows P f t" using Cons.prems(1) by (intro sum_rows_nonneg) simp
  moreover have "f r \<le> sum_rows P f t" if "r \<noteq> q" using Cons that by simp
  moreover have "0 \<le> f q" using Cons.prems(1) by simp
  ultimately show ?case using Cons.prems(3) by (cases "r = q") auto
qed simp

subsection \<open>Text columns\<close>

text \<open>
  PostgreSQL's \<open>text\<close> rejects NUL bytes and ill-formed UTF-8. \<open>btrim(x)\<close> removes blanks only,
  so its result is empty when \<open>x\<close> holds nothing else. The digest columns match
  \<open>^[0-9a-f]{64}$\<close>.
\<close>

definition pg_text :: "string \<Rightarrow> bool" where
  "pg_text s \<longleftrightarrow> utf8_valid s \<and> CHR 0x00 \<notin> set s"

definition only_blanks :: "string \<Rightarrow> bool" where
  "only_blanks s \<longleftrightarrow> list_all (\<lambda>c. c = CHR '' '') s"

definition sha256_text :: "string \<Rightarrow> bool" where
  "sha256_text s \<longleftrightarrow> length s = 64 \<and> list_all is_lower_hex s"

end
