(* ===== verification/Identity.thy ===== *)
theory Identity
  imports Prelude
begin

text \<open>
  Identifiers, digests and owners: the UUID format (\<open>validUUID\<close>, \<open>formatUUID\<close> and
  \<open>generateUUID\<close>, the same text in \<open>internal/anonymous/token.go\<close>,
  \<open>internal/upload/upload.go\<close> and \<open>internal/job/job.go\<close>), the SHA-256 digest type and the
  \<open>Owner\<close> type (the same text in \<open>upload.go\<close> and \<open>job.go\<close>), and the database values that
  stand for an owner. The messages of \<open>Owner_Validate\<close> are those of \<open>upload.go\<close>; the theory
  \<open>Job\<close> has those of \<open>job.go\<close>.
\<close>

subsection \<open>UUIDs\<close>

text \<open>
  Go's \<open>range\<close> over the string steps over runes; a multi-byte rune fails the digit test and
  cannot hide a dash, since the four dash bytes are tested first, so the bytes decide.
\<close>

definition validUUID :: "string \<Rightarrow> bool" where
  "validUUID v \<longleftrightarrow>
     length v = 36 \<and> v ! 8 = CHR ''-'' \<and> v ! 13 = CHR ''-'' \<and> v ! 18 = CHR ''-'' \<and> v ! 23 = CHR ''-'' \<and>
     list_all (\<lambda>(i, c). i = 8 \<or> i = 13 \<or> i = 18 \<or> i = 23 \<or> is_lower_hex c) (zip [0..<length v] v)"

definition formatUUID :: "bytes \<Rightarrow> string" where
  "formatUUID v =
     hex_EncodeToString (take 4 v) @ ''-'' @ hex_EncodeToString (take 2 (drop 4 v)) @ ''-'' @
     hex_EncodeToString (take 2 (drop 6 v)) @ ''-'' @ hex_EncodeToString (take 2 (drop 8 v)) @ ''-'' @
     hex_EncodeToString (take 6 (drop 10 v))"

text \<open>\<open>io.ReadFull\<close> on the random source: the bytes still to come from the reader.\<close>

definition ReadFull :: "bytes \<Rightarrow> nat \<Rightarrow> (bytes \<times> bytes) option" where
  "ReadFull random n = (if n \<le> length random then Some (take n random, drop n random) else None)"

definition stamp_v4 :: "bytes \<Rightarrow> bytes" where
  "stamp_v4 v = (let v' = v[6 := ((v ! 6) AND 0x0F) OR 0x40] in v'[8 := ((v' ! 8) AND 0x3F) OR 0x80])"

definition generateUUID :: "bytes \<Rightarrow> (string \<times> bytes) option" where
  "generateUUID random =
     (case ReadFull random 16 of
        None \<Rightarrow> None
      | Some (v, rest) \<Rightarrow> Some (formatUUID (stamp_v4 v), rest))"

lemma list_of_16:
  assumes "length v = 16"
  obtains a b c d e f g h i j k l m n p q where "v = [a, b, c, d, e, f, g, h, i, j, k, l, m, n, p, q]"
  using assms by (auto simp: numeral_eq_Suc length_Suc_conv)

lemma validUUID_formatUUID: "length v = 16 \<Longrightarrow> validUUID (formatUUID v)"
  by (erule list_of_16)
    (simp add: validUUID_def formatUUID_def hex_EncodeToString_def hex_byte_def upt_rec)

lemma length_stamp_v4 [simp]: "length (stamp_v4 v) = length v"
  by (simp add: stamp_v4_def Let_def)

lemma validUUID_length: "validUUID v \<Longrightarrow> length v = 36"
  by (simp add: validUUID_def)

lemma validUUID_chars: "validUUID v \<Longrightarrow> c \<in> set v \<Longrightarrow> c = CHR ''-'' \<or> is_lower_hex c"
proof -
  assume v: "validUUID v" and "c \<in> set v"
  then obtain i where i: "i < length v" "v ! i = c" by (auto simp: in_set_conv_nth)
  then have "(i, c) \<in> set (zip [0..<length v] v)"
    by (auto simp: set_zip intro!: exI [of _ i])
  with v i show ?thesis
    unfolding validUUID_def list_all_iff by fastforce
qed

lemma generateUUID_valid: "generateUUID random = Some (uid, rest) \<Longrightarrow> validUUID uid"
  by (auto simp: generateUUID_def ReadFull_def split: option.splits if_splits
    intro!: validUUID_formatUUID)

subsection \<open>SHA-256 digests\<close>

text \<open>
  \<open>strings.ToLower\<close> is written for ASCII letters. A string with a byte outside ASCII is
  refused by either branch of \<open>ParseSHA256\<close> with the same error.
\<close>

type_synonym SHA256 = bytes

definition lower_ascii :: "char \<Rightarrow> char" where
  "lower_ascii c = (if 0x41 \<le> code c \<and> code c \<le> 0x5A then char_of (code c + 0x20) else c)"

definition ParseSHA256 :: "string \<Rightarrow> 's err + SHA256" where
  "ParseSHA256 value =
     (if length value \<noteq> 64 \<or> value \<noteq> map lower_ascii value
        then Inl (ErrText ''SHA-256 must contain 64 lowercase hexadecimal characters'')
      else case hex_DecodeString value of
        None \<Rightarrow> Inl (ErrText ''SHA-256 must contain 64 lowercase hexadecimal characters'')
      | Some decoded \<Rightarrow> Inr decoded)"

definition SHA256_String :: "SHA256 \<Rightarrow> string" where
  "SHA256_String digest = hex_EncodeToString digest"

lemma lower_ascii_digit: "is_lower_hex c \<Longrightarrow> lower_ascii c = c"
  by (auto simp: is_lower_hex_def lower_ascii_def)

lemma code_inj: "code c = code d \<Longrightarrow> c = d"
  by (simp add: code_def)

lemma code_hex_digit: "n < 16 \<Longrightarrow> code (hex_digit n) = (if n < 10 then 48 + n else 87 + n)"
proof -
  have "\<forall>n \<in> set [0..<16]. code (hex_digit n) = (if n < 10 then 48 + n else 87 + n)"
    by code_simp
  then show "n < 16 \<Longrightarrow> code (hex_digit n) = (if n < 10 then 48 + n else 87 + n)"
    by simp
qed

lemma from_hex_lower:
  assumes h: "from_hex c = Some h" and low: "lower_ascii c = c"
  shows "hex_digit h = c"
proof -
  have "\<not> (0x41 \<le> code c \<and> code c \<le> 0x5A)"
  proof
    assume up: "0x41 \<le> code c \<and> code c \<le> 0x5A"
    then have "code (lower_ascii c) = code c + 0x20"
      by (simp add: lower_ascii_def code_def)
    with low show False by simp
  qed
  with h have "(0x30 \<le> code c \<and> code c \<le> 0x39 \<and> h = code c - 0x30)
      \<or> (0x61 \<le> code c \<and> code c \<le> 0x66 \<and> h = code c - 0x61 + 10)"
    by (auto simp: from_hex_def Let_def split: if_splits)
  then have "code (hex_digit h) = code c"
    by (auto simp: code_hex_digit)
  then show ?thesis by (rule code_inj)
qed

lemma from_hex_bound: "from_hex c = Some h \<Longrightarrow> h < 16"
  by (auto simp: from_hex_def Let_def split: if_splits)

lemma hex_byte_of_nibbles: "h < 16 \<Longrightarrow> l < 16 \<Longrightarrow> hex_byte (of_nat (16 * h + l)) = [hex_digit h, hex_digit l]"
proof -
  assume hl: "h < 16" "l < 16"
  then have "take_bit 8 (16 * h + l) = 16 * h + l"
    by (simp add: take_bit_nat_eq_self_iff)
  then have u: "unat (of_nat (16 * h + l) :: byte) = 16 * h + l"
    by (simp only: unsigned_of_nat len_num1 len_bit0 len_num0 mult_1_right) simp
  have "hex_digit (16 * h + l) = hex_digit l"
    by (simp add: hex_digit_def)
  then show ?thesis
    unfolding hex_byte_def u using hl by simp
qed

lemma hex_Encode_Decode:
  "hex_DecodeString s = Some bs \<Longrightarrow> map lower_ascii s = s \<Longrightarrow> hex_EncodeToString bs = s"
proof (induction s arbitrary: bs rule: hex_DecodeString.induct)
  case (3 c d s)
  from "3.prems" obtain h l ds where
    "from_hex c = Some h" "from_hex d = Some l" "hex_DecodeString s = Some ds"
    and bs: "bs = of_nat (16 * h + l) # ds"
    by (auto split: option.splits)
  with 3 show ?case
    unfolding bs hex_EncodeToString_def list.map concat.simps
    by (simp only: hex_byte_of_nibbles [OF from_hex_bound from_hex_bound]) (simp add: from_hex_lower)
qed (auto simp: hex_EncodeToString_def)

lemma hex_Decode_length: "hex_DecodeString s = Some bs \<Longrightarrow> length s = 2 * length bs"
  by (induction s arbitrary: bs rule: hex_DecodeString.induct) (auto split: option.splits)

lemma ParseSHA256_String [simp]: "length d = 32 \<Longrightarrow> ParseSHA256 (SHA256_String d) = Inr d"
proof -
  assume "length d = 32"
  moreover have "map lower_ascii (SHA256_String d) = SHA256_String d"
    by (auto simp: SHA256_String_def intro!: map_idI lower_ascii_digit dest: lower_hex_Encode)
  ultimately show ?thesis
    by (simp add: ParseSHA256_def SHA256_String_def)
qed

lemma ParseSHA256_Inr:
  assumes "ParseSHA256 s = Inr d"
  shows "length d = 32 \<and> SHA256_String d = s"
  using assms hex_Decode_length [of s d] hex_Encode_Decode [of s d]
  by (auto simp: ParseSHA256_def SHA256_String_def split: if_splits option.splits)

subsection \<open>Owners\<close>

text \<open>
  \<open>type OwnerKind string\<close>: the two exported constants, and any other value of the type.
  The database columns of an owner are its kind, a nullable user ID and a nullable session
  UUID; \<open>IS NOT DISTINCT FROM\<close> is equality of nullable values.
\<close>

datatype OwnerKind = OwnerAuthenticated | OwnerAnonymous | OwnerOther string

record Owner =
  Kind :: OwnerKind
  UserID :: int
  AnonymousSessionID :: string

type_synonym owner_cols = "OwnerKind \<times> int option \<times> string option"

definition Owner_Validate :: "Owner \<Rightarrow> 's check" where
  "Owner_Validate owner =
     (case Kind owner of
        OwnerAuthenticated \<Rightarrow>
          (if UserID owner \<le> 0 \<or> AnonymousSessionID owner \<noteq> []
             then Some (ErrText ''authenticated upload owner requires only a positive user ID'') else None)
      | OwnerAnonymous \<Rightarrow>
          (if UserID owner \<noteq> 0 \<or> \<not> validUUID (AnonymousSessionID owner)
             then Some (ErrText ''anonymous upload owner requires only a session UUID'') else None)
      | OwnerOther k \<Rightarrow> Some (ErrText ''upload owner kind is invalid''))"

definition NewAuthenticatedOwner :: "int \<Rightarrow> Owner \<times> 's check" where
  "NewAuthenticatedOwner userID =
     (let owner = \<lparr>Kind = OwnerAuthenticated, UserID = userID, AnonymousSessionID = []\<rparr>
      in (owner, Owner_Validate owner))"

definition NewAnonymousOwner :: "string \<Rightarrow> Owner \<times> 's check" where
  "NewAnonymousOwner sessionID =
     (let owner = \<lparr>Kind = OwnerAnonymous, UserID = 0, AnonymousSessionID = sessionID\<rparr>
      in (owner, Owner_Validate owner))"

definition ownerDatabaseValues :: "Owner \<Rightarrow> int option \<times> string option" where
  "ownerDatabaseValues owner =
     (if Kind owner = OwnerAuthenticated then (Some (UserID owner), None)
      else (None, Some (AnonymousSessionID owner)))"

definition owner_columns :: "Owner \<Rightarrow> owner_cols" where
  "owner_columns owner = (Kind owner, ownerDatabaseValues owner)"

text \<open>Reading the columns back, as \<open>scanSession\<close> and \<open>scanJob\<close> do.\<close>

definition scan_owner :: "owner_cols \<Rightarrow> Owner" where
  "scan_owner cols =
     (case cols of (kind, userID, anonymousID) \<Rightarrow>
        \<lparr>Kind = kind, UserID = (case userID of None \<Rightarrow> 0 | Some u \<Rightarrow> u),
         AnonymousSessionID = (case anonymousID of None \<Rightarrow> [] | Some a \<Rightarrow> a)\<rparr>)"

text \<open>The \<open>CHECK\<close> on the three owner columns, the same in \<open>upload_session\<close> and \<open>pdf_job\<close>.\<close>

definition owner_cols_check :: "owner_cols \<Rightarrow> bool" where
  "owner_cols_check cols \<longleftrightarrow>
     (case cols of (kind, userID, anonymousID) \<Rightarrow>
        (kind = OwnerAuthenticated \<and> userID \<noteq> None \<and> anonymousID = None) \<or>
        (kind = OwnerAnonymous \<and> userID = None \<and> anonymousID \<noteq> None))"

abbreviation valid_owner :: "Owner \<Rightarrow> bool" where
  "valid_owner owner \<equiv> Owner_Validate owner = (None :: unit check)"

lemma Owner_Validate_None: "Owner_Validate owner = (None :: 's check) \<longleftrightarrow> valid_owner owner"
  by (auto simp: Owner_Validate_def split: OwnerKind.splits if_splits)

lemma scan_owner_columns [simp]: "valid_owner owner \<Longrightarrow> scan_owner (owner_columns owner) = owner"
  by (cases owner)
    (auto simp: Owner_Validate_def scan_owner_def owner_columns_def ownerDatabaseValues_def
      split: OwnerKind.splits if_splits)

lemma owner_columns_check: "valid_owner owner \<Longrightarrow> owner_cols_check (owner_columns owner)"
  by (auto simp: Owner_Validate_def owner_cols_check_def owner_columns_def ownerDatabaseValues_def
      split: OwnerKind.splits if_splits)

lemma owner_columns_inj:
  "valid_owner a \<Longrightarrow> valid_owner b \<Longrightarrow> owner_columns a = owner_columns b \<Longrightarrow> a = b"
  by (metis scan_owner_columns)

end
