(* ===== verification/Capability.thy ===== *)
theory Capability
  imports Identity
begin

text \<open>
  \<open>internal/anonymous/token.go\<close>: the bearer capability of an anonymous session (a UUID, a
  dot and 256 random bits in URL-safe base64), the digest that is stored in its place, and
  the digest of a client address. HMAC-SHA-256 is the parameter \<open>hmac\<close> (key, then message)
  of the definitions that use it; nothing is assumed of it. The parts of
  \<open>encoding/base64\<close> and \<open>net/netip\<close> that the file uses are modelled.
\<close>

datatype QuotaScope = QuotaScopeSession | QuotaScopeIP

datatype QuotaMetric = QuotaMetricSessions | QuotaMetricUploads | QuotaMetricJobs | QuotaMetricBytes

text \<open>
  The exported errors of package \<open>anonymous\<close>. \<open>QuotaExceededError\<close> has the fields scope,
  metric, limit and retry instant.
\<close>

datatype anon_sentinel =
    ErrSessionNotFound | ErrSessionConflict | ErrInvalidCapability
  | ErrSessionExpired | ErrSessionRevoked | ErrSessionInactive
  | QuotaExceededError QuotaScope QuotaMetric int instant

type_synonym anon_err = "anon_sentinel err"

type_synonym hmac = "bytes \<Rightarrow> bytes \<Rightarrow> bytes"

subsection \<open>URL-safe base64 without padding\<close>

definition b64_char :: "nat \<Rightarrow> char" where
  "b64_char n = ''ABCDEFGHIJKLMNOPQRSTUVWXYZabcdefghijklmnopqrstuvwxyz0123456789-_'' ! n"

definition b64_index :: "char \<Rightarrow> nat option" where
  "b64_index c =
     (let n = code c in
      if 0x41 \<le> n \<and> n \<le> 0x5A then Some (n - 0x41)
      else if 0x61 \<le> n \<and> n \<le> 0x7A then Some (n - 0x61 + 26)
      else if 0x30 \<le> n \<and> n \<le> 0x39 then Some (n - 0x30 + 52)
      else if n = 0x2D then Some 62 else if n = 0x5F then Some 63 else None)"

fun b64_sextets :: "nat list \<Rightarrow> nat list" where
  "b64_sextets [] = []"
| "b64_sextets [a] = [a div 4, a mod 4 * 16]"
| "b64_sextets [a, b] = [a div 4, a mod 4 * 16 + b div 16, b mod 16 * 4]"
| "b64_sextets (a # b # c # r) =
     a div 4 # (a mod 4 * 16 + b div 16) # (b mod 16 * 4 + c div 64) # c mod 64 # b64_sextets r"

definition b64_EncodeToString :: "bytes \<Rightarrow> string" where
  "b64_EncodeToString bs = map b64_char (b64_sextets (map unat bs))"

text \<open>
  \<open>RawURLEncoding.DecodeString\<close> is not strict: it skips carriage returns and newlines and
  ignores the unused low bits of the last sextet. One left-over sextet is an error.
\<close>

fun b64_octets :: "nat list \<Rightarrow> nat list option" where
  "b64_octets [] = Some []"
| "b64_octets [w] = None"
| "b64_octets [w, x] = Some [w * 4 + x div 16]"
| "b64_octets [w, x, y] = Some [w * 4 + x div 16, x mod 16 * 16 + y div 4]"
| "b64_octets (w # x # y # z # r) =
     map_option (\<lambda>bs. (w * 4 + x div 16) # (x mod 16 * 16 + y div 4) # (y mod 4 * 64 + z) # bs)
       (b64_octets r)"

fun b64_indices :: "string \<Rightarrow> nat list option" where
  "b64_indices [] = Some []"
| "b64_indices (c # s) =
     (if c = CHR 0x0A \<or> c = CHR 0x0D then b64_indices s
      else case (b64_index c, b64_indices s) of
        (Some i, Some is) \<Rightarrow> Some (i # is) | _ \<Rightarrow> None)"

definition b64_DecodeString :: "string \<Rightarrow> bytes option" where
  "b64_DecodeString s =
     (case b64_indices s of None \<Rightarrow> None
      | Some is \<Rightarrow> map_option (map of_nat) (b64_octets is))"

lemma b64_index_char: "n < 64 \<Longrightarrow> b64_index (b64_char n) = Some n \<and>
    b64_char n \<noteq> CHR 0x0A \<and> b64_char n \<noteq> CHR 0x0D \<and> b64_char n \<noteq> CHR ''.''"
proof -
  assume "n < 64"
  then have "n \<in> {0..<64}" by simp
  moreover have "\<forall>n \<in> {0..<64}. b64_index (b64_char n) = Some n \<and>
      b64_char n \<noteq> CHR 0x0A \<and> b64_char n \<noteq> CHR 0x0D \<and> b64_char n \<noteq> CHR ''.''"
    unfolding atLeastLessThan_upt
    by (simp add: upt_rec b64_char_def b64_index_def code_def Let_def)
  ultimately show ?thesis by blast
qed

lemma sextet_bounds:
  fixes a b :: nat
  shows "a < 256 \<Longrightarrow> a div 4 < 64"
    and "b < 256 \<Longrightarrow> a mod 4 * 16 + b div 16 < 64"
    and "b < 256 \<Longrightarrow> a mod 16 * 4 + b div 64 < 64"
    and "a mod 4 * 16 < 64" and "a mod 16 * 4 < 64" and "a mod 64 < 64"
proof -
  have m: "a mod 4 \<le> 3" "a mod 16 \<le> 15" "a mod 64 < 64"
    using mod_less_divisor [of 4 a] mod_less_divisor [of 16 a] by simp_all
  then show "a mod 4 * 16 < 64" "a mod 16 * 4 < 64" "a mod 64 < 64" by linarith+
  show "a < 256 \<Longrightarrow> a div 4 < 64" by (simp add: div_less_iff_less_mult)
  assume "b < 256"
  then have d: "b div 16 < 16" "b div 64 < 4" by (simp_all add: div_less_iff_less_mult)
  from d m show "a mod 4 * 16 + b div 16 < 64" "a mod 16 * 4 + b div 64 < 64" by linarith+
qed

lemma b64_sextets_bound: "\<forall>a \<in> set as. a < 256 \<Longrightarrow> \<forall>i \<in> set (b64_sextets as). i < 64"
proof (induction as rule: b64_sextets.induct)
  case (4 a b c r)
  then have "\<forall>i \<in> set (b64_sextets r). i < 64" and "a < 256" "b < 256" "c < 256" by simp_all
  then show ?case
    by (simp only: b64_sextets.simps list.set ball_simps sextet_bounds simp_thms)
qed (simp_all only: b64_sextets.simps list.set ball_simps sextet_bounds simp_thms)

lemma b64_indices_chars: "\<forall>i \<in> set is. i < 64 \<Longrightarrow> b64_indices (map b64_char is) = Some is"
  by (induction "is") (auto simp: b64_index_char)

lemma join_digits:
  fixes k m n :: nat
  assumes "n < k"
  shows "(m * k + n) div k = m" and "(m * k + n) mod k = n"
  using assms by simp_all

lemma sextet_joins:
  fixes a b c :: nat
  shows "b < 256 \<Longrightarrow> a div 4 * 4 + (a mod 4 * 16 + b div 16) div 16 = a"
    and "b < 256 \<Longrightarrow> c < 256 \<Longrightarrow>
      (a mod 4 * 16 + b div 16) mod 16 * 16 + (b mod 16 * 4 + c div 64) div 4 = b"
    and "c < 256 \<Longrightarrow> (b mod 16 * 4 + c div 64) mod 4 * 64 + c mod 64 = c"
    and "a div 4 * 4 + a mod 4 * 16 div 16 = a"
    and "b < 256 \<Longrightarrow> (a mod 4 * 16 + b div 16) mod 16 * 16 + b mod 16 * 4 div 4 = b"
proof -
  have d: "x div 16 < 16" if "x < 256" for x :: nat using that by (simp add: div_less_iff_less_mult)
  have e: "x div 64 < 4" if "x < 256" for x :: nat using that by (simp add: div_less_iff_less_mult)
  show "b < 256 \<Longrightarrow> a div 4 * 4 + (a mod 4 * 16 + b div 16) div 16 = a"
    by (simp only: join_digits d div_mult_mod_eq)
  show "b < 256 \<Longrightarrow> c < 256 \<Longrightarrow>
      (a mod 4 * 16 + b div 16) mod 16 * 16 + (b mod 16 * 4 + c div 64) div 4 = b"
    by (simp only: join_digits d e div_mult_mod_eq)
  show "c < 256 \<Longrightarrow> (b mod 16 * 4 + c div 64) mod 4 * 64 + c mod 64 = c"
    by (simp only: join_digits e div_mult_mod_eq)
  show "a div 4 * 4 + a mod 4 * 16 div 16 = a" by simp
  show "b < 256 \<Longrightarrow> (a mod 4 * 16 + b div 16) mod 16 * 16 + b mod 16 * 4 div 4 = b"
    by (simp only: join_digits d) simp
qed

lemma b64_octets_sextets: "\<forall>a \<in> set as. a < 256 \<Longrightarrow> b64_octets (b64_sextets as) = Some as"
proof (induction as rule: b64_sextets.induct)
  case (3 a b)
  then show ?case by (simp only: b64_sextets.simps b64_octets.simps list.set ball_simps sextet_joins)
next
  case (4 a b c r)
  then have "b < 256" "c < 256" "b64_octets (b64_sextets r) = Some r" by simp_all
  then show ?case
    by (simp only: b64_sextets.simps b64_octets.simps sextet_joins option.map)
qed simp_all

lemma b64_Decode_Encode [simp]: "b64_DecodeString (b64_EncodeToString bs) = Some bs"
proof -
  have b: "\<forall>a \<in> set (map unat bs). a < 256"
    by (auto simp: unat_lt2p_byte)
  then have "b64_indices (b64_EncodeToString bs) = Some (b64_sextets (map unat bs))"
    unfolding b64_EncodeToString_def by (intro b64_indices_chars b64_sextets_bound)
  with b show ?thesis
    by (simp add: b64_DecodeString_def b64_octets_sextets o_def)
qed

lemma b64_Encode_no_dot: "CHR ''.'' \<notin> set (b64_EncodeToString bs)"
proof -
  have "\<forall>i \<in> set (b64_sextets (map unat bs)). i < 64"
    by (rule b64_sextets_bound) (auto simp: unat_lt2p_byte)
  then show ?thesis
    unfolding b64_EncodeToString_def using b64_index_char by fastforce
qed

lemma b64_Encode_Nil: "b64_EncodeToString bs = [] \<longleftrightarrow> bs = []"
  by (cases "map unat bs" rule: b64_sextets.cases) (auto simp: b64_EncodeToString_def)

subsection \<open>Client addresses\<close>

text \<open>
  \<open>netip.Addr\<close>: the zero value, an IPv4 address of 4 bytes, or an IPv6 address of 16 bytes
  with its zone (empty when absent). \<open>Unmap\<close> turns an IPv4-mapped IPv6 address into the
  IPv4 address it carries; \<open>IsUnspecified\<close> holds of 0.0.0.0 and of \<open>::\<close> without a zone.
\<close>

datatype Addr = AddrZero | Addr4 bytes | Addr6 bytes string

definition Addr_IsValid :: "Addr \<Rightarrow> bool" where
  "Addr_IsValid a \<longleftrightarrow> a \<noteq> AddrZero"

definition Addr_IsUnspecified :: "Addr \<Rightarrow> bool" where
  "Addr_IsUnspecified a \<longleftrightarrow> a = Addr4 (replicate 4 0) \<or> a = Addr6 (replicate 16 0) []"

fun Addr_Unmap :: "Addr \<Rightarrow> Addr" where
  "Addr_Unmap (Addr6 b zone) =
     (if take 12 b = replicate 10 0 @ [255, 255] then Addr4 (drop 12 b) else Addr6 b zone)"
| "Addr_Unmap a = a"

fun Addr_AsSlice :: "Addr \<Rightarrow> bytes" where
  "Addr_AsSlice AddrZero = []"
| "Addr_AsSlice (Addr4 b) = b"
| "Addr_AsSlice (Addr6 b zone) = b"

subsection \<open>Digests, generation and parsing\<close>

definition secretBytes :: nat where "secretBytes = 32"
definition pepperBytes :: nat where "pepperBytes = 32"

definition ipDigestDomain :: bytes where
  "ipDigestDomain = map of_char (''go-pdf-forge/anonymous-ip/v1'' @ [CHR 0x00])"

text \<open>A Go byte array filled by \<open>copy\<close>: exactly 32 bytes, whatever the source's length.\<close>

definition copy_digest :: "bytes \<Rightarrow> bytes" where
  "copy_digest s = take 32 (s @ replicate 32 0)"

definition validatePepper :: "bytes \<Rightarrow> 's check" where
  "validatePepper pepper =
     (if length pepper < pepperBytes
        then Some (ErrText ''anonymous token pepper must contain at least %d bytes'') else None)"

definition tokenDigest :: "hmac \<Rightarrow> bytes \<Rightarrow> bytes \<Rightarrow> bytes" where
  "tokenDigest hmac pepper secret = copy_digest (hmac pepper secret)"

text \<open>\<open>hmac.Equal\<close>: equality of the two digests, computed in constant time.\<close>

definition Matches :: "bytes \<Rightarrow> bytes \<Rightarrow> bool" where
  "Matches actual expected \<longleftrightarrow> actual = expected"

definition DigestIP :: "hmac \<Rightarrow> bytes \<Rightarrow> Addr \<Rightarrow> anon_err + bytes" where
  "DigestIP hmac pepper address =
     (case validatePepper pepper of
        Some err \<Rightarrow> Inl err
      | None \<Rightarrow>
          if \<not> Addr_IsValid address \<or> Addr_IsUnspecified address
            then Inl (ErrText ''client IP address is required'')
          else let address = Addr_Unmap address
               in Inr (copy_digest (hmac pepper (ipDigestDomain @ Addr_AsSlice address))))"

record Capability =
  cap_SessionID :: string
  cap_Raw :: string
  cap_Digest :: bytes

definition generate :: "hmac \<Rightarrow> bytes \<Rightarrow> bytes \<Rightarrow> anon_err + Capability" where
  "generate hmac random pepper =
     (case validatePepper pepper of
        Some err \<Rightarrow> Inl err
      | None \<Rightarrow>
          (case ReadFull random 16 of
             None \<Rightarrow> Inl (ErrText ''generate anonymous session ID: %w'')
           | Some (idBytes, random) \<Rightarrow>
               (case ReadFull random secretBytes of
                  None \<Rightarrow> Inl (ErrText ''generate anonymous session secret: %w'')
                | Some (secret, random) \<Rightarrow>
                    (let sessionID = formatUUID (stamp_v4 idBytes);
                         raw = sessionID @ ''.'' @ b64_EncodeToString secret
                     in Inr \<lparr>cap_SessionID = sessionID, cap_Raw = raw,
                             cap_Digest = tokenDigest hmac pepper secret\<rparr>))))"

definition Parse :: "hmac \<Rightarrow> string \<Rightarrow> bytes \<Rightarrow> anon_err + (string \<times> bytes)" where
  "Parse hmac raw pepper =
     (case validatePepper pepper of
        Some err \<Rightarrow> Inl err
      | None \<Rightarrow>
          (case Cut raw (CHR ''.'') of
             None \<Rightarrow> Inl (ErrText ''invalid anonymous capability'')
           | Some (sessionID, encodedSecret) \<Rightarrow>
               if \<not> validUUID sessionID \<or> encodedSecret = [] \<or> CHR ''.'' \<in> set encodedSecret
                 then Inl (ErrText ''invalid anonymous capability'')
               else case b64_DecodeString encodedSecret of
                 None \<Rightarrow> Inl (ErrText ''invalid anonymous capability'')
               | Some secret \<Rightarrow>
                   if length secret \<noteq> secretBytes then Inl (ErrText ''invalid anonymous capability'')
                   else Inr (sessionID, tokenDigest hmac pepper secret)))"

lemma length_copy_digest [simp]: "length (copy_digest s) = 32"
  by (simp add: copy_digest_def)

lemma copy_digest_id: "length s = 32 \<Longrightarrow> copy_digest s = s"
  by (simp add: copy_digest_def)

lemma length_tokenDigest [simp]: "length (tokenDigest hmac pepper secret) = 32"
  by (simp add: tokenDigest_def)

lemma length_DigestIP: "DigestIP hmac pepper a = Inr d \<Longrightarrow> length d = 32"
  by (auto simp: DigestIP_def Let_def split: option.splits if_splits)

lemma Parse_Inr_iff:
  "Parse hmac raw pepper = Inr (sid, d) \<longleftrightarrow>
     32 \<le> length pepper \<and> validUUID sid \<and>
     (\<exists>enc secret. raw = sid @ CHR ''.'' # enc \<and> CHR ''.'' \<notin> set enc \<and>
        b64_DecodeString enc = Some secret \<and> length secret = 32 \<and> d = tokenDigest hmac pepper secret)"
  (is "?L \<longleftrightarrow> ?R")
proof
  assume ?L
  then obtain enc secret where c: "Cut raw (CHR ''.'') = Some (sid, enc)"
    and r: "32 \<le> length pepper" "validUUID sid" "CHR ''.'' \<notin> set enc"
      "b64_DecodeString enc = Some secret" "length secret = 32" "d = tokenDigest hmac pepper secret"
    by (auto simp: Parse_def validatePepper_def pepperBytes_def secretBytes_def
        split: option.splits if_splits)
  from c have "CHR ''.'' \<in> set raw" and sid: "sid = takeWhile (\<lambda>x. x \<noteq> CHR ''.'') raw"
    and enc: "enc = tl (dropWhile (\<lambda>x. x \<noteq> CHR ''.'') raw)"
    by (auto simp: Cut_def split: if_splits)
  then have ne: "dropWhile (\<lambda>x. x \<noteq> CHR ''.'') raw \<noteq> []"
    by (simp add: dropWhile_eq_Nil_conv)
  then have "hd (dropWhile (\<lambda>x. x \<noteq> CHR ''.'') raw) = CHR ''.''"
    using hd_dropWhile [OF ne] by simp
  with ne have "dropWhile (\<lambda>x. x \<noteq> CHR ''.'') raw = CHR ''.'' # enc"
    by (metis enc list.collapse)
  then have "raw = sid @ CHR ''.'' # enc"
    by (metis sid takeWhile_dropWhile_id)
  with r show ?R by blast
next
  assume ?R
  then obtain enc secret where r: "32 \<le> length pepper" "validUUID sid"
      "raw = sid @ CHR ''.'' # enc" "CHR ''.'' \<notin> set enc"
      "b64_DecodeString enc = Some secret" "length secret = 32" "d = tokenDigest hmac pepper secret"
    by blast
  have "CHR ''.'' \<notin> set sid"
    using validUUID_chars [OF r(2), of "CHR ''.''"] by (auto simp: is_lower_hex_def code_def)
  moreover have "enc \<noteq> []"
    using r(5,6) by (auto simp: b64_DecodeString_def)
  ultimately show ?L
    using r by (simp add: Parse_def validatePepper_def pepperBytes_def secretBytes_def Cut_append)
qed

lemma generate_Inr:
  assumes "generate hmac random pepper = Inr cap"
  obtains secret where "validUUID (cap_SessionID cap)" "length secret = 32" "32 \<le> length pepper"
    "cap_Raw cap = cap_SessionID cap @ CHR ''.'' # b64_EncodeToString secret"
    "cap_Digest cap = tokenDigest hmac pepper secret"
    "secret = take 32 (drop 16 random)" "cap_SessionID cap = formatUUID (stamp_v4 (take 16 random))"
  using assms
  by (auto simp: generate_def validatePepper_def pepperBytes_def secretBytes_def ReadFull_def
      Let_def validUUID_formatUUID split: option.splits if_splits)

lemma Parse_generate:
  assumes "generate hmac random pepper = Inr cap"
  shows "Parse hmac (cap_Raw cap) pepper = Inr (cap_SessionID cap, cap_Digest cap)"
proof -
  obtain secret where "validUUID (cap_SessionID cap)" "length secret = 32" "32 \<le> length pepper"
    "cap_Raw cap = cap_SessionID cap @ CHR ''.'' # b64_EncodeToString secret"
    "cap_Digest cap = tokenDigest hmac pepper secret"
    using generate_Inr [OF assms] by metis
  then show ?thesis
    unfolding Parse_Inr_iff using b64_Encode_no_dot by auto
qed

lemma generate_digest_length: "generate hmac random pepper = Inr cap \<Longrightarrow> length (cap_Digest cap) = 32"
  using generate_Inr by (metis length_tokenDigest)

text \<open>
  C1. Every capability that \<open>generate\<close> issues is accepted by \<open>Parse\<close> under the same pepper,
  with exactly the session UUID and the digest that were handed to persistence; the
  printed secret, the dot separator and the UUID survive the round trip for all random bytes.
\<close>

theorem parse_generated_capability:
  assumes "generate hmac random pepper = Inr cap"
  shows "Parse hmac (cap_Raw cap) pepper = Inr (cap_SessionID cap, cap_Digest cap)"
  using assms by (rule Parse_generate)

text \<open>A concrete digest function for the witnesses: not a cryptographic one.\<close>

definition toy_hmac :: hmac where
  "toy_hmac key message = replicate 31 (sum_list key) @ [sum_list message]"

definition toy_pepper :: bytes where
  "toy_pepper = replicate 32 112"

definition toy_capability :: Capability where
  "toy_capability = (case generate toy_hmac (replicate 48 66) toy_pepper of Inr c \<Rightarrow> c)"

lemma toy_capability: "generate toy_hmac (replicate 48 66) toy_pepper = Inr toy_capability"
  by (simp add: toy_capability_def generate_def validatePepper_def pepperBytes_def secretBytes_def
      ReadFull_def toy_pepper_def Let_def)

theorem parse_generated_capability_witness:
  "Parse toy_hmac (cap_Raw toy_capability) toy_pepper
     = Inr (cap_SessionID toy_capability, cap_Digest toy_capability)"
  by (rule parse_generated_capability [OF toy_capability])

lemma mapped_not_unspecified: "\<not> Addr_IsUnspecified (Addr6 (replicate 10 0 @ 255 # 255 # ip) zone)"
proof -
  have "(replicate 10 0 @ 255 # 255 # ip) ! 10 \<noteq> (replicate 16 0 :: bytes) ! 10"
    by (simp add: nth_append)
  then show ?thesis by (auto simp: Addr_IsUnspecified_def)
qed

text \<open>
  Address canonicalisation: an IPv4 client and its IPv4-mapped IPv6 form have one quota
  identity, whatever the zone, so a client cannot double its allowance by switching the
  representation of its address.
\<close>

lemma digest_ip_canonical:
  assumes "length ip = 4" and "ip \<noteq> replicate 4 0"
  shows "DigestIP hmac pepper (Addr6 (replicate 10 0 @ [255, 255] @ ip) zone)
    = DigestIP hmac pepper (Addr4 ip)"
proof -
  have "Addr_Unmap (Addr6 (replicate 10 0 @ [255, 255] @ ip) zone) = Addr4 ip"
    by simp
  moreover have "\<not> Addr_IsUnspecified (Addr4 ip)"
    using assms by (simp add: Addr_IsUnspecified_def)
  ultimately show ?thesis
    by (simp add: DigestIP_def Addr_IsValid_def mapped_not_unspecified split: option.split)
qed

lemma digest_ip_canonical_witness:
  "DigestIP toy_hmac toy_pepper (Addr6 (replicate 10 0 @ [255, 255] @ [192, 0, 2, 42]) ''eth0'')
     = DigestIP toy_hmac toy_pepper (Addr4 [192, 0, 2, 42])"
  by (rule digest_ip_canonical) (simp_all add: list_eq_iff_nth_eq, force)

text \<open>
  The unspecified address is refused in its IPv4 form only: the test runs before \<open>Unmap\<close>,
  so the mapped form of 0.0.0.0 gets a digest.
\<close>

lemma mapped_unspecified_accepted:
  "DigestIP toy_hmac toy_pepper (Addr4 (replicate 4 0)) = Inl (ErrText ''client IP address is required'')
   \<and> (\<exists>d. DigestIP toy_hmac toy_pepper (Addr6 (replicate 10 0 @ [255, 255] @ replicate 4 0) []) = Inr d)"
proof
  show "DigestIP toy_hmac toy_pepper (Addr4 (replicate 4 0)) = Inl (ErrText ''client IP address is required'')"
    by (simp add: DigestIP_def validatePepper_def toy_pepper_def pepperBytes_def Addr_IsUnspecified_def)
  show "\<exists>d. DigestIP toy_hmac toy_pepper (Addr6 (replicate 10 0 @ [255, 255] @ replicate 4 0) []) = Inr d"
    unfolding DigestIP_def Addr_IsValid_def
    by (simp add: validatePepper_def toy_pepper_def pepperBytes_def mapped_not_unspecified)
qed

end
