(* ===== verification/Anon_Session.thy ===== *)
theory Anon_Session
  imports Capability
begin

text \<open>
  Anonymous sessions: \<open>internal/anonymous/session.go\<close> (the \<open>Session\<close> record, the
  \<open>SessionStore\<close> interface and the \<open>Manager\<close>) and
  \<open>internal/anonymous/storage_postgres.go\<close> (the PostgreSQL store). The interface is the
  locale \<open>session_store\<close>; the manager's properties are proved inside it and reach the
  service through the interpretation on the PostgreSQL model.
\<close>

record Session =
  sess_ID :: string
  sess_SecretDigest :: bytes
  sess_InitialIPDigest :: bytes
  sess_LastIPDigest :: bytes
  sess_CreatedAt :: instant
  sess_LastSeenAt :: instant
  sess_ExpiresAt :: instant
  sess_RevokedAt :: "instant option"

definition Session_Expired :: "Session \<Rightarrow> instant \<Rightarrow> bool" where
  "Session_Expired session at \<longleftrightarrow> \<not> at < sess_ExpiresAt session"

definition Session_Revoked :: "Session \<Rightarrow> bool" where
  "Session_Revoked session \<longleftrightarrow> sess_RevokedAt session \<noteq> None"

subsection \<open>The table\<close>

text \<open>
  A row of \<open>anonymous_session\<close>: the digests are \<open>bytea\<close> columns of any length, kept at 32
  bytes by the \<open>CHECK\<close> constraints of the migrations.
\<close>

record session_row =
  as_id :: string
  as_secret_hash :: bytes
  as_initial_ip_hash :: bytes
  as_last_ip_hash :: bytes
  as_created_at :: instant
  as_last_seen_at :: instant
  as_expires_at :: instant
  as_revoked_at :: "instant option"

record anon_db =
  anonymous_session :: "session_row list"

definition session_row_check :: "session_row \<Rightarrow> bool" where
  "session_row_check r \<longleftrightarrow>
     as_created_at r < as_expires_at r \<and> length (as_secret_hash r) = 32 \<and>
     length (as_initial_ip_hash r) = 32 \<and> length (as_last_ip_hash r) = 32"

definition copyDigest :: "bytes \<Rightarrow> anon_err + bytes" where
  "copyDigest source =
     (if length source \<noteq> 32 then Inl (ErrText ''anonymous session %s digest has invalid length'')
      else Inr source)"

definition anon_scanSession :: "session_row \<Rightarrow> anon_err + Session" where
  "anon_scanSession row =
     (case copyDigest (as_secret_hash row) of
        Inl err \<Rightarrow> Inl err
      | Inr secretDigest \<Rightarrow>
     (case copyDigest (as_initial_ip_hash row) of
        Inl err \<Rightarrow> Inl err
      | Inr initialIPDigest \<Rightarrow>
     (case copyDigest (as_last_ip_hash row) of
        Inl err \<Rightarrow> Inl err
      | Inr lastIPDigest \<Rightarrow>
          Inr \<lparr>sess_ID = as_id row, sess_SecretDigest = secretDigest,
            sess_InitialIPDigest = initialIPDigest, sess_LastIPDigest = lastIPDigest,
            sess_CreatedAt = as_created_at row, sess_LastSeenAt = as_last_seen_at row,
            sess_ExpiresAt = as_expires_at row, sess_RevokedAt = as_revoked_at row\<rparr>)))"

definition anon_validateSessionForCreate :: "Session \<Rightarrow> anon_sentinel check" where
  "anon_validateSessionForCreate session =
     (if \<not> validUUID (sess_ID session)
        then Some (ErrText ''anonymous session ID must be a UUID'')
      else if IsZero (sess_CreatedAt session) \<or> IsZero (sess_LastSeenAt session)
          \<or> IsZero (sess_ExpiresAt session)
        then Some (ErrText ''anonymous session timestamps are required'')
      else if \<not> sess_CreatedAt session < sess_ExpiresAt session
        then Some (ErrText ''anonymous session expiry must follow creation'')
      else if sess_RevokedAt session \<noteq> None
        then Some (ErrText ''new anonymous session cannot be revoked'')
      else None)"

text \<open>The row that the \<open>INSERT\<close> of \<open>Create\<close> writes.\<close>

definition insert_session_row :: "Session \<Rightarrow> session_row" where
  "insert_session_row session =
     \<lparr>as_id = sess_ID session, as_secret_hash = sess_SecretDigest session,
      as_initial_ip_hash = sess_InitialIPDigest session, as_last_ip_hash = sess_LastIPDigest session,
      as_created_at = pg_time (sess_CreatedAt session),
      as_last_seen_at = pg_time (sess_LastSeenAt session),
      as_expires_at = pg_time (sess_ExpiresAt session), as_revoked_at = None\<rparr>"

subsection \<open>The PostgreSQL store\<close>

definition pg_session_Create ::
    "faults \<Rightarrow> Session \<Rightarrow> 'z anon_db_scheme \<Rightarrow> (anon_err + Session) \<times> 'z anon_db_scheme" where
  "pg_session_Create flt session d =
     (case anon_validateSessionForCreate session of
        Some err \<Rightarrow> (Inl err, d)
      | None \<Rightarrow>
          let row = insert_session_row session;
              failed = Inl (StorageError ''create'')
          in if flt ''create'' = Call_Failed \<or> \<not> session_row_check row then (failed, d)
             else if list_ex (\<lambda>r. as_id r = as_id row \<or> as_secret_hash r = as_secret_hash row)
                 (anonymous_session d)
               then (if flt ''create'' = Call_Ok then Inl (Sentinel ErrSessionConflict) else failed, d)
             else finish (flt ''create'') d
               (d\<lparr>anonymous_session := anonymous_session d @ [row]\<rparr>) failed
               (case anon_scanSession row of Inr created \<Rightarrow> Inr created | Inl err \<Rightarrow> failed))"

definition pg_session_Get ::
    "faults \<Rightarrow> string \<Rightarrow> 'z anon_db_scheme \<Rightarrow> (anon_err + Session) \<times> 'z anon_db_scheme" where
  "pg_session_Get flt sid d =
     (if \<not> validUUID sid then (Inl (Sentinel ErrSessionNotFound), d)
      else let failed = Inl (StorageError ''lookup'')
        in finish (flt ''lookup'') d d failed
          (case find (\<lambda>r. as_id r = sid) (anonymous_session d) of
             None \<Rightarrow> Inl (Sentinel ErrSessionNotFound)
           | Some row \<Rightarrow> (case anon_scanSession row of Inr record \<Rightarrow> Inr record | Inl err \<Rightarrow> failed)))"

definition touch_matches :: "string \<Rightarrow> instant \<Rightarrow> session_row \<Rightarrow> bool" where
  "touch_matches sid seenAt r \<longleftrightarrow> as_id r = sid \<and> as_revoked_at r = None \<and> seenAt < as_expires_at r"

definition touch_set :: "bytes \<Rightarrow> instant \<Rightarrow> session_row \<Rightarrow> session_row" where
  "touch_set ipDigest seenAt r =
     r\<lparr>as_last_ip_hash := (if as_last_seen_at r \<le> seenAt then ipDigest else as_last_ip_hash r),
       as_last_seen_at := max (as_last_seen_at r) seenAt\<rparr>"

definition pg_session_TouchActive ::
    "faults \<Rightarrow> string \<Rightarrow> bytes \<Rightarrow> instant \<Rightarrow> 'z anon_db_scheme \<Rightarrow> anon_sentinel check \<times> 'z anon_db_scheme" where
  "pg_session_TouchActive flt sid ipDigest seenAt d =
     (if \<not> validUUID sid then (Some (Sentinel ErrSessionNotFound), d)
      else if IsZero seenAt then (Some (ErrText ''anonymous session last-seen time is required''), d)
      else let failed = Some (StorageError ''touch''); matching = touch_matches sid (pg_time seenAt)
        in case sql_checked_update session_row_check matching (touch_set ipDigest (pg_time seenAt))
             (anonymous_session d) of
             None \<Rightarrow> (failed, d)
           | Some rows \<Rightarrow> finish (flt ''touch'') d (d\<lparr>anonymous_session := rows\<rparr>) failed
               (if list_ex matching (anonymous_session d) then None
                else Some (Sentinel ErrSessionInactive)))"

definition revoke_set :: "instant \<Rightarrow> session_row \<Rightarrow> session_row" where
  "revoke_set revokedAt r =
     r\<lparr>as_revoked_at := Some (case as_revoked_at r of None \<Rightarrow> revokedAt | Some first \<Rightarrow> first)\<rparr>"

definition pg_session_Revoke ::
    "faults \<Rightarrow> string \<Rightarrow> instant \<Rightarrow> 'z anon_db_scheme \<Rightarrow> anon_sentinel check \<times> 'z anon_db_scheme" where
  "pg_session_Revoke flt sid revokedAt d =
     (if \<not> validUUID sid then (Some (Sentinel ErrSessionNotFound), d)
      else if IsZero revokedAt then (Some (ErrText ''anonymous session revocation time is required''), d)
      else let failed = Some (StorageError ''revoke''); matching = (\<lambda>r. as_id r = sid)
        in case sql_checked_update session_row_check matching (revoke_set (pg_time revokedAt))
             (anonymous_session d) of
             None \<Rightarrow> (failed, d)
           | Some rows \<Rightarrow> finish (flt ''revoke'') d (d\<lparr>anonymous_session := rows\<rparr>) failed
               (if list_ex matching (anonymous_session d) then None
                else Some (Sentinel ErrSessionNotFound)))"

subsection \<open>The store interface and the manager\<close>

record 'd SessionStore =
  ss_Create :: "Session \<Rightarrow> 'd \<Rightarrow> (anon_err + Session) \<times> 'd"
  ss_Get :: "string \<Rightarrow> 'd \<Rightarrow> (anon_err + Session) \<times> 'd"
  ss_TouchActive :: "string \<Rightarrow> bytes \<Rightarrow> instant \<Rightarrow> 'd \<Rightarrow> anon_sentinel check \<times> 'd"
  ss_Revoke :: "string \<Rightarrow> instant \<Rightarrow> 'd \<Rightarrow> anon_sentinel check \<times> 'd"

definition PostgresSessionStore :: "faults \<Rightarrow> 'z anon_db_scheme SessionStore" where
  "PostgresSessionStore flt =
     \<lparr>ss_Create = pg_session_Create flt, ss_Get = pg_session_Get flt,
      ss_TouchActive = pg_session_TouchActive flt, ss_Revoke = pg_session_Revoke flt\<rparr>"

text \<open>The database of a store is what becomes of its calls; \<open>None\<close> is a nil one.\<close>

definition NewPostgresSessionStore :: "faults option \<Rightarrow> anon_err + 'z anon_db_scheme SessionStore" where
  "NewPostgresSessionStore database =
     (case database of None \<Rightarrow> Inl (ErrText ''anonymous session database is required'')
      | Some flt \<Rightarrow> Inr (PostgresSessionStore flt))"

record IssuedSession =
  issued_ID :: string
  issued_Token :: string
  issued_ExpiresAt :: instant

record Identity =
  idn_SessionID :: string
  idn_CreatedAt :: instant
  idn_ExpiresAt :: instant

record 'd Manager =
  mgr_store :: "'d SessionStore"
  mgr_pepper :: bytes
  mgr_ttl :: duration

definition anon_NewManager :: "'d SessionStore option \<Rightarrow> bytes \<Rightarrow> duration \<Rightarrow> anon_err + 'd Manager" where
  "anon_NewManager store pepper ttl =
     (case store of
        None \<Rightarrow> Inl (ErrText ''anonymous session store is required'')
      | Some store \<Rightarrow>
          (case validatePepper pepper of
             Some err \<Rightarrow> Inl err
           | None \<Rightarrow>
               if ttl \<le> 0 then Inl (ErrText ''anonymous session TTL must be positive'')
               else Inr \<lparr>mgr_store = store, mgr_pepper = pepper, mgr_ttl = ttl\<rparr>))"

text \<open>
  The clock reading \<open>now\<close> and the bytes of the random source are arguments. Between the two
  store calls of \<open>Authenticate\<close> and of \<open>Revoke\<close> other requests run: their effect on the
  database is the argument \<open>between\<close>.
\<close>

definition anon_Manager_Create ::
    "hmac \<Rightarrow> bytes \<Rightarrow> instant \<Rightarrow> 'd Manager \<Rightarrow> Addr \<Rightarrow> 'd \<Rightarrow> (anon_err + IssuedSession) \<times> 'd" where
  "anon_Manager_Create hmac random now manager clientIP d =
     (case DigestIP hmac (mgr_pepper manager) clientIP of
        Inl err \<Rightarrow> (Inl err, d)
      | Inr ipDigest \<Rightarrow>
     (case generate hmac random (mgr_pepper manager) of
        Inl err \<Rightarrow> (Inl err, d)
      | Inr capability \<Rightarrow>
          let record = \<lparr>sess_ID = cap_SessionID capability, sess_SecretDigest = cap_Digest capability,
                sess_InitialIPDigest = ipDigest, sess_LastIPDigest = ipDigest,
                sess_CreatedAt = now, sess_LastSeenAt = now, sess_ExpiresAt = now + mgr_ttl manager,
                sess_RevokedAt = None\<rparr>
          in case ss_Create (mgr_store manager) record d of
               (Inl err, d) \<Rightarrow> (Inl err, d)
             | (Inr created, d) \<Rightarrow>
                 if sess_ID created \<noteq> sess_ID record
                     \<or> \<not> Matches (sess_SecretDigest created) (sess_SecretDigest record)
                   then (Inl (ErrText ''anonymous session store returned an inconsistent record''), d)
                   else (Inr \<lparr>issued_ID = sess_ID created, issued_Token = cap_Raw capability,
                              issued_ExpiresAt = sess_ExpiresAt created\<rparr>, d)))"

definition anon_Authenticate ::
    "hmac \<Rightarrow> instant \<Rightarrow> ('d \<Rightarrow> 'd) \<Rightarrow> 'd Manager \<Rightarrow> string \<Rightarrow> Addr \<Rightarrow> 'd \<Rightarrow> (anon_err + Identity) \<times> 'd" where
  "anon_Authenticate hmac now between manager raw clientIP d =
     (case Parse hmac raw (mgr_pepper manager) of
        Inl err \<Rightarrow> (Inl (Sentinel ErrInvalidCapability), d)
      | Inr (sessionID, digest) \<Rightarrow>
     (case ss_Get (mgr_store manager) sessionID d of
        (Inl err, d) \<Rightarrow>
          (if err = Sentinel ErrSessionNotFound then (Inl (Sentinel ErrInvalidCapability), d)
           else (Inl err, d))
      | (Inr record, d) \<Rightarrow>
          if \<not> Matches digest (sess_SecretDigest record) then (Inl (Sentinel ErrInvalidCapability), d)
          else if Session_Revoked record then (Inl (Sentinel ErrSessionRevoked), d)
          else if Session_Expired record now then (Inl (Sentinel ErrSessionExpired), d)
          else case DigestIP hmac (mgr_pepper manager) clientIP of
            Inl err \<Rightarrow> (Inl err, d)
          | Inr ipDigest \<Rightarrow>
              (case ss_TouchActive (mgr_store manager) (sess_ID record) ipDigest now (between d) of
                 (Some err, d) \<Rightarrow> (Inl err, d)
               | (None, d) \<Rightarrow>
                   (Inr \<lparr>idn_SessionID = sess_ID record, idn_CreatedAt = sess_CreatedAt record,
                         idn_ExpiresAt = sess_ExpiresAt record\<rparr>, d))))"

definition anon_Revoke ::
    "hmac \<Rightarrow> instant \<Rightarrow> ('d \<Rightarrow> 'd) \<Rightarrow> 'd Manager \<Rightarrow> string \<Rightarrow> 'd \<Rightarrow> anon_sentinel check \<times> 'd" where
  "anon_Revoke hmac now between manager raw d =
     (case Parse hmac raw (mgr_pepper manager) of
        Inl err \<Rightarrow> (Some (Sentinel ErrInvalidCapability), d)
      | Inr (sessionID, digest) \<Rightarrow>
     (case ss_Get (mgr_store manager) sessionID d of
        (Inl err, d) \<Rightarrow>
          (if err = Sentinel ErrSessionNotFound then (Some (Sentinel ErrInvalidCapability), d)
           else (Some err, d))
      | (Inr record, d) \<Rightarrow>
          if \<not> Matches digest (sess_SecretDigest record) then (Some (Sentinel ErrInvalidCapability), d)
          else if Session_Revoked record then (None, d)
          else if Session_Expired record now then (Some (Sentinel ErrSessionExpired), d)
          else ss_Revoke (mgr_store manager) (sess_ID record) now (between d)))"

text \<open>
  What the interface promises: \<open>sessions d\<close> is the table a client can observe through
  \<open>Get\<close>, \<open>good\<close> the store's own invariant. A reported success means that the operation
  took effect exactly once on an active record.
\<close>

locale session_store =
  fixes store :: "'d SessionStore"
    and sessions :: "'d \<Rightarrow> string \<Rightarrow> Session option"
    and good :: "'d \<Rightarrow> bool"
  assumes create_ok: "good d \<Longrightarrow> length (sess_SecretDigest s) = 32 \<Longrightarrow>
      ss_Create store s d = (Inr created, d') \<Longrightarrow>
      sessions d (sess_ID s) = None \<and> sessions d' = (sessions d)(sess_ID s \<mapsto> created) \<and>
      created = s\<lparr>sess_CreatedAt := pg_time (sess_CreatedAt s),
        sess_LastSeenAt := pg_time (sess_LastSeenAt s), sess_ExpiresAt := pg_time (sess_ExpiresAt s)\<rparr>"
    and get_ok: "good d \<Longrightarrow> ss_Get store sid d = (Inr s, d') \<Longrightarrow> d' = d \<and> sessions d sid = Some s"
    and get_missing: "good d \<Longrightarrow> ss_Get store sid d = (Inl (Sentinel ErrSessionNotFound), d') \<Longrightarrow>
      d' = d \<and> sessions d sid = None"
    and touch_ok: "good d \<Longrightarrow> ss_TouchActive store sid ip t d = (None, d') \<Longrightarrow>
      \<exists>s. sessions d sid = Some s \<and> \<not> Session_Revoked s \<and> \<not> Session_Expired s t \<and>
        sessions d' = (sessions d)(sid \<mapsto> s\<lparr>
          sess_LastIPDigest := (if sess_LastSeenAt s \<le> pg_time t then ip else sess_LastIPDigest s),
          sess_LastSeenAt := max (sess_LastSeenAt s) (pg_time t)\<rparr>)"
    and revoke_ok: "good d \<Longrightarrow> ss_Revoke store sid t d = (None, d') \<Longrightarrow>
      \<exists>s. sessions d sid = Some s \<and>
        sessions d' = (sessions d)(sid \<mapsto> s\<lparr>sess_RevokedAt :=
          Some (case sess_RevokedAt s of None \<Rightarrow> pg_time t | Some first \<Rightarrow> first)\<rparr>)"
    and keyed: "good d \<Longrightarrow> sessions d sid = Some s \<Longrightarrow> sess_ID s = sid"
    and create_good: "good d \<Longrightarrow> length (sess_SecretDigest s) = 32 \<Longrightarrow> good (snd (ss_Create store s d))"
    and get_good: "good d \<Longrightarrow> good (snd (ss_Get store sid d))"
    and touch_good: "good d \<Longrightarrow> good (snd (ss_TouchActive store sid ip t d))"
    and revoke_good: "good d \<Longrightarrow> good (snd (ss_Revoke store sid t d))"
begin

lemma authenticate_sound:
  assumes "good d" and "good (between d)" and "mgr_store manager = store"
    and "anon_Authenticate hmac now between manager raw clientIP d = (Inr identity, d')"
  obtains digest s a where "Parse hmac raw (mgr_pepper manager) = Inr (idn_SessionID identity, digest)"
    and "sessions d (idn_SessionID identity) = Some s" and "sess_SecretDigest s = digest"
    and "idn_CreatedAt identity = sess_CreatedAt s" and "idn_ExpiresAt identity = sess_ExpiresAt s"
    and "sessions (between d) (idn_SessionID identity) = Some a"
    and "\<not> Session_Revoked a" and "\<not> Session_Expired a now" and "\<not> Session_Revoked s"
proof -
  from assms(4) obtain digest s d1 ip where
      p: "Parse hmac raw (mgr_pepper manager) = Inr (idn_SessionID identity, digest)"
    and g: "ss_Get store (idn_SessionID identity) d = (Inr s, d1)"
    and m: "sess_SecretDigest s = digest" "\<not> Session_Revoked s"
    and i: "identity = \<lparr>idn_SessionID = sess_ID s, idn_CreatedAt = sess_CreatedAt s,
          idn_ExpiresAt = sess_ExpiresAt s\<rparr>"
    and t: "ss_TouchActive store (sess_ID s) ip now (between d1) = (None, d')"
    using keyed [OF assms(1)] get_ok [OF assms(1)]
    by (fastforce simp: anon_Authenticate_def assms(3) Matches_def split: sum.splits prod.splits
        if_splits option.splits)
  from get_ok [OF assms(1) g] have d1: "d1 = d" and s: "sessions d (idn_SessionID identity) = Some s"
    by auto
  obtain a where "sessions (between d) (idn_SessionID identity) = Some a"
      "\<not> Session_Revoked a" "\<not> Session_Expired a now"
    using touch_ok [OF assms(2) t [unfolded d1]] i by auto
  with p s m i that show ?thesis by simp
qed

lemma create_installs:
  assumes "good d" and "mgr_store manager = store"
    and "anon_Manager_Create hmac random now manager clientIP d = (Inr issued, d')"
  obtains s digest where "sessions d (issued_ID issued) = None"
    and "sessions d' = (sessions d)(issued_ID issued \<mapsto> s)"
    and "Parse hmac (issued_Token issued) (mgr_pepper manager) = Inr (issued_ID issued, digest)"
    and "sess_SecretDigest s = digest" and "sess_RevokedAt s = None"
    and "sess_ExpiresAt s = issued_ExpiresAt issued" and "sess_ID s = issued_ID issued"
    and "issued_ExpiresAt issued = pg_time (now + mgr_ttl manager)"
    and "sess_CreatedAt s = pg_time now" and "good d'"
proof -
  from assms(3) obtain ip cap created where g: "generate hmac random (mgr_pepper manager) = Inr cap"
    and ip: "DigestIP hmac (mgr_pepper manager) clientIP = Inr ip"
    and c: "ss_Create store \<lparr>sess_ID = cap_SessionID cap, sess_SecretDigest = cap_Digest cap,
        sess_InitialIPDigest = ip, sess_LastIPDigest = ip, sess_CreatedAt = now,
        sess_LastSeenAt = now, sess_ExpiresAt = now + mgr_ttl manager, sess_RevokedAt = None\<rparr> d
        = (Inr created, d')"
    and i: "issued = \<lparr>issued_ID = sess_ID created, issued_Token = cap_Raw cap,
        issued_ExpiresAt = sess_ExpiresAt created\<rparr>"
    by (auto simp: anon_Manager_Create_def assms(2) Let_def split: sum.splits prod.splits if_splits)
  note p = Parse_generate [OF g] and l = generate_digest_length [OF g]
  from create_ok [OF assms(1) _ c] create_good [OF assms(1)] l c that p i show ?thesis
    by (metis (no_types, lifting) Session.select_convs Session.simps IssuedSession.select_convs snd_conv)
qed

end

context session_store begin

lemma revoke_marks:
  assumes "good d" and "good (between d)" and "mgr_store manager = store"
    and "anon_Revoke hmac now between manager raw d = (None, d')"
  obtains sid s0 s where "Parse hmac raw (mgr_pepper manager) = Inr (sid, sess_SecretDigest s0)"
    and "sessions d sid = Some s0" and "sessions d' sid = Some s" and "Session_Revoked s" and "good d'"
    and "s = s0 \<or> (\<exists>a. sessions (between d) sid = Some a \<and> sess_SecretDigest s = sess_SecretDigest a)"
proof -
  from assms(4) obtain sid digest s d1 where p: "Parse hmac raw (mgr_pepper manager) = Inr (sid, digest)"
    and g: "ss_Get store sid d = (Inr s, d1)" and m: "sess_SecretDigest s = digest"
    and r: "(Session_Revoked s \<and> d' = d1) \<or> ss_Revoke store (sess_ID s) now (between d1) = (None, d')"
    by (auto simp: anon_Revoke_def assms(3) Matches_def split: sum.splits prod.splits if_splits)
  from get_ok [OF assms(1) g] have d1: "d1 = d" and s: "sessions d sid = Some s" by auto
  from r show thesis
  proof
    assume "Session_Revoked s \<and> d' = d1"
    with p s m d1 that assms(1) show thesis by blast
  next
    assume r: "ss_Revoke store (sess_ID s) now (between d1) = (None, d')"
    have "good d'"
      using revoke_good [OF assms(2), of "sess_ID s" now] r d1 by simp
    moreover from r revoke_ok [OF assms(2)] keyed [OF assms(1) s] d1 obtain a s' where
      "sessions (between d) sid = Some a" "sessions d' sid = Some s'" "Session_Revoked s'" "sess_SecretDigest s' = sess_SecretDigest a"
      by (fastforce simp: Session_Revoked_def)
    ultimately show thesis using p s m that by blast
  qed
qed

lemma revoked_cannot_authenticate:
  assumes "good d" and "mgr_store manager = store"
    and "Parse hmac raw (mgr_pepper manager) = Inr (sid, digest)"
    and "sessions d sid = Some s" and "Session_Revoked s"
  shows "fst (anon_Authenticate hmac now between manager raw clientIP d) \<noteq> Inr identity"
  using assms get_ok [OF assms(1), of sid]
  by (auto simp: anon_Authenticate_def split: sum.split prod.split)

end

subsection \<open>The PostgreSQL store implements the interface\<close>

definition session_of :: "session_row \<Rightarrow> Session" where
  "session_of r =
     \<lparr>sess_ID = as_id r, sess_SecretDigest = as_secret_hash r,
      sess_InitialIPDigest = as_initial_ip_hash r, sess_LastIPDigest = as_last_ip_hash r,
      sess_CreatedAt = as_created_at r, sess_LastSeenAt = as_last_seen_at r,
      sess_ExpiresAt = as_expires_at r, sess_RevokedAt = as_revoked_at r\<rparr>"

definition session_row_good :: "session_row \<Rightarrow> bool" where
  "session_row_good r \<longleftrightarrow> session_row_check r \<and> validUUID (as_id r) \<and> pg_aligned (as_expires_at r)"

definition sessions_good :: "'z anon_db_scheme \<Rightarrow> bool" where
  "sessions_good d \<longleftrightarrow> distinct (map as_id (anonymous_session d)) \<and>
     distinct (map as_secret_hash (anonymous_session d)) \<and>
     (\<forall>r \<in> set (anonymous_session d). session_row_good r)"

definition stored_sessions :: "'z anon_db_scheme \<Rightarrow> string \<Rightarrow> Session option" where
  "stored_sessions d sid = map_option session_of (find (\<lambda>r. as_id r = sid) (anonymous_session d))"

lemma anon_scan_checked: "session_row_check r \<Longrightarrow> anon_scanSession r = Inr (session_of r)"
  by (simp add: anon_scanSession_def copyDigest_def session_row_check_def session_of_def)

lemma sessions_good_row: "sessions_good d \<Longrightarrow> r \<in> set (anonymous_session d) \<Longrightarrow> session_row_good r"
  by (simp add: sessions_good_def)

lemma session_checked_update_good:
  assumes "sessions_good d"
    and "\<And>r. as_id (f r) = as_id r" and "\<And>r. as_secret_hash (f r) = as_secret_hash r"
    and "\<And>r. as_expires_at (f r) = as_expires_at r"
    and "sql_checked_update session_row_check P f (anonymous_session d) = Some rows"
  shows "sessions_good (d\<lparr>anonymous_session := rows\<rparr>)"
    and "stored_sessions (d\<lparr>anonymous_session := rows\<rparr>) sid =
      map_option (\<lambda>r. session_of (if P r then f r else r))
        (find (\<lambda>r. as_id r = sid) (anonymous_session d))"
proof -
  from assms(5) have rows: "rows = sql_update P f (anonymous_session d)"
    and ok: "list_all (\<lambda>r. P r \<longrightarrow> session_row_check (f r)) (anonymous_session d)"
    by (auto simp: sql_checked_update_def split: if_splits)
  have "session_row_good (if P r then f r else r)" if "r \<in> set (anonymous_session d)" for r
    using that ok sessions_good_row [OF assms(1) that] assms(2,4)
    by (auto simp: session_row_good_def list_all_iff)
  then show "sessions_good (d\<lparr>anonymous_session := rows\<rparr>)"
    using assms(1,2,3) by (auto simp: rows sessions_good_def table_simps)
  show "stored_sessions (d\<lparr>anonymous_session := rows\<rparr>) sid =
      map_option (\<lambda>r. session_of (if P r then f r else r))
        (find (\<lambda>r. as_id r = sid) (anonymous_session d))"
    by (simp add: stored_sessions_def rows find_sql_update [where key = as_id, OF assms(2)]
        option.map_comp o_def)
qed

lemma session_update_lookup:
  assumes good: "sessions_good d" and keep: "\<And>r. as_id (f r) = as_id r"
    and rows: "sql_checked_update session_row_check P f (anonymous_session d) = Some rows"
    and r: "r \<in> set (anonymous_session d)" "P r"
    and only: "\<And>q. P q \<Longrightarrow> as_id q = sid"
  shows "stored_sessions d sid = Some (session_of r)"
    and "stored_sessions (d\<lparr>anonymous_session := rows\<rparr>) = (stored_sessions d)(sid \<mapsto> session_of (f r))"
proof -
  have u: "rows = sql_update P f (anonymous_session d)"
    using rows by (auto simp: sql_checked_update_def split: if_splits)
  have f: "find (\<lambda>q. as_id q = sid) (anonymous_session d) = Some r"
    using find_distinct_key [of as_id, OF _ r(1)] good only [OF r(2)] by (simp add: sessions_good_def)
  then show "stored_sessions d sid = Some (session_of r)"
    by (simp add: stored_sessions_def)
  have "map_option (\<lambda>q. session_of (if P q then f q else q)) (find (\<lambda>q. as_id q = k) (anonymous_session d))
      = map_option session_of (find (\<lambda>q. as_id q = k) (anonymous_session d))" if "k \<noteq> sid" for k
    using that only by (cases "find (\<lambda>q. as_id q = k) (anonymous_session d)") (auto dest!: find_Some_in)
  with f r(2) show "stored_sessions (d\<lparr>anonymous_session := rows\<rparr>) = (stored_sessions d)(sid \<mapsto> session_of (f r))"
    by (auto simp: fun_eq_iff stored_sessions_def u find_sql_update [where key = as_id, OF keep]
        option.map_comp o_def)
qed

lemma touch_set_keys [simp]:
  "as_id (touch_set ip t r) = as_id r" "as_secret_hash (touch_set ip t r) = as_secret_hash r"
  "as_expires_at (touch_set ip t r) = as_expires_at r" "as_revoked_at (touch_set ip t r) = as_revoked_at r"
  by (simp_all add: touch_set_def)

lemma revoke_set_keys [simp]:
  "as_id (revoke_set t r) = as_id r" "as_secret_hash (revoke_set t r) = as_secret_hash r"
  "as_expires_at (revoke_set t r) = as_expires_at r"
  by (simp_all add: revoke_set_def)

lemma pg_create_ok:
  assumes "sessions_good d" and "pg_session_Create flt s d = (Inr created, d')"
  shows "anon_validateSessionForCreate s = None" and "session_row_check (insert_session_row s)"
    and "d' = d\<lparr>anonymous_session := anonymous_session d @ [insert_session_row s]\<rparr>"
    and "created = session_of (insert_session_row s)"
    and "\<forall>r \<in> set (anonymous_session d). as_id r \<noteq> sess_ID s \<and> as_secret_hash r \<noteq> sess_SecretDigest s"
  using assms(2)
  by (auto simp: pg_session_Create_def Let_def anon_scan_checked finish_Inr_iff list_ex_iff
      insert_session_row_def split: option.splits if_splits)

lemma pg_create_good:
  assumes "sessions_good d"
  shows "sessions_good (snd (pg_session_Create flt s d))"
proof -
  let ?row = "insert_session_row s"
  let ?d = "d\<lparr>anonymous_session := anonymous_session d @ [?row]\<rparr>"
  show ?thesis
  proof (cases "snd (pg_session_Create flt s d) = d")
    case False
    then have "anon_validateSessionForCreate s = None" and chk: "session_row_check ?row"
      and new: "\<not> list_ex (\<lambda>r. as_id r = as_id ?row \<or> as_secret_hash r = as_secret_hash ?row)
        (anonymous_session d)"
      and d: "snd (pg_session_Create flt s d) = ?d"
      by (auto simp: pg_session_Create_def Let_def finish_def split: option.splits if_splits dbcall.splits)
    then have "validUUID (sess_ID s)"
      by (auto simp: anon_validateSessionForCreate_def split: if_splits)
    with chk have "session_row_good ?row"
      by (simp add: session_row_good_def insert_session_row_def)
    with assms new show ?thesis
      unfolding d by (auto simp: sessions_good_def list_ex_iff)
  qed (use assms in simp)
qed

lemma pg_get_ok:
  assumes "sessions_good d" and "pg_session_Get flt sid d = (Inr s, d')"
  shows "d' = d \<and> stored_sessions d sid = Some s"
  using assms(2) sessions_good_row [OF assms(1)]
  by (auto simp: pg_session_Get_def Let_def finish_Inr_iff stored_sessions_def anon_scan_checked
      session_row_good_def split: if_splits option.splits dest!: find_Some_in)

lemma pg_get_missing:
  assumes "sessions_good d" and "pg_session_Get flt sid d = (Inl (Sentinel ErrSessionNotFound), d')"
  shows "d' = d \<and> stored_sessions d sid = None"
proof (cases "validUUID sid")
  case True
  with assms show ?thesis
    by (auto simp: pg_session_Get_def Let_def finish_def stored_sessions_def anon_scan_checked
      split: option.splits dbcall.splits sum.splits)
next
  case False
  then have "find (\<lambda>r. as_id r = sid) (anonymous_session d) = None"
    using sessions_good_row [OF assms(1)] unfolding find_None_iff_in
    by (auto simp: session_row_good_def)
  with False assms(2) show ?thesis
    by (simp add: pg_session_Get_def stored_sessions_def)
qed

lemma pg_touch_ok:
  assumes good: "sessions_good d" and ok: "pg_session_TouchActive flt sid ip t d = (None, d')"
  shows "\<exists>s. stored_sessions d sid = Some s \<and> \<not> Session_Revoked s \<and> \<not> Session_Expired s t \<and>
        stored_sessions d' = (stored_sessions d)(sid \<mapsto> s\<lparr>
          sess_LastIPDigest := (if sess_LastSeenAt s \<le> pg_time t then ip else sess_LastIPDigest s),
          sess_LastSeenAt := max (sess_LastSeenAt s) (pg_time t)\<rparr>)"
proof -
  from ok obtain rows where rows: "sql_checked_update session_row_check (touch_matches sid (pg_time t))
        (touch_set ip (pg_time t)) (anonymous_session d) = Some rows"
    and d': "d' = d\<lparr>anonymous_session := rows\<rparr>"
    and "list_ex (touch_matches sid (pg_time t)) (anonymous_session d)"
    by (auto simp: pg_session_TouchActive_def Let_def finish_None_iff split: if_splits option.splits)
  then obtain r where r: "r \<in> set (anonymous_session d)" "touch_matches sid (pg_time t) r"
    by (auto simp: list_ex_iff)
  have al: "pg_aligned (as_expires_at r)"
    using sessions_good_row [OF good r(1)] by (simp add: session_row_good_def)
  have only: "touch_matches sid (pg_time t) q \<Longrightarrow> as_id q = sid" for q
    by (simp add: touch_matches_def)
  from session_update_lookup [OF good _ rows r only] r(2) show ?thesis
    by (auto simp: d' touch_matches_def Session_Revoked_def Session_Expired_def
        session_of_def touch_set_def pg_time_less_iff [OF al])
qed

lemma pg_revoke_ok:
  assumes good: "sessions_good d" and ok: "pg_session_Revoke flt sid t d = (None, d')"
  shows "\<exists>s. stored_sessions d sid = Some s \<and>
        stored_sessions d' = (stored_sessions d)(sid \<mapsto> s\<lparr>sess_RevokedAt :=
          Some (case sess_RevokedAt s of None \<Rightarrow> pg_time t | Some first \<Rightarrow> first)\<rparr>)"
proof -
  from ok obtain rows where rows: "sql_checked_update session_row_check (\<lambda>r. as_id r = sid)
        (revoke_set (pg_time t)) (anonymous_session d) = Some rows"
    and d': "d' = d\<lparr>anonymous_session := rows\<rparr>"
    and "list_ex (\<lambda>r. as_id r = sid) (anonymous_session d)"
    by (auto simp: pg_session_Revoke_def Let_def finish_None_iff split: if_splits option.splits)
  then obtain r where r: "r \<in> set (anonymous_session d)" and key: "as_id r = sid"
    by (auto simp: list_ex_iff)
  from session_update_lookup [OF good _ rows r key] show ?thesis
    by (auto simp: d' session_of_def revoke_set_def)
qed

lemma pg_touch_good: "sessions_good d \<Longrightarrow> sessions_good (snd (pg_session_TouchActive flt sid ip t d))"
  using session_checked_update_good(1) [of d "touch_set ip (pg_time t)" "touch_matches sid (pg_time t)"]
  by (auto simp: pg_session_TouchActive_def Let_def finish_def split: option.split dbcall.split)

lemma pg_revoke_good: "sessions_good d \<Longrightarrow> sessions_good (snd (pg_session_Revoke flt sid t d))"
  using session_checked_update_good(1) [of d "revoke_set (pg_time t)" "\<lambda>r. as_id r = sid"]
  by (auto simp: pg_session_Revoke_def Let_def finish_def split: option.split dbcall.split)

lemma pg_get_state [simp]: "snd (pg_session_Get flt sid d) = d"
  by (simp add: pg_session_Get_def Let_def)

lemma stored_sessions_append:
  assumes "\<forall>r \<in> set (anonymous_session d). as_id r \<noteq> as_id row"
  shows "stored_sessions (d\<lparr>anonymous_session := anonymous_session d @ [row]\<rparr>) =
    (stored_sessions d)(as_id row \<mapsto> session_of row) \<and> stored_sessions d (as_id row) = None"
  using assms
  by (auto simp: stored_sessions_def find_key_append find_None_iff_in fun_eq_iff split: option.split
      dest: find_Some_in)

interpretation pg_sessions: session_store "PostgresSessionStore flt" stored_sessions sessions_good
  for flt :: faults
proof unfold_locales
  fix d d' :: "'z anon_db_scheme" and s created
  assume good: "sessions_good d" and c: "ss_Create (PostgresSessionStore flt) s d = (Inr created, d')"
  then have c: "pg_session_Create flt s d = (Inr created, d')" by (simp add: PostgresSessionStore_def)
  show "stored_sessions d (sess_ID s) = None \<and> stored_sessions d' = (stored_sessions d)(sess_ID s \<mapsto> created) \<and>
      created = s\<lparr>sess_CreatedAt := pg_time (sess_CreatedAt s),
        sess_LastSeenAt := pg_time (sess_LastSeenAt s), sess_ExpiresAt := pg_time (sess_ExpiresAt s)\<rparr>"
    using pg_create_ok [OF good c] stored_sessions_append [of d "insert_session_row s"]
    by (cases s) (auto simp: insert_session_row_def session_of_def anon_validateSessionForCreate_def
        split: if_splits)
next
  fix d :: "'z anon_db_scheme" and sid s
  assume "stored_sessions d sid = Some s"
  then show "sess_ID s = sid"
    by (auto simp: stored_sessions_def session_of_def dest!: find_Some_in)
qed (simp_all only: PostgresSessionStore_def SessionStore.select_convs pg_create_good pg_touch_good
    pg_revoke_good pg_get_state, (erule (1) pg_get_ok pg_get_missing pg_touch_ok pg_revoke_ok)+)

subsection \<open>A responsive store\<close>

text \<open>
  The part of the contract that holds while the database answers: a stored session can be
  read, and an active one can be touched.
\<close>

locale responsive_session_store = session_store +
  assumes get_live: "good d \<Longrightarrow> validUUID sid \<Longrightarrow> sessions d sid = Some s \<Longrightarrow>
      ss_Get store sid d = (Inr s, d)"
    and touch_live: "good d \<Longrightarrow> validUUID sid \<Longrightarrow> sessions d sid = Some s \<Longrightarrow>
      \<not> Session_Revoked s \<Longrightarrow> \<not> Session_Expired s t \<Longrightarrow> \<not> IsZero t \<Longrightarrow> length ip = 32 \<Longrightarrow>
      \<exists>d'. ss_TouchActive store sid ip t d = (None, d')"
begin

lemma authenticate_answer:
  assumes good: "good d" and store: "mgr_store manager = store"
    and p: "Parse hmac raw (mgr_pepper manager) = Inr (sid, sess_SecretDigest s)"
    and s: "sessions d sid = Some s"
  shows "Session_Revoked s \<Longrightarrow> anon_Authenticate hmac now between manager raw clientIP d = (Inl (Sentinel ErrSessionRevoked), d)"
    and "\<lbrakk>\<not> Session_Revoked s; Session_Expired s now\<rbrakk> \<Longrightarrow>
      anon_Authenticate hmac now between manager raw clientIP d = (Inl (Sentinel ErrSessionExpired), d)"
    and "\<lbrakk>\<not> Session_Revoked s; \<not> Session_Expired s now; good (between d); sessions (between d) sid = Some a;
        \<not> Session_Revoked a; \<not> Session_Expired a now; \<not> IsZero now; DigestIP hmac (mgr_pepper manager) clientIP = Inr ip\<rbrakk> \<Longrightarrow>
      anon_Authenticate hmac now between manager raw clientIP d =
        (Inr \<lparr>idn_SessionID = sid, idn_CreatedAt = sess_CreatedAt s, idn_ExpiresAt = sess_ExpiresAt s\<rparr>,
         snd (ss_TouchActive store sid ip now (between d)))"
proof -
  have v: "validUUID sid" using p by (simp add: Parse_Inr_iff)
  note g = get_live [OF good v s] and k = keyed [OF good s]
  show "anon_Authenticate hmac now between manager raw clientIP d = (Inl (Sentinel ErrSessionRevoked), d)"
    if "Session_Revoked s"
    using that p g by (simp add: anon_Authenticate_def store Matches_def)
  show "anon_Authenticate hmac now between manager raw clientIP d = (Inl (Sentinel ErrSessionExpired), d)"
    if "\<not> Session_Revoked s" "Session_Expired s now"
    using that p g by (simp add: anon_Authenticate_def store Matches_def)
  assume active: "\<not> Session_Revoked s" "\<not> Session_Expired s now"
    and a: "good (between d)" "sessions (between d) sid = Some a" "\<not> Session_Revoked a" "\<not> Session_Expired a now"
      "\<not> IsZero now" and ip: "DigestIP hmac (mgr_pepper manager) clientIP = Inr ip"
  obtain d2 where "ss_TouchActive store sid ip now (between d) = (None, d2)"
    using touch_live [OF a(1) v a(2-5) length_DigestIP [OF ip]] by blast
  then show "anon_Authenticate hmac now between manager raw clientIP d =
      (Inr \<lparr>idn_SessionID = sid, idn_CreatedAt = sess_CreatedAt s, idn_ExpiresAt = sess_ExpiresAt s\<rparr>,
       snd (ss_TouchActive store sid ip now (between d)))"
    using p g k active ip by (simp add: anon_Authenticate_def store Matches_def)
qed

end

lemma pg_get_live:
  assumes "sessions_good d" "validUUID sid" "stored_sessions d sid = Some s"
  shows "pg_session_Get (\<lambda>_. Call_Ok) sid d = (Inr s, d)"
proof -
  obtain r where r: "find (\<lambda>r. as_id r = sid) (anonymous_session d) = Some r" "s = session_of r"
    using assms(3) by (auto simp: stored_sessions_def)
  then have "session_row_check r"
    using sessions_good_row [OF assms(1)] find_Some_in [OF r(1)] by (auto simp: session_row_good_def)
  with r assms(2) show ?thesis
    by (simp add: pg_session_Get_def anon_scan_checked)
qed

lemma pg_touch_live:
  assumes good: "sessions_good d" and "validUUID sid" and s: "stored_sessions d sid = Some s"
    and "\<not> Session_Revoked s" "\<not> Session_Expired s t" "\<not> IsZero t" "length ip = 32"
  shows "\<exists>d'. pg_session_TouchActive (\<lambda>_. Call_Ok) sid ip t d = (None, d')"
proof -
  obtain r where r: "find (\<lambda>r. as_id r = sid) (anonymous_session d) = Some r" "s = session_of r"
    using s by (auto simp: stored_sessions_def)
  note in_d = find_Some_in [OF r(1)]
  have al: "pg_aligned (as_expires_at r)"
    using sessions_good_row [OF good] in_d by (auto simp: session_row_good_def)
  have "touch_matches sid (pg_time t) r"
    using assms(4,5) in_d
    by (auto simp: touch_matches_def r(2) session_of_def Session_Revoked_def Session_Expired_def
        pg_time_less_iff [OF al])
  then have ex: "list_ex (touch_matches sid (pg_time t)) (anonymous_session d)"
    using in_d by (auto simp: list_ex_iff)
  have "list_all (\<lambda>r. touch_matches sid (pg_time t) r \<longrightarrow> session_row_check (touch_set ip (pg_time t) r))
      (anonymous_session d)"
    using sessions_good_row [OF good] assms(7)
    by (auto simp: list_all_iff session_row_good_def session_row_check_def touch_set_def)
  with ex assms(2,6) show ?thesis
    by (simp add: pg_session_TouchActive_def sql_checked_update_def)
qed

interpretation pg_responsive: responsive_session_store
    "PostgresSessionStore (\<lambda>_. Call_Ok)" stored_sessions sessions_good
  by unfold_locales (simp_all add: PostgresSessionStore_def pg_get_live pg_touch_live)

end
