(* ===== verification/Anon_Quota.thy ===== *)
theory Anon_Quota
  imports Anon_Session
begin

text \<open>
  Fixed-window quotas of anonymous traffic: \<open>internal/anonymous/quota.go\<close> (limits,
  windows, the \<open>QuotaStore\<close> interface and the \<open>QuotaManager\<close>) and
  \<open>internal/anonymous/storage_quota_postgres.go\<close> (the transactions on the two counter
  tables). The interface is the locale \<open>quota_store\<close>.
\<close>

subsection \<open>Limits, windows and counters\<close>

record QuotaLimits =
  lim_Window :: duration
  lim_SessionsPerIP :: int
  lim_UploadsPerSession :: int
  lim_UploadsPerIP :: int
  lim_JobsPerSession :: int
  lim_JobsPerIP :: int
  lim_BytesPerSession :: int
  lim_BytesPerIP :: int

definition count_problem :: "string \<Rightarrow> int \<Rightarrow> string list" where
  "count_problem name v =
     (if v \<le> 0 \<or> v > MaxInt32 then [''anonymous quota '' @ name @ '' must be between 1 and %d''] else [])"

definition QuotaLimits_Validate :: "QuotaLimits \<Rightarrow> 's check" where
  "QuotaLimits_Validate limits =
     errors_Join
       ((if lim_Window limits < Minute \<or> lim_Window limits smod Second \<noteq> 0
           then [''anonymous quota window must be at least one minute and use whole seconds''] else []) @
        concat (map (\<lambda>(name, v). count_problem name v)
          [(''sessions per IP'', lim_SessionsPerIP limits),
           (''uploads per session'', lim_UploadsPerSession limits),
           (''uploads per IP'', lim_UploadsPerIP limits),
           (''jobs per session'', lim_JobsPerSession limits),
           (''jobs per IP'', lim_JobsPerIP limits)]) @
        (if lim_BytesPerSession limits \<le> 0
           then [''anonymous quota bytes per session must be positive''] else []) @
        (if lim_BytesPerIP limits \<le> 0
           then [''anonymous quota bytes per IP must be positive''] else []))"

text \<open>
  The window's instants carry their location, which \<open>validate\<close> inspects: \<open>time.UTC\<close> or
  any other. \<open>Truncate\<close> and \<open>Add\<close> keep it.
\<close>

datatype location = UTC | OtherLocation string

datatype gotime = GoTime (time_instant: instant) (time_location: location)

definition time_Truncate :: "gotime \<Rightarrow> duration \<Rightarrow> gotime" where
  "time_Truncate t d = GoTime (Truncate (time_instant t) d) (time_location t)"

definition time_Add :: "gotime \<Rightarrow> duration \<Rightarrow> gotime" where
  "time_Add t d = GoTime (time_instant t + d) (time_location t)"

record QuotaWindow =
  win_StartedAt :: gotime
  win_EndsAt :: gotime

record Usage =
  SessionsCreated :: int
  UploadsStarted :: int
  JobsCreated :: int
  BytesCommitted :: int

record UsageDelta =
  delta_UploadsStarted :: int
  delta_JobsCreated :: int
  delta_BytesCommitted :: int

record QuotaDecision =
  dec_Window :: QuotaWindow
  dec_Session :: Usage
  dec_IP :: Usage

record QuotaRequest =
  qr_SessionID :: string
  qr_IPDigest :: bytes
  qr_Window :: QuotaWindow
  qr_ObservedAt :: instant
  qr_Delta :: UsageDelta
  qr_Limits :: QuotaLimits

definition quota_window :: "QuotaLimits \<Rightarrow> gotime \<Rightarrow> QuotaWindow" where
  "quota_window limits at =
     (let start = time_Truncate at (lim_Window limits)
      in \<lparr>win_StartedAt = start, win_EndsAt = time_Add start (lim_Window limits)\<rparr>)"

definition UsageDelta_validate :: "UsageDelta \<Rightarrow> 's check" where
  "UsageDelta_validate delta =
     (if delta_UploadsStarted delta < 0 \<or> delta_JobsCreated delta < 0 \<or> delta_BytesCommitted delta < 0
        then Some (ErrText ''anonymous quota deltas must not be negative'')
      else if delta_UploadsStarted delta = 0 \<and> delta_JobsCreated delta = 0 \<and> delta_BytesCommitted delta = 0
        then Some (ErrText ''anonymous quota delta must consume at least one counter'')
      else if delta_UploadsStarted delta > MaxInt32 \<or> delta_JobsCreated delta > MaxInt32
        then Some (ErrText ''anonymous quota count delta exceeds PostgreSQL integer range'')
      else None)"

definition QuotaWindow_validate :: "QuotaWindow \<Rightarrow> duration \<Rightarrow> instant \<Rightarrow> 's check" where
  "QuotaWindow_validate window expectedDuration observedAt =
     (let start = time_instant (win_StartedAt window); end = time_instant (win_EndsAt window) in
      if IsZero start \<or> IsZero end \<or> end \<noteq> start + expectedDuration
        then Some (ErrText ''anonymous quota window does not match configured duration'')
      else if time_location (win_StartedAt window) \<noteq> UTC \<or> time_location (win_EndsAt window) \<noteq> UTC
        then Some (ErrText ''anonymous quota window must use UTC'')
      else if observedAt < start \<or> \<not> observedAt < end
        then Some (ErrText ''anonymous quota observation is outside its window'')
      else None)"

definition validateCreationQuota :: "QuotaWindow \<Rightarrow> int \<Rightarrow> 's check" where
  "validateCreationQuota window limit =
     (let start = time_instant (win_StartedAt window); end = time_instant (win_EndsAt window) in
      if IsZero start \<or> IsZero end \<or> \<not> start < end
        then Some (ErrText ''anonymous quota window is invalid'')
      else if time_location (win_StartedAt window) \<noteq> UTC \<or> time_location (win_EndsAt window) \<noteq> UTC
        then Some (ErrText ''anonymous quota window must use UTC'')
      else if limit \<le> 0 \<or> limit > MaxInt32
        then Some (ErrText ''anonymous session creation quota must be between 1 and %d'')
      else None)"

definition validateQuotaRequest :: "QuotaRequest \<Rightarrow> 's check" where
  "validateQuotaRequest request =
     (if \<not> validUUID (qr_SessionID request)
        then Some (ErrText ''anonymous quota session ID must be a UUID'')
      else case QuotaLimits_Validate (qr_Limits request) of
        Some err \<Rightarrow> Some err
      | None \<Rightarrow>
          (case QuotaWindow_validate (qr_Window request) (lim_Window (qr_Limits request))
             (qr_ObservedAt request) of
             Some err \<Rightarrow> Some err
           | None \<Rightarrow> UsageDelta_validate (qr_Delta request)))"

text \<open>The comparison that decides a quota, with the subtraction at 64 bits.\<close>

definition exceeds :: "int \<Rightarrow> int \<Rightarrow> int \<Rightarrow> bool" where
  "exceeds current delta limit \<longleftrightarrow>
     (if current < 0 \<or> delta < 0 \<or> limit < 0 then True
      else current > limit \<or> delta > int64 (limit - current))"

definition quotaExceeded :: "QuotaScope \<Rightarrow> QuotaMetric \<Rightarrow> int \<Rightarrow> gotime \<Rightarrow> anon_err" where
  "quotaExceeded scope metric limit retryAt =
     Sentinel (QuotaExceededError scope metric limit (time_instant retryAt))"

definition scoped_limits :: "QuotaScope \<Rightarrow> QuotaLimits \<Rightarrow> int \<times> int \<times> int" where
  "scoped_limits scope limits =
     (if scope = QuotaScopeIP
        then (lim_UploadsPerIP limits, lim_JobsPerIP limits, lim_BytesPerIP limits)
        else (lim_UploadsPerSession limits, lim_JobsPerSession limits, lim_BytesPerSession limits))"

definition checkScopedLimits ::
    "QuotaScope \<Rightarrow> Usage \<Rightarrow> UsageDelta \<Rightarrow> QuotaLimits \<Rightarrow> gotime \<Rightarrow> anon_sentinel check" where
  "checkScopedLimits scope usage delta limits retryAt =
     (case scoped_limits scope limits of (uploadLimit, jobLimit, byteLimit) \<Rightarrow>
        if exceeds (UploadsStarted usage) (delta_UploadsStarted delta) uploadLimit
          then Some (quotaExceeded scope QuotaMetricUploads uploadLimit retryAt)
        else if exceeds (JobsCreated usage) (delta_JobsCreated delta) jobLimit
          then Some (quotaExceeded scope QuotaMetricJobs jobLimit retryAt)
        else if exceeds (BytesCommitted usage) (delta_BytesCommitted delta) byteLimit
          then Some (quotaExceeded scope QuotaMetricBytes byteLimit retryAt)
        else None)"

definition applyDelta :: "Usage \<Rightarrow> UsageDelta \<Rightarrow> Usage" where
  "applyDelta usage delta = usage
     \<lparr>UploadsStarted := int64 (UploadsStarted usage + delta_UploadsStarted delta),
      JobsCreated := int64 (JobsCreated usage + delta_JobsCreated delta),
      BytesCommitted := int64 (BytesCommitted usage + delta_BytesCommitted delta)\<rparr>"

subsection \<open>The counter tables\<close>

record usage_row =
  au_session_id :: string
  au_ip_hash :: bytes
  au_window_started_at :: instant
  au_uploads_started :: int
  au_jobs_created :: int
  au_bytes_committed :: int

record ip_usage_row =
  aip_ip_hash :: bytes
  aip_window_started_at :: instant
  aip_sessions_created :: int
  aip_uploads_started :: int
  aip_jobs_created :: int
  aip_bytes_committed :: int

record quota_db = anon_db +
  anonymous_usage :: "usage_row list"
  anonymous_ip_usage :: "ip_usage_row list"

text \<open>
  \<open>CHECK\<close> constraints and column ranges: two \<open>integer\<close> counters per session row, the other
  counters are \<open>bigint\<close>.
\<close>

definition usage_row_check :: "usage_row \<Rightarrow> bool" where
  "usage_row_check r \<longleftrightarrow> length (au_ip_hash r) = 32 \<and>
     0 \<le> au_uploads_started r \<and> au_uploads_started r \<le> MaxInt32 \<and>
     0 \<le> au_jobs_created r \<and> au_jobs_created r \<le> MaxInt32 \<and>
     0 \<le> au_bytes_committed r \<and> au_bytes_committed r \<le> MaxInt64"

definition ip_usage_row_check :: "ip_usage_row \<Rightarrow> bool" where
  "ip_usage_row_check r \<longleftrightarrow> length (aip_ip_hash r) = 32 \<and>
     0 \<le> aip_sessions_created r \<and> aip_sessions_created r \<le> MaxInt64 \<and>
     0 \<le> aip_uploads_started r \<and> aip_uploads_started r \<le> MaxInt64 \<and>
     0 \<le> aip_jobs_created r \<and> aip_jobs_created r \<le> MaxInt64 \<and>
     0 \<le> aip_bytes_committed r \<and> aip_bytes_committed r \<le> MaxInt64"

abbreviation ip_key :: "bytes \<Rightarrow> instant \<Rightarrow> ip_usage_row \<Rightarrow> bool" where
  "ip_key ip w r \<equiv> aip_ip_hash r = ip \<and> aip_window_started_at r = w"

abbreviation usage_key :: "string \<Rightarrow> bytes \<Rightarrow> instant \<Rightarrow> usage_row \<Rightarrow> bool" where
  "usage_key sid ip w r \<equiv> au_session_id r = sid \<and> au_ip_hash r = ip \<and> au_window_started_at r = w"

text \<open>
  The statements of the two transactions, each on the transaction's own view of the tables.
\<close>

definition ensureIPUsage ::
    "faults \<Rightarrow> bytes \<Rightarrow> instant \<Rightarrow> 'z quota_db_scheme \<Rightarrow> anon_err + 'z quota_db_scheme" where
  "ensureIPUsage flt ip w d =
     (let row = \<lparr>aip_ip_hash = ip, aip_window_started_at = w, aip_sessions_created = 0,
            aip_uploads_started = 0, aip_jobs_created = 0, aip_bytes_committed = 0\<rparr>
      in if stmt_fails flt ''initialize IP counters'' \<or> \<not> ip_usage_row_check row
           then Inl (StorageError ''initialize IP counters'')
         else if list_ex (ip_key ip w) (anonymous_ip_usage d) then Inr d
         else Inr (d\<lparr>anonymous_ip_usage := anonymous_ip_usage d @ [row]\<rparr>))"

definition usage_of_ip_row :: "ip_usage_row \<Rightarrow> Usage" where
  "usage_of_ip_row r =
     \<lparr>SessionsCreated = aip_sessions_created r, UploadsStarted = aip_uploads_started r,
      JobsCreated = aip_jobs_created r, BytesCommitted = aip_bytes_committed r\<rparr>"

definition readIPUsageForUpdate ::
    "faults \<Rightarrow> bytes \<Rightarrow> instant \<Rightarrow> 'z quota_db_scheme \<Rightarrow> anon_err + Usage" where
  "readIPUsageForUpdate flt ip w d =
     (if stmt_fails flt ''lock IP counters'' then Inl (StorageError ''lock IP counters'')
      else case find (ip_key ip w) (anonymous_ip_usage d) of
        None \<Rightarrow> Inl (StorageError ''lock IP counters'')
      | Some row \<Rightarrow> Inr (usage_of_ip_row row))"

definition lockActiveSession ::
    "faults \<Rightarrow> string \<Rightarrow> instant \<Rightarrow> 'z anon_db_scheme \<Rightarrow> anon_sentinel check" where
  "lockActiveSession flt sid at d =
     (if stmt_fails flt ''lock active session'' then Some (StorageError ''lock active session'')
      else if list_ex (touch_matches sid at) (anonymous_session d) then None
      else Some (Sentinel ErrSessionInactive))"

definition session_sums :: "string \<Rightarrow> instant \<Rightarrow> 'z quota_db_scheme \<Rightarrow> Usage" where
  "session_sums sid w d =
     (let total = (\<lambda>column. sum_rows (\<lambda>r. au_session_id r = sid \<and> au_window_started_at r = w) column
            (anonymous_usage d))
      in \<lparr>SessionsCreated = 0, UploadsStarted = total au_uploads_started,
          JobsCreated = total au_jobs_created, BytesCommitted = total au_bytes_committed\<rparr>)"

definition fits_int64 :: "int \<Rightarrow> bool" where
  "fits_int64 n \<longleftrightarrow> MinInt64 \<le> n \<and> n \<le> MaxInt64"

definition readSessionUsage ::
    "faults \<Rightarrow> string \<Rightarrow> instant \<Rightarrow> 'z quota_db_scheme \<Rightarrow> anon_err + Usage" where
  "readSessionUsage flt sid w d =
     (let usage = session_sums sid w d in
      if stmt_fails flt ''read session counters'' \<or> \<not> fits_int64 (UploadsStarted usage)
          \<or> \<not> fits_int64 (JobsCreated usage) \<or> \<not> fits_int64 (BytesCommitted usage)
        then Inl (StorageError ''read session counters'') else Inr usage)"

text \<open>The upsert of the session counters and the update of the IP counters.\<close>

definition add_usage_row :: "UsageDelta \<Rightarrow> usage_row \<Rightarrow> usage_row" where
  "add_usage_row delta r = r
     \<lparr>au_uploads_started := au_uploads_started r + int32 (delta_UploadsStarted delta),
      au_jobs_created := au_jobs_created r + int32 (delta_JobsCreated delta),
      au_bytes_committed := au_bytes_committed r + delta_BytesCommitted delta\<rparr>"

definition upsert_usage :: "string \<Rightarrow> bytes \<Rightarrow> instant \<Rightarrow> UsageDelta \<Rightarrow> usage_row list \<Rightarrow> usage_row list option" where
  "upsert_usage sid ip w delta t =
     (let row = \<lparr>au_session_id = sid, au_ip_hash = ip, au_window_started_at = w,
            au_uploads_started = int32 (delta_UploadsStarted delta),
            au_jobs_created = int32 (delta_JobsCreated delta),
            au_bytes_committed = delta_BytesCommitted delta\<rparr>
      in if \<not> usage_row_check row then None
         else if list_ex (usage_key sid ip w) t
           then sql_checked_update usage_row_check (usage_key sid ip w) (add_usage_row delta) t
         else Some (t @ [row]))"

definition add_ip_row :: "UsageDelta \<Rightarrow> ip_usage_row \<Rightarrow> ip_usage_row" where
  "add_ip_row delta r = r
     \<lparr>aip_uploads_started := aip_uploads_started r + delta_UploadsStarted delta,
      aip_jobs_created := aip_jobs_created r + delta_JobsCreated delta,
      aip_bytes_committed := aip_bytes_committed r + delta_BytesCommitted delta\<rparr>"

definition add_ip_session :: "ip_usage_row \<Rightarrow> ip_usage_row" where
  "add_ip_session r = r\<lparr>aip_sessions_created := aip_sessions_created r + 1\<rparr>"

definition pg_ConsumeSessionCreation ::
    "faults \<Rightarrow> bytes \<Rightarrow> QuotaWindow \<Rightarrow> int \<Rightarrow> 'z quota_db_scheme \<Rightarrow>
      (anon_err + Usage) \<times> 'z quota_db_scheme" where
  "pg_ConsumeSessionCreation flt ipDigest window limit d =
     (let w = pg_time (time_instant (win_StartedAt window)) in
      case validateCreationQuota window limit of
        Some err \<Rightarrow> (Inl err, d)
      | None \<Rightarrow>
      if stmt_fails flt ''begin session-creation consumption''
        then (Inl (StorageError ''begin session-creation consumption''), d)
      else case ensureIPUsage flt ipDigest w d of
        Inl err \<Rightarrow> (Inl err, d)
      | Inr tx \<Rightarrow>
      (case readIPUsageForUpdate flt ipDigest w tx of
        Inl err \<Rightarrow> (Inl err, d)
      | Inr usage \<Rightarrow>
      if exceeds (SessionsCreated usage) 1 limit
        then (Inl (quotaExceeded QuotaScopeIP QuotaMetricSessions limit (win_EndsAt window)), d)
      else case (if stmt_fails flt ''increment IP session counter'' then None
          else sql_checked_update ip_usage_row_check (ip_key ipDigest w) add_ip_session
            (anonymous_ip_usage tx)) of
        None \<Rightarrow> (Inl (StorageError ''increment IP session counter''), d)
      | Some rows \<Rightarrow>
          finish (flt ''commit session-creation consumption'') d (tx\<lparr>anonymous_ip_usage := rows\<rparr>)
            (Inl (StorageError ''commit session-creation consumption''))
            (Inr (usage\<lparr>SessionsCreated := int64 (SessionsCreated usage + 1)\<rparr>))))"

definition pg_Consume ::
    "faults \<Rightarrow> QuotaRequest \<Rightarrow> 'z quota_db_scheme \<Rightarrow> (anon_err + QuotaDecision) \<times> 'z quota_db_scheme" where
  "pg_Consume flt request d =
     (let w = pg_time (time_instant (win_StartedAt (qr_Window request)));
          retryAt = win_EndsAt (qr_Window request);
          sid = qr_SessionID request; ip = qr_IPDigest request; delta = qr_Delta request in
      case validateQuotaRequest request of
        Some err \<Rightarrow> (Inl err, d)
      | None \<Rightarrow>
      if stmt_fails flt ''begin consumption'' then (Inl (StorageError ''begin consumption''), d)
      else case lockActiveSession flt sid (pg_time (qr_ObservedAt request)) d of
        Some err \<Rightarrow> (Inl err, d)
      | None \<Rightarrow>
      (case ensureIPUsage flt ip w d of
        Inl err \<Rightarrow> (Inl err, d)
      | Inr tx \<Rightarrow>
      (case readIPUsageForUpdate flt ip w tx of
        Inl err \<Rightarrow> (Inl err, d)
      | Inr ipUsage \<Rightarrow>
      (case readSessionUsage flt sid w tx of
        Inl err \<Rightarrow> (Inl err, d)
      | Inr sessionUsage \<Rightarrow>
      (case checkScopedLimits QuotaScopeSession sessionUsage delta (qr_Limits request) retryAt of
        Some err \<Rightarrow> (Inl err, d)
      | None \<Rightarrow>
      (case checkScopedLimits QuotaScopeIP ipUsage delta (qr_Limits request) retryAt of
        Some err \<Rightarrow> (Inl err, d)
      | None \<Rightarrow>
      (case (if stmt_fails flt ''increment session counters'' then None
          else upsert_usage sid ip w delta (anonymous_usage tx)) of
        None \<Rightarrow> (Inl (StorageError ''increment session counters''), d)
      | Some usage_rows \<Rightarrow>
      (case (if stmt_fails flt ''increment IP counters'' then None
          else sql_checked_update ip_usage_row_check (ip_key ip w) (add_ip_row delta)
            (anonymous_ip_usage tx)) of
        None \<Rightarrow> (Inl (StorageError ''increment IP counters''), d)
      | Some ip_rows \<Rightarrow>
          finish (flt ''commit consumption'') d
            (tx\<lparr>anonymous_usage := usage_rows, anonymous_ip_usage := ip_rows\<rparr>)
            (Inl (StorageError ''commit consumption''))
            (Inr \<lparr>dec_Window = qr_Window request, dec_Session = applyDelta sessionUsage delta,
                  dec_IP = applyDelta ipUsage delta\<rparr>)))))))))"

subsection \<open>The interface and the manager\<close>

record 'd QuotaStore =
  qs_ConsumeSessionCreation :: "bytes \<Rightarrow> QuotaWindow \<Rightarrow> int \<Rightarrow> 'd \<Rightarrow> (anon_err + Usage) \<times> 'd"
  qs_Consume :: "QuotaRequest \<Rightarrow> 'd \<Rightarrow> (anon_err + QuotaDecision) \<times> 'd"

definition PostgresQuotaStore :: "faults \<Rightarrow> 'z quota_db_scheme QuotaStore" where
  "PostgresQuotaStore flt =
     \<lparr>qs_ConsumeSessionCreation = pg_ConsumeSessionCreation flt, qs_Consume = pg_Consume flt\<rparr>"

definition NewPostgresQuotaStore :: "faults option \<Rightarrow> anon_err + 'z quota_db_scheme QuotaStore" where
  "NewPostgresQuotaStore database =
     (case database of None \<Rightarrow> Inl (ErrText ''anonymous quota database is required'')
      | Some flt \<Rightarrow> Inr (PostgresQuotaStore flt))"

record 'd QuotaManager =
  qm_store :: "'d QuotaStore"
  qm_pepper :: bytes
  qm_limits :: QuotaLimits

definition NewQuotaManager :: "'d QuotaStore option \<Rightarrow> bytes \<Rightarrow> QuotaLimits \<Rightarrow> anon_err + 'd QuotaManager" where
  "NewQuotaManager store pepper limits =
     (case store of
        None \<Rightarrow> Inl (ErrText ''anonymous quota store is required'')
      | Some store \<Rightarrow>
          (case validatePepper pepper of
             Some err \<Rightarrow> Inl err
           | None \<Rightarrow>
               (case QuotaLimits_Validate limits of
                  Some err \<Rightarrow> Inl err
                | None \<Rightarrow> Inr \<lparr>qm_store = store, qm_pepper = pepper, qm_limits = limits\<rparr>)))"

definition qm_ConsumeSessionCreation ::
    "hmac \<Rightarrow> instant \<Rightarrow> 'd QuotaManager \<Rightarrow> Addr \<Rightarrow> 'd \<Rightarrow> (anon_err + Usage) \<times> 'd" where
  "qm_ConsumeSessionCreation hmac now manager clientIP d =
     (case DigestIP hmac (qm_pepper manager) clientIP of
        Inl err \<Rightarrow> (Inl err, d)
      | Inr digest \<Rightarrow>
          qs_ConsumeSessionCreation (qm_store manager) digest
            (quota_window (qm_limits manager) (GoTime now UTC)) (lim_SessionsPerIP (qm_limits manager)) d)"

definition qm_consume ::
    "hmac \<Rightarrow> instant \<Rightarrow> 'd QuotaManager \<Rightarrow> string \<Rightarrow> Addr \<Rightarrow> UsageDelta \<Rightarrow> 'd \<Rightarrow>
      (anon_err + QuotaDecision) \<times> 'd" where
  "qm_consume hmac now manager sessionID clientIP delta d =
     (case DigestIP hmac (qm_pepper manager) clientIP of
        Inl err \<Rightarrow> (Inl err, d)
      | Inr digest \<Rightarrow>
          qs_Consume (qm_store manager)
            \<lparr>qr_SessionID = sessionID, qr_IPDigest = digest,
             qr_Window = quota_window (qm_limits manager) (GoTime now UTC), qr_ObservedAt = now,
             qr_Delta = delta, qr_Limits = qm_limits manager\<rparr> d)"

definition qm_ConsumeUploadStart ::
    "hmac \<Rightarrow> instant \<Rightarrow> 'd QuotaManager \<Rightarrow> string \<Rightarrow> Addr \<Rightarrow> 'd \<Rightarrow> (anon_err + QuotaDecision) \<times> 'd" where
  "qm_ConsumeUploadStart hmac now manager sessionID clientIP =
     qm_consume hmac now manager sessionID clientIP
       \<lparr>delta_UploadsStarted = 1, delta_JobsCreated = 0, delta_BytesCommitted = 0\<rparr>"

definition qm_ConsumeJobCreation ::
    "hmac \<Rightarrow> instant \<Rightarrow> 'd QuotaManager \<Rightarrow> string \<Rightarrow> Addr \<Rightarrow> 'd \<Rightarrow> (anon_err + QuotaDecision) \<times> 'd" where
  "qm_ConsumeJobCreation hmac now manager sessionID clientIP =
     qm_consume hmac now manager sessionID clientIP
       \<lparr>delta_UploadsStarted = 0, delta_JobsCreated = 1, delta_BytesCommitted = 0\<rparr>"

definition qm_ConsumeCommittedBytes ::
    "hmac \<Rightarrow> instant \<Rightarrow> 'd QuotaManager \<Rightarrow> string \<Rightarrow> Addr \<Rightarrow> int \<Rightarrow> 'd \<Rightarrow> (anon_err + QuotaDecision) \<times> 'd" where
  "qm_ConsumeCommittedBytes hmac now manager sessionID clientIP byteCount d =
     (if byteCount \<le> 0 then (Inl (ErrText ''committed anonymous bytes must be positive''), d)
      else qm_consume hmac now manager sessionID clientIP
        \<lparr>delta_UploadsStarted = 0, delta_JobsCreated = 0, delta_BytesCommitted = byteCount\<rparr> d)"

subsection \<open>The contract\<close>

text \<open>Usage that stays inside the limits of a scope, and the unbounded sum a consumption means.\<close>

definition fits_limits :: "QuotaScope \<Rightarrow> QuotaLimits \<Rightarrow> Usage \<Rightarrow> bool" where
  "fits_limits scope limits u \<longleftrightarrow>
     (case scoped_limits scope limits of (uploads, jobs, bytes) \<Rightarrow>
        UploadsStarted u \<le> uploads \<and> JobsCreated u \<le> jobs \<and> BytesCommitted u \<le> bytes)"

definition add_delta :: "Usage \<Rightarrow> UsageDelta \<Rightarrow> Usage" where
  "add_delta u delta = u
     \<lparr>UploadsStarted := UploadsStarted u + delta_UploadsStarted delta,
      JobsCreated := JobsCreated u + delta_JobsCreated delta,
      BytesCommitted := BytesCommitted u + delta_BytesCommitted delta\<rparr>"

definition request_window :: "QuotaRequest \<Rightarrow> instant" where
  "request_window req = pg_time (time_instant (win_StartedAt (qr_Window req)))"

text \<open>The effect of one accepted consumption on the two observable counter maps.\<close>

definition consumed ::
    "('d \<Rightarrow> string \<times> instant \<Rightarrow> Usage) \<Rightarrow> ('d \<Rightarrow> bytes \<times> instant \<Rightarrow> Usage) \<Rightarrow> QuotaRequest \<Rightarrow> 'd \<Rightarrow> 'd \<Rightarrow> bool" where
  "consumed su iu req d d' \<longleftrightarrow>
     (let sk = (qr_SessionID req, request_window req); ik = (qr_IPDigest req, request_window req) in
      su d' = (su d)(sk := add_delta (su d sk) (qr_Delta req)) \<and>
      iu d' = (iu d)(ik := add_delta (iu d ik) (qr_Delta req)) \<and>
      fits_limits QuotaScopeSession (qr_Limits req) (su d' sk) \<and>
      fits_limits QuotaScopeIP (qr_Limits req) (iu d' ik))"

text \<open>No session and no address is above the limits in any window.\<close>

definition within_quota ::
    "('d \<Rightarrow> string \<times> instant \<Rightarrow> Usage) \<Rightarrow> ('d \<Rightarrow> bytes \<times> instant \<Rightarrow> Usage) \<Rightarrow> QuotaLimits \<Rightarrow> 'd \<Rightarrow> bool" where
  "within_quota su iu limits d \<longleftrightarrow>
     (\<forall>k. fits_limits QuotaScopeSession limits (su d k)) \<and>
     (\<forall>k. fits_limits QuotaScopeIP limits (iu d k) \<and> SessionsCreated (iu d k) \<le> lim_SessionsPerIP limits)"

locale quota_store =
  fixes store :: "'d QuotaStore"
    and su :: "'d \<Rightarrow> string \<times> instant \<Rightarrow> Usage"
    and iu :: "'d \<Rightarrow> bytes \<times> instant \<Rightarrow> Usage"
    and good :: "'d \<Rightarrow> bool"
  assumes consume_effect: "good d \<Longrightarrow>
      snd (qs_Consume store req d) = d \<or> consumed su iu req d (snd (qs_Consume store req d))"
    and consume_ok: "good d \<Longrightarrow> lim_BytesPerSession (qr_Limits req) \<le> MaxInt64 \<Longrightarrow>
      qs_Consume store req d = (Inr dec, d') \<Longrightarrow> consumed su iu req d d' \<and>
      dec_Session dec = su d' (qr_SessionID req, request_window req) \<and>
      dec_IP dec = iu d' (qr_IPDigest req, request_window req)"
    and creation_effect: "good d \<Longrightarrow>
      snd (qs_ConsumeSessionCreation store ip window limit d) = d \<or>
      (let d' = snd (qs_ConsumeSessionCreation store ip window limit d);
           k = (ip, pg_time (time_instant (win_StartedAt window))) in
       su d' = su d \<and>
       iu d' = (iu d)(k := (iu d k)\<lparr>SessionsCreated := SessionsCreated (iu d k) + 1\<rparr>) \<and>
       SessionsCreated (iu d' k) \<le> limit)"
    and consume_good: "good d \<Longrightarrow> good (snd (qs_Consume store req d))"
    and creation_good: "good d \<Longrightarrow> good (snd (qs_ConsumeSessionCreation store ip window limit d))"
begin

lemma consume_within:
  assumes "good d" and "within_quota su iu (qr_Limits req) d"
  shows "within_quota su iu (qr_Limits req) (snd (qs_Consume store req d))"
  using consume_effect [OF assms(1), of req] assms(2)
  by (auto simp: consumed_def within_quota_def Let_def add_delta_def split: if_splits)

lemma creation_within:
  assumes "good d" and "within_quota su iu limits d"
  shows "within_quota su iu limits (snd (qs_ConsumeSessionCreation store ip window (lim_SessionsPerIP limits) d))"
  using creation_effect [OF assms(1), of ip window "lim_SessionsPerIP limits"] assms(2)
  by (auto simp: within_quota_def Let_def fits_limits_def split: if_splits)

lemma manager_consume_within:
  assumes "good d" and "qm_store manager = store" and "within_quota su iu (qm_limits manager) d"
  shows "within_quota su iu (qm_limits manager) (snd (qm_consume hmac now manager sid ip delta d))"
    and "good (snd (qm_consume hmac now manager sid ip delta d))"
  using assms consume_within [OF assms(1)] consume_good [OF assms(1)]
  by (auto simp: qm_consume_def split: sum.split)
    (metis QuotaRequest.select_convs(6))

lemma manager_creation_within:
  assumes "good d" and "qm_store manager = store" and "within_quota su iu (qm_limits manager) d"
  shows "within_quota su iu (qm_limits manager) (snd (qm_ConsumeSessionCreation hmac now manager ip d))"
    and "good (snd (qm_ConsumeSessionCreation hmac now manager ip d))"
  using assms creation_within [OF assms(1)] creation_good [OF assms(1)]
  by (auto simp: qm_ConsumeSessionCreation_def split: sum.split)

end

subsection \<open>The PostgreSQL store meets the contract\<close>

lemma exceeds_correct:
  assumes "fits_int64 c" "fits_int64 l"
  shows "exceeds c x l \<longleftrightarrow> c < 0 \<or> x < 0 \<or> l < 0 \<or> l < c + x"
  using assms by (auto simp: exceeds_def fits_int64_def)

lemma int64_le: "0 \<le> y \<Longrightarrow> int64 y \<le> y"
  by (simp add: int64_def signed_take_bit_int_less_eq_self_iff)

lemma not_exceeds:
  assumes "\<not> exceeds c x l"
  shows "0 \<le> c \<and> 0 \<le> x \<and> c + x \<le> l"
proof -
  have "0 \<le> c" "0 \<le> x" "c \<le> l" "x \<le> int64 (l - c)"
    using assms by (auto simp: exceeds_def split: if_splits)
  with int64_le [of "l - c"] show ?thesis by linarith
qed

lemma within_scoped_limits:
  "checkScopedLimits scope u delta limits at = None \<Longrightarrow> fits_limits scope limits (add_delta u delta)"
  by (auto simp: checkScopedLimits_def fits_limits_def add_delta_def split: prod.splits if_splits
      dest!: not_exceeds)

definition zero_usage :: Usage where
  "zero_usage = \<lparr>SessionsCreated = 0, UploadsStarted = 0, JobsCreated = 0, BytesCommitted = 0\<rparr>"

abbreviation ip_row_key :: "ip_usage_row \<Rightarrow> bytes \<times> instant" where
  "ip_row_key r \<equiv> (aip_ip_hash r, aip_window_started_at r)"

abbreviation usage_row_key :: "usage_row \<Rightarrow> string \<times> bytes \<times> instant" where
  "usage_row_key r \<equiv> (au_session_id r, au_ip_hash r, au_window_started_at r)"

definition session_usage :: "'z quota_db_scheme \<Rightarrow> string \<times> instant \<Rightarrow> Usage" where
  "session_usage d k = session_sums (fst k) (snd k) d"

definition ip_usage :: "'z quota_db_scheme \<Rightarrow> bytes \<times> instant \<Rightarrow> Usage" where
  "ip_usage d k =
     (case find (\<lambda>r. ip_row_key r = k) (anonymous_ip_usage d) of
        None \<Rightarrow> zero_usage | Some r \<Rightarrow> usage_of_ip_row r)"

text \<open>What the per-session rows say an address has used.\<close>

definition ip_totals :: "'z quota_db_scheme \<Rightarrow> bytes \<times> instant \<Rightarrow> Usage" where
  "ip_totals d k =
     (let total = (\<lambda>column. sum_rows (\<lambda>r. au_ip_hash r = fst k \<and> au_window_started_at r = snd k) column
            (anonymous_usage d))
      in \<lparr>SessionsCreated = 0, UploadsStarted = total au_uploads_started,
          JobsCreated = total au_jobs_created, BytesCommitted = total au_bytes_committed\<rparr>)"

definition ledger :: "'z quota_db_scheme \<Rightarrow> bool" where
  "ledger d \<longleftrightarrow> (\<forall>k. (ip_usage d k)\<lparr>SessionsCreated := 0\<rparr> = ip_totals d k)"

definition quotas_good :: "'z quota_db_scheme \<Rightarrow> bool" where
  "quotas_good d \<longleftrightarrow>
     distinct (map usage_row_key (anonymous_usage d)) \<and> list_all usage_row_check (anonymous_usage d) \<and>
     distinct (map ip_row_key (anonymous_ip_usage d)) \<and> list_all ip_usage_row_check (anonymous_ip_usage d)"

lemma add_row_keys [simp]:
  "ip_row_key (add_ip_row delta r) = ip_row_key r"
  "ip_row_key (add_ip_session r) = ip_row_key r"
  "usage_row_key (add_usage_row delta q) = usage_row_key q"
  by (simp_all add: add_ip_row_def add_ip_session_def add_usage_row_def)

lemma usage_of_added_ip_row:
  "usage_of_ip_row (add_ip_row delta r) = add_delta (usage_of_ip_row r) delta"
  "usage_of_ip_row (add_ip_session r) =
     (usage_of_ip_row r)\<lparr>SessionsCreated := SessionsCreated (usage_of_ip_row r) + 1\<rparr>"
  by (simp_all add: usage_of_ip_row_def add_ip_row_def add_ip_session_def add_delta_def)

lemma checked_update_all:
  "sql_checked_update chk P f t = Some t' \<Longrightarrow> list_all chk t \<Longrightarrow> list_all chk t' \<and> t' = sql_update P f t"
  by (auto simp: sql_checked_update_def list_all_iff set_sql_update split: if_splits)

text \<open>Initialising a counter row is invisible.\<close>

lemma ensureIPUsage_ok:
  assumes "quotas_good d" and "ensureIPUsage flt ip w d = Inr tx"
  shows "quotas_good tx \<and> ip_usage tx = ip_usage d \<and> anonymous_usage tx = anonymous_usage d \<and>
    anonymous_session tx = anonymous_session d \<and> (ip, w) \<in> ip_row_key ` set (anonymous_ip_usage tx)"
proof (cases "list_ex (ip_key ip w) (anonymous_ip_usage d)")
  case True
  with assms have "tx = d" by (simp add: ensureIPUsage_def Let_def split: if_splits)
  with True assms(1) show ?thesis by (auto simp: list_ex_iff image_iff)
next
  case False
  define row where "row = \<lparr>aip_ip_hash = ip, aip_window_started_at = w, aip_sessions_created = 0,
            aip_uploads_started = 0, aip_jobs_created = 0, aip_bytes_committed = 0\<rparr>"
  from assms(2) False have tx: "tx = d\<lparr>anonymous_ip_usage := anonymous_ip_usage d @ [row]\<rparr>"
    and chk: "ip_usage_row_check row"
    by (auto simp: ensureIPUsage_def Let_def row_def split: if_splits)
  have key: "ip_row_key row = (ip, w)" and zero: "usage_of_ip_row row = zero_usage"
    by (simp_all add: row_def usage_of_ip_row_def zero_usage_def)
  have "ip_usage tx k = ip_usage d k" for k
    by (simp add: ip_usage_def tx find_key_append zero split: option.split)
  moreover have "quotas_good tx"
    using assms(1) False chk key by (auto simp: quotas_good_def tx list_ex_iff)
  ultimately show ?thesis using key by (auto simp: tx)
qed

lemma readIPUsage_ok:
  assumes "readIPUsageForUpdate flt ip w d = Inr u"
  shows "u = ip_usage d (ip, w)"
  using assms by (auto simp: readIPUsageForUpdate_def ip_usage_def split: if_splits option.splits)

lemma ip_usage_update:
  assumes "sql_checked_update ip_usage_row_check (ip_key ip w) g (anonymous_ip_usage d) = Some rows"
    and g: "\<And>r. ip_row_key (g r) = ip_row_key r" "\<And>r. usage_of_ip_row (g r) = h (usage_of_ip_row r)"
    and "(ip, w) \<in> ip_row_key ` set (anonymous_ip_usage d)"
  shows "ip_usage (d\<lparr>anonymous_ip_usage := rows\<rparr>) = (ip_usage d)((ip, w) := h (ip_usage d (ip, w)))"
proof
  fix k
  have rows: "rows = sql_update (\<lambda>r. ip_row_key r = (ip, w)) g (anonymous_ip_usage d)"
    using assms(1) by (auto simp: sql_checked_update_def split: if_splits)
  have lookup: "find (\<lambda>r. ip_row_key r = k) rows =
      map_option (\<lambda>r. if ip_row_key r = (ip, w) then g r else r)
        (find (\<lambda>r. ip_row_key r = k) (anonymous_ip_usage d))"
    unfolding rows by (rule find_sql_update [where key = ip_row_key]) (rule g(1))
  show "ip_usage (d\<lparr>anonymous_ip_usage := rows\<rparr>) k = ((ip_usage d)((ip, w) := h (ip_usage d (ip, w)))) k"
  proof (cases "find (\<lambda>r. ip_row_key r = k) (anonymous_ip_usage d)")
    case None
    with assms(4) have "k \<noteq> (ip, w)" by (force simp: find_None_iff_in)
    with None lookup show ?thesis by (simp add: ip_usage_def del: prod.inject)
  next
    case (Some r)
    then have "ip_row_key r = k" using find_Some_in by fastforce
    with Some lookup g(2) show ?thesis by (auto simp: ip_usage_def simp del: prod.inject)
  qed
qed

lemma ip_update_good:
  assumes "sql_checked_update ip_usage_row_check (ip_key ip w) g (anonymous_ip_usage d) = Some rows"
    and "\<And>r. ip_row_key (g r) = ip_row_key r" and "quotas_good d"
  shows "quotas_good (d\<lparr>anonymous_ip_usage := rows\<rparr>)"
  using checked_update_all [OF assms(1)] assms(2,3)
  by (auto simp: quotas_good_def sql_update_map [where g = ip_row_key])

text \<open>
  The upsert adds the delta to every sum that selects the row's key and to no other: the sums
  per session and the sums per address alike.
\<close>

lemma upsert_sums:
  fixes Q :: "string \<times> bytes \<times> instant \<Rightarrow> bool"
  assumes R: "0 \<le> delta_UploadsStarted delta" "delta_UploadsStarted delta \<le> MaxInt32"
      "0 \<le> delta_JobsCreated delta" "delta_JobsCreated delta \<le> MaxInt32"
    and D: "distinct (map usage_row_key t)"
    and U: "upsert_usage sid ip w delta t = Some rows"
  defines "P \<equiv> (\<lambda>r. Q (usage_row_key r))" and "hit \<equiv> (\<lambda>c :: int. if Q (sid, ip, w) then c else 0)"
  shows "sum_rows P au_uploads_started rows = sum_rows P au_uploads_started t + hit (delta_UploadsStarted delta)"
    and "sum_rows P au_jobs_created rows = sum_rows P au_jobs_created t + hit (delta_JobsCreated delta)"
    and "sum_rows P au_bytes_committed rows = sum_rows P au_bytes_committed t + hit (delta_BytesCommitted delta)"
proof -
  have int: "int32 (delta_UploadsStarted delta) = delta_UploadsStarted delta"
      "int32 (delta_JobsCreated delta) = delta_JobsCreated delta"
    using R by simp_all
  have "sum_rows P f rows = sum_rows P f t + hit c"
    if c: "\<And>r. f (add_usage_row delta r) = f r + c"
      and fresh: "f \<lparr>au_session_id = sid, au_ip_hash = ip, au_window_started_at = w,
            au_uploads_started = delta_UploadsStarted delta, au_jobs_created = delta_JobsCreated delta,
            au_bytes_committed = delta_BytesCommitted delta\<rparr> = c" for f c
  proof (cases "list_ex (usage_key sid ip w) t")
    case True
    then have in_key: "(sid, ip, w) \<in> usage_row_key ` set t"
      by (auto simp: list_ex_iff)
    from True U have rows: "rows = sql_update (usage_key sid ip w) (add_usage_row delta) t"
      by (auto simp: upsert_usage_def sql_checked_update_def Let_def split: if_splits)
    show ?thesis
      unfolding rows hit_def
      by (rule sum_rows_update [where key = usage_row_key and k = "(sid, ip, w)", OF _ D in_key];
          (rule c)?)
        (auto simp: P_def add_usage_row_def)
  next
    case False
    with U show ?thesis by (auto simp: upsert_usage_def Let_def P_def hit_def int fresh split: if_splits)
  qed
  note this [of au_uploads_started "delta_UploadsStarted delta"]
    this [of au_jobs_created "delta_JobsCreated delta"]
    this [of au_bytes_committed "delta_BytesCommitted delta"]
  then show "sum_rows P au_uploads_started rows = sum_rows P au_uploads_started t + hit (delta_UploadsStarted delta)"
    and "sum_rows P au_jobs_created rows = sum_rows P au_jobs_created t + hit (delta_JobsCreated delta)"
    and "sum_rows P au_bytes_committed rows = sum_rows P au_bytes_committed t + hit (delta_BytesCommitted delta)"
    by (simp_all add: add_usage_row_def int)
qed

lemma add_usage_row_sum:
  assumes "0 \<le> delta_UploadsStarted delta" "delta_UploadsStarted delta \<le> MaxInt32"
    and "0 \<le> delta_JobsCreated delta" "delta_JobsCreated delta \<le> MaxInt32"
    and "distinct (map usage_row_key (anonymous_usage d))"
    and "upsert_usage sid ip w delta (anonymous_usage d) = Some rows"
  shows "session_usage (d\<lparr>anonymous_usage := rows\<rparr>) =
      (session_usage d)((sid, w) := add_delta (session_usage d (sid, w)) delta)"
    and "ip_totals (d\<lparr>anonymous_usage := rows\<rparr>) =
      (ip_totals d)((ip, w) := add_delta (ip_totals d (ip, w)) delta)"
proof (rule_tac [!] ext)
  fix k
  show "session_usage (d\<lparr>anonymous_usage := rows\<rparr>) k =
      ((session_usage d)((sid, w) := add_delta (session_usage d (sid, w)) delta)) k"
    using upsert_sums [OF assms, where Q = "\<lambda>(s, _, v). s = fst k \<and> v = snd k"]
    by (auto simp: session_usage_def session_sums_def Let_def add_delta_def)
next
  fix k
  show "ip_totals (d\<lparr>anonymous_usage := rows\<rparr>) k = ((ip_totals d)((ip, w) := add_delta (ip_totals d (ip, w)) delta)) k"
    using upsert_sums [OF assms, where Q = "\<lambda>(_, i, v). i = fst k \<and> v = snd k"]
    by (auto simp: ip_totals_def Let_def add_delta_def)
qed

lemma upsert_good:
  assumes "upsert_usage sid ip w delta (anonymous_usage d) = Some rows" and "quotas_good d"
  shows "quotas_good (d\<lparr>anonymous_usage := rows\<rparr>)"
proof (cases "list_ex (usage_key sid ip w) (anonymous_usage d)")
  case True
  with assms(1) have u: "sql_checked_update usage_row_check (usage_key sid ip w) (add_usage_row delta)
      (anonymous_usage d) = Some rows"
    by (simp add: upsert_usage_def Let_def split: if_splits)
  from checked_update_all [OF u] assms(2) show ?thesis
    by (auto simp: quotas_good_def sql_update_map [where g = usage_row_key])
next
  case False
  with assms show ?thesis
    by (auto simp: upsert_usage_def Let_def quotas_good_def list_ex_iff split: if_splits)
qed

text \<open>The one path of \<open>Consume\<close> that changes the tables.\<close>

lemma pg_Consume_path:
  assumes "pg_Consume flt req d = (res, d')" and "d' \<noteq> d \<or> \<not> isl res"
  shows "\<exists>tx ipU sU ur ir. validateQuotaRequest req = (None :: anon_sentinel check) \<and>
    lockActiveSession flt (qr_SessionID req) (pg_time (qr_ObservedAt req)) d = None \<and>
    ensureIPUsage flt (qr_IPDigest req) (request_window req) d = Inr tx \<and>
    readIPUsageForUpdate flt (qr_IPDigest req) (request_window req) tx = Inr ipU \<and>
    readSessionUsage flt (qr_SessionID req) (request_window req) tx = Inr sU \<and>
    checkScopedLimits QuotaScopeSession sU (qr_Delta req) (qr_Limits req) (win_EndsAt (qr_Window req)) = None \<and>
    checkScopedLimits QuotaScopeIP ipU (qr_Delta req) (qr_Limits req) (win_EndsAt (qr_Window req)) = None \<and>
    upsert_usage (qr_SessionID req) (qr_IPDigest req) (request_window req) (qr_Delta req)
      (anonymous_usage tx) = Some ur \<and>
    sql_checked_update ip_usage_row_check (ip_key (qr_IPDigest req) (request_window req))
      (add_ip_row (qr_Delta req)) (anonymous_ip_usage tx) = Some ir \<and>
    d' = tx\<lparr>anonymous_usage := ur, anonymous_ip_usage := ir\<rparr> \<and>
    (\<forall>dec. res = Inr dec \<longrightarrow> dec = \<lparr>dec_Window = qr_Window req,
       dec_Session = applyDelta sU (qr_Delta req), dec_IP = applyDelta ipU (qr_Delta req)\<rparr>)"
  using assms unfolding pg_Consume_def Let_def request_window_def [symmetric]
  by (auto simp: finish_def isl_def split: option.splits sum.splits if_splits dbcall.splits)

lemma request_delta_range:
  "validateQuotaRequest req = None \<Longrightarrow>
    0 \<le> delta_UploadsStarted (qr_Delta req) \<and> delta_UploadsStarted (qr_Delta req) \<le> MaxInt32 \<and>
    0 \<le> delta_JobsCreated (qr_Delta req) \<and> delta_JobsCreated (qr_Delta req) \<le> MaxInt32 \<and>
    0 \<le> delta_BytesCommitted (qr_Delta req)"
  by (auto simp: validateQuotaRequest_def UsageDelta_validate_def split: if_splits option.splits)

lemma QuotaLimits_Validate_None:
  "QuotaLimits_Validate limits = None \<longleftrightarrow>
     Minute \<le> lim_Window limits \<and> lim_Window limits smod Second = 0 \<and>
     (\<forall>n \<in> {lim_SessionsPerIP limits, lim_UploadsPerSession limits, lim_UploadsPerIP limits,
        lim_JobsPerSession limits, lim_JobsPerIP limits}. 0 < n \<and> n \<le> MaxInt32) \<and>
     0 < lim_BytesPerSession limits \<and> 0 < lim_BytesPerIP limits"
  by (simp add: QuotaLimits_Validate_def count_problem_def not_less not_le)

lemma request_count_limits:
  "validateQuotaRequest req = None \<Longrightarrow>
    lim_UploadsPerSession (qr_Limits req) \<le> MaxInt32 \<and> lim_JobsPerSession (qr_Limits req) \<le> MaxInt32"
  by (simp add: validateQuotaRequest_def QuotaLimits_Validate_None split: if_splits option.splits)

lemma session_usage_only:
  assumes "anonymous_usage d = anonymous_usage d'"
  shows "session_usage d = session_usage d'" and "ip_totals d = ip_totals d'"
  using assms by (simp_all add: session_usage_def session_sums_def ip_totals_def fun_eq_iff)

lemma add_delta_sessions: "(add_delta u delta)\<lparr>SessionsCreated := 0\<rparr> = add_delta (u\<lparr>SessionsCreated := 0\<rparr>) delta"
  by (simp add: add_delta_def)

lemma applyDelta_exact:
  assumes "checkScopedLimits scope u delta limits at = None"
    and "UploadsStarted (add_delta u delta) \<le> MaxInt64" "JobsCreated (add_delta u delta) \<le> MaxInt64"
      "BytesCommitted (add_delta u delta) \<le> MaxInt64"
  shows "applyDelta u delta = add_delta u delta"
  using assms
  by (auto simp: checkScopedLimits_def applyDelta_def add_delta_def split: prod.splits if_splits
      dest!: not_exceeds)

lemma ip_usage_range:
  "quotas_good d \<Longrightarrow> UploadsStarted (ip_usage d k) \<le> MaxInt64 \<and> JobsCreated (ip_usage d k) \<le> MaxInt64 \<and>
    BytesCommitted (ip_usage d k) \<le> MaxInt64 \<and> SessionsCreated (ip_usage d k) \<le> MaxInt64"
  by (auto simp: ip_usage_def zero_usage_def usage_of_ip_row_def quotas_good_def list_all_iff
      ip_usage_row_check_def dest!: find_Some_in split: option.split)

lemma pg_consume_accepts:
  assumes good: "quotas_good d" and "pg_Consume flt req d = (res, d')" and "d' \<noteq> d \<or> \<not> isl res"
  shows "consumed session_usage ip_usage req d d' \<and> quotas_good d' \<and> (ledger d \<longrightarrow> ledger d') \<and>
    (lim_BytesPerSession (qr_Limits req) \<le> MaxInt64 \<longrightarrow> (\<forall>dec. res = Inr dec \<longrightarrow>
      dec_Session dec = session_usage d' (qr_SessionID req, request_window req) \<and>
      dec_IP dec = ip_usage d' (qr_IPDigest req, request_window req)))"
proof -
  define w sid ip delta where "w = request_window req" and "sid = qr_SessionID req"
    and "ip = qr_IPDigest req" and "delta = qr_Delta req"
  from pg_Consume_path [OF assms(2,3), folded w_def sid_def ip_def delta_def] obtain tx ipU sU ur ir
    where v: "validateQuotaRequest req = (None :: anon_sentinel check)"
      and tx: "ensureIPUsage flt ip w d = Inr tx"
      and ipU: "readIPUsageForUpdate flt ip w tx = Inr ipU"
      and sU: "readSessionUsage flt sid w tx = Inr sU"
      and cs: "checkScopedLimits QuotaScopeSession sU delta (qr_Limits req) (win_EndsAt (qr_Window req)) = None"
      and ci: "checkScopedLimits QuotaScopeIP ipU delta (qr_Limits req) (win_EndsAt (qr_Window req)) = None"
      and ur: "upsert_usage sid ip w delta (anonymous_usage tx) = Some ur"
      and ir: "sql_checked_update ip_usage_row_check (ip_key ip w) (add_ip_row delta)
        (anonymous_ip_usage tx) = Some ir"
      and d': "d' = tx\<lparr>anonymous_usage := ur, anonymous_ip_usage := ir\<rparr>"
      and dec: "\<forall>dec. res = Inr dec \<longrightarrow> dec = \<lparr>dec_Window = qr_Window req,
       dec_Session = applyDelta sU delta, dec_IP = applyDelta ipU delta\<rparr>"
    by blast
  note T = ensureIPUsage_ok [OF good tx]
  note R = request_delta_range [OF v, folded delta_def]
  have ipU': "ipU = ip_usage d (ip, w)" using readIPUsage_ok [OF ipU] T by simp
  have SU: "session_usage tx = session_usage d" "ip_totals tx = ip_totals d"
    using session_usage_only [of tx d] T by blast+
  have "sU = session_usage tx (sid, w)"
    using sU by (simp add: readSessionUsage_def session_usage_def Let_def split: if_splits)
  then have sU': "sU = session_usage d (sid, w)" by (simp add: SU)
  have "ip_totals d' = ip_totals (tx\<lparr>anonymous_usage := ur\<rparr>)"
    by (rule session_usage_only) (simp add: d')
  also have "\<dots> = (ip_totals tx)((ip, w) := add_delta (ip_totals tx (ip, w)) delta)"
    using R T good by (intro add_usage_row_sum [OF _ _ _ _ _ ur]) (simp_all add: quotas_good_def)
  finally have L: "ip_totals d' = (ip_totals d)((ip, w) := add_delta (ip_totals d (ip, w)) delta)"
    by (simp add: SU)
  have "session_usage d' = session_usage (tx\<lparr>anonymous_usage := ur\<rparr>)"
    by (rule session_usage_only) (simp add: d')
  also have "\<dots> = (session_usage tx)((sid, w) := add_delta (session_usage tx (sid, w)) delta)"
    using R T good by (intro add_usage_row_sum [OF _ _ _ _ _ ur]) (simp_all add: quotas_good_def)
  finally have S: "session_usage d' = (session_usage d)((sid, w) := add_delta sU delta)"
    by (simp add: SU sU')
  have I: "ip_usage d' = (ip_usage d)((ip, w) := add_delta ipU delta)"
    using ip_usage_update [OF ir, of "\<lambda>u. add_delta u delta"] T usage_of_added_ip_row
    by (simp add: d' ipU' ip_usage_def fun_eq_iff)
  have G: "quotas_good d'"
    using upsert_good [OF ur] ip_update_good [OF ir] T by (auto simp: d' quotas_good_def)
  have C: "consumed session_usage ip_usage req d d'"
    using within_scoped_limits [OF cs] within_scoped_limits [OF ci]
    by (simp add: consumed_def S I Let_def w_def sid_def ip_def delta_def sU' ipU')
  have A: "applyDelta ipU delta = add_delta ipU delta"
    using applyDelta_exact [OF ci] ip_usage_range [OF G, of "(ip, w)"] by (simp add: I)
  have "fits_limits QuotaScopeSession (qr_Limits req) (add_delta sU delta)"
    by (rule within_scoped_limits [OF cs])
  then have B: "applyDelta sU delta = add_delta sU delta" if "lim_BytesPerSession (qr_Limits req) \<le> MaxInt64"
    using applyDelta_exact [OF cs] request_count_limits [OF v] that
    by (auto simp: fits_limits_def scoped_limits_def)
  have "ledger d'" if "ledger d"
    using that by (auto simp: ledger_def I L ipU' add_delta_sessions)
  then show ?thesis using C G dec A B by (auto simp: S I w_def sid_def ip_def)
qed

lemma pg_creation_path:
  assumes "pg_ConsumeSessionCreation flt ip window limit d = (res, d')" and "d' \<noteq> d \<or> \<not> isl res"
  shows "\<exists>tx u rows. ensureIPUsage flt ip (pg_time (time_instant (win_StartedAt window))) d = Inr tx \<and>
    readIPUsageForUpdate flt ip (pg_time (time_instant (win_StartedAt window))) tx = Inr u \<and>
    \<not> exceeds (SessionsCreated u) 1 limit \<and>
    sql_checked_update ip_usage_row_check (ip_key ip (pg_time (time_instant (win_StartedAt window))))
      add_ip_session (anonymous_ip_usage tx) = Some rows \<and>
    d' = tx\<lparr>anonymous_ip_usage := rows\<rparr>"
  using assms unfolding pg_ConsumeSessionCreation_def Let_def
  by (auto simp: finish_def split: option.splits sum.splits if_splits dbcall.splits; simp add: eq_commute [of "Inl _"])

lemma pg_creation_accepts:
  assumes good: "quotas_good d" and "pg_ConsumeSessionCreation flt ip window limit d = (res, d')"
    and "d' \<noteq> d \<or> \<not> isl res"
  defines "k \<equiv> (ip, pg_time (time_instant (win_StartedAt window)))"
  shows "session_usage d' = session_usage d \<and> (ledger d \<longrightarrow> ledger d') \<and>
    ip_usage d' = (ip_usage d)(k := (ip_usage d k)\<lparr>SessionsCreated := SessionsCreated (ip_usage d k) + 1\<rparr>) \<and>
    SessionsCreated (ip_usage d' k) \<le> limit \<and> quotas_good d'"
proof -
  from pg_creation_path [OF assms(2,3)] obtain tx u rows
    where tx: "ensureIPUsage flt ip (snd k) d = Inr tx"
      and u: "readIPUsageForUpdate flt ip (snd k) tx = Inr u" and lim: "\<not> exceeds (SessionsCreated u) 1 limit"
      and rows: "sql_checked_update ip_usage_row_check (ip_key ip (snd k)) add_ip_session
        (anonymous_ip_usage tx) = Some rows"
      and d': "d' = tx\<lparr>anonymous_ip_usage := rows\<rparr>"
    by (auto simp: k_def)
  have k: "(ip, snd k) = k" by (simp add: k_def)
  note T = ensureIPUsage_ok [OF good tx, unfolded k]
  have u': "u = ip_usage d k" using readIPUsage_ok [OF u] T by (simp add: k)
  have "session_usage d' = session_usage d" and tot: "ip_totals d' = ip_totals d"
    using session_usage_only [of d' d] T by (simp_all add: d')
  moreover have ip: "ip_usage d' = (ip_usage d)(k := (ip_usage d k)\<lparr>SessionsCreated := SessionsCreated (ip_usage d k) + 1\<rparr>)"
    using ip_usage_update [OF rows add_row_keys(2) usage_of_added_ip_row(2)] T by (simp add: d' k)
  moreover have "quotas_good d'"
    using ip_update_good [OF rows add_row_keys(2)] T by (simp add: d')
  moreover have "ledger d'" if "ledger d" using that by (auto simp: ledger_def ip tot)
  ultimately show ?thesis using not_exceeds [OF lim] by (simp add: u')
qed

interpretation pg_quotas: quota_store "PostgresQuotaStore flt" session_usage ip_usage quotas_good
proof
  fix d :: "'z quota_db_scheme" and req
  assume good: "quotas_good d"
  obtain res d' where c: "pg_Consume flt req d = (res, d')" by fastforce
  note A = pg_consume_accepts [OF good c]
  show "snd (qs_Consume (PostgresQuotaStore flt) req d) = d \<or>
      consumed session_usage ip_usage req d (snd (qs_Consume (PostgresQuotaStore flt) req d))"
    using A by (auto simp: PostgresQuotaStore_def c)
  show "quotas_good (snd (qs_Consume (PostgresQuotaStore flt) req d))"
    using A good by (cases "d' = d") (auto simp: PostgresQuotaStore_def c)
next
  fix d d' :: "'z quota_db_scheme" and req dec
  assume good: "quotas_good d" and lim: "lim_BytesPerSession (qr_Limits req) \<le> MaxInt64"
    and "qs_Consume (PostgresQuotaStore flt) req d = (Inr dec, d')"
  then have c: "pg_Consume flt req d = (Inr dec, d')" by (simp add: PostgresQuotaStore_def)
  show "consumed session_usage ip_usage req d d' \<and>
      dec_Session dec = session_usage d' (qr_SessionID req, request_window req) \<and>
      dec_IP dec = ip_usage d' (qr_IPDigest req, request_window req)"
    using pg_consume_accepts [OF good c] lim by simp
next
  fix d :: "'z quota_db_scheme" and ip window limit
  assume good: "quotas_good d"
  obtain res d' where c: "pg_ConsumeSessionCreation flt ip window limit d = (res, d')" by fastforce
  note A = pg_creation_accepts [OF good c]
  have S: "snd (qs_ConsumeSessionCreation (PostgresQuotaStore flt) ip window limit d) = d'"
    by (simp add: PostgresQuotaStore_def c)
  show "snd (qs_ConsumeSessionCreation (PostgresQuotaStore flt) ip window limit d) = d \<or>
      (let d' = snd (qs_ConsumeSessionCreation (PostgresQuotaStore flt) ip window limit d);
           k = (ip, pg_time (time_instant (win_StartedAt window))) in
       session_usage d' = session_usage d \<and>
       ip_usage d' = (ip_usage d)(k := (ip_usage d k)\<lparr>SessionsCreated := SessionsCreated (ip_usage d k) + 1\<rparr>) \<and>
       SessionsCreated (ip_usage d' k) \<le> limit)"
    unfolding S Let_def using A by blast
  show "quotas_good (snd (qs_ConsumeSessionCreation (PostgresQuotaStore flt) ip window limit d))"
    unfolding S using A good by (cases "d' = d") simp_all
qed

end
