(* ===== verification/Session_Properties.thy ===== *)
theory Session_Properties
  imports Anon_Session
begin

text \<open>
  The properties of anonymous sessions: what a successful authentication shows, and the life of a
  capability, from its issue to its expiry or revocation, over runs of the store. What a session keeps
  through every call of the store is the locale \<open>session_history\<close>.
\<close>

subsection \<open>Runs\<close>

text \<open>
  A statement of the store that can change the table, with its arguments. A run is a list of them with the
  outcomes of their database calls: the requests of all clients, interleaved in any order,
  as \<open>manager_calls_are_runs\<close> shows for the operations of the manager.
\<close>

datatype session_call =
    Session_Create Session
  | Session_TouchActive string bytes instant
  | Session_Revoke string instant

fun session_step :: "faults \<times> session_call \<Rightarrow> 'z anon_db_scheme \<Rightarrow> 'z anon_db_scheme" where
  "session_step (flt, Session_Create s) d = snd (pg_session_Create flt s d)"
| "session_step (flt, Session_TouchActive sid ip t) d = snd (pg_session_TouchActive flt sid ip t d)"
| "session_step (flt, Session_Revoke sid t) d = snd (pg_session_Revoke flt sid t d)"

definition session_run :: "(faults \<times> session_call) list \<Rightarrow> 'z anon_db_scheme \<Rightarrow> 'z anon_db_scheme" where
  "session_run = fold session_step"

definition revokes :: "faults \<times> session_call \<Rightarrow> string \<Rightarrow> bool" where
  "revokes c sid \<longleftrightarrow> (case snd c of Session_Revoke sid' t \<Rightarrow> sid' = sid | _ \<Rightarrow> False)"

text \<open>What a stored session keeps.\<close>

definition session_lasts :: "Session \<Rightarrow> Session \<Rightarrow> bool" where
  "session_lasts s s' \<longleftrightarrow> sess_ID s' = sess_ID s \<and> sess_SecretDigest s' = sess_SecretDigest s \<and>
     sess_InitialIPDigest s' = sess_InitialIPDigest s \<and> sess_CreatedAt s' = sess_CreatedAt s \<and>
     sess_ExpiresAt s' = sess_ExpiresAt s \<and> sess_LastSeenAt s \<le> sess_LastSeenAt s' \<and>
     (Session_Revoked s \<longrightarrow> sess_RevokedAt s' = sess_RevokedAt s)"

lemma session_lasts_refl [simp]: "session_lasts s s"
  by (simp add: session_lasts_def)

lemma session_lasts_trans: "session_lasts a b \<Longrightarrow> session_lasts b c \<Longrightarrow> session_lasts a c"
  by (auto simp: session_lasts_def Session_Revoked_def)

locale session_history =
  fixes step :: "'c \<Rightarrow> 'd \<Rightarrow> 'd"
    and good :: "'d \<Rightarrow> bool"
    and sessions :: "'d \<Rightarrow> string \<Rightarrow> Session option"
    and ends :: "'c \<Rightarrow> string \<Rightarrow> bool"
  assumes step_good: "good d \<Longrightarrow> good (step c d)"
    and step_lasts: "good d \<Longrightarrow> sessions d sid = Some s \<Longrightarrow> \<exists>s'. sessions (step c d) sid = Some s' \<and>
      session_lasts s s' \<and> (\<not> ends c sid \<longrightarrow> sess_RevokedAt s' = sess_RevokedAt s)"
begin

lemma run_good: "good d \<Longrightarrow> good (fold step calls d)"
  by (induction calls arbitrary: d) (simp_all add: step_good)

lemma run_lasts:
  assumes "good d" and "sessions d sid = Some s"
  shows "\<exists>s'. sessions (fold step calls d) sid = Some s' \<and> session_lasts s s' \<and>
    ((\<forall>c \<in> set calls. \<not> ends c sid) \<longrightarrow> sess_RevokedAt s' = sess_RevokedAt s)"
  using assms
proof (induction calls arbitrary: d s)
  case (Cons c calls)
  obtain a where a: "sessions (step c d) sid = Some a" "session_lasts s a"
      "\<not> ends c sid \<longrightarrow> sess_RevokedAt a = sess_RevokedAt s"
    using step_lasts [OF Cons.prems] by blast
  from Cons.IH [OF step_good [OF Cons.prems(1)] a(1)] a(2,3) session_lasts_trans show ?case by fastforce
qed simp

end

lemma updated_session:
  assumes good: "sessions_good d" and s: "stored_sessions d sid = Some s"
    and f: "\<And>r. as_id (f r) = as_id r" "\<And>r. as_secret_hash (f r) = as_secret_hash r" "\<And>r. as_expires_at (f r) = as_expires_at r"
    and rows: "sql_checked_update session_row_check P f (anonymous_session d) = Some rows"
  obtains r where "s = session_of r" and "as_id r = sid"
    and "stored_sessions (d\<lparr>anonymous_session := rows\<rparr>) sid = Some (session_of (if P r then f r else r))"
proof -
  obtain r where r: "find (\<lambda>r. as_id r = sid) (anonymous_session d) = Some r" "s = session_of r"
    using s by (auto simp: stored_sessions_def)
  with session_checked_update_good(2) [OF good f rows, of sid] find_Some_in [OF r(1)] that show thesis by auto
qed

lemma created_session_kept:
  assumes "stored_sessions d sid = Some s"
  shows "stored_sessions (snd (pg_session_Create flt n d)) sid = Some s"
  using assms by (auto simp: pg_session_Create_def Let_def finish_def stored_sessions_def find_key_append
      split: option.splits dbcall.splits)

lemma session_step_lasts:
  assumes good: "sessions_good d" and s: "stored_sessions d sid = Some s"
  shows "\<exists>s'. stored_sessions (session_step c d) sid = Some s' \<and> session_lasts s s' \<and>
    (\<not> revokes c sid \<longrightarrow> sess_RevokedAt s' = sess_RevokedAt s)"
proof -
  obtain flt call where c: "c = (flt, call)" by fastforce
  show ?thesis
  proof (cases call)
    case (Session_Create n)
    then show ?thesis using created_session_kept [OF s] c by simp
  next
    case (Session_TouchActive sid' ip t)
    have "session_step c d = d \<or> (\<exists>rows. sql_checked_update session_row_check (touch_matches sid' (pg_time t))
        (touch_set ip (pg_time t)) (anonymous_session d) = Some rows \<and> session_step c d = d\<lparr>anonymous_session := rows\<rparr>)"
      unfolding c Session_TouchActive
      by (auto simp: pg_session_TouchActive_def Let_def finish_def split: option.split dbcall.split)
    then show ?thesis
    proof (elim disjE exE conjE)
      fix rows assume rows: "sql_checked_update session_row_check (touch_matches sid' (pg_time t))
          (touch_set ip (pg_time t)) (anonymous_session d) = Some rows" "session_step c d = d\<lparr>anonymous_session := rows\<rparr>"
      show ?thesis
        unfolding rows(2) by (rule updated_session [OF good s _ _ _ rows(1)])
          (simp_all add: session_lasts_def session_of_def touch_set_def)
    qed (use s in simp)
  next
    case (Session_Revoke sid' t)
    have "session_step c d = d \<or> (\<exists>rows. sql_checked_update session_row_check (\<lambda>r. as_id r = sid')
        (revoke_set (pg_time t)) (anonymous_session d) = Some rows \<and> session_step c d = d\<lparr>anonymous_session := rows\<rparr>)"
      unfolding c Session_Revoke
      by (auto simp: pg_session_Revoke_def Let_def finish_def split: option.split dbcall.split)
    then show ?thesis
    proof (elim disjE exE conjE)
      fix rows assume rows: "sql_checked_update session_row_check (\<lambda>r. as_id r = sid')
          (revoke_set (pg_time t)) (anonymous_session d) = Some rows" "session_step c d = d\<lparr>anonymous_session := rows\<rparr>"
      show ?thesis
        unfolding rows(2) by (rule updated_session [OF good s _ _ _ rows(1)])
          (auto simp: session_lasts_def session_of_def revoke_set_def Session_Revoked_def revokes_def c Session_Revoke)
    qed (use s in simp)
  qed
qed

lemma session_step_good: "sessions_good d \<Longrightarrow> sessions_good (session_step c d)"
  by (cases c, cases "snd c") (auto simp: pg_create_good pg_touch_good pg_revoke_good)

interpretation pg_history: session_history session_step sessions_good stored_sessions revokes
  by unfold_locales (simp_all add: session_step_good session_step_lasts)

text \<open>
  The operations of the manager are such runs, with the run of the other requests between their two
  statements; only \<open>Revoke\<close> has a revoking statement of its own.
\<close>

lemma manager_calls_are_runs:
  assumes "mgr_store manager = PostgresSessionStore flt"
  shows "\<exists>call. snd (anon_Manager_Create hmac random now manager clientIP d) = d
      \<or> snd (anon_Manager_Create hmac random now manager clientIP d) = session_run [(flt, Session_Create call)] d"
    and "\<exists>sid ip. snd (anon_Authenticate hmac now (session_run interim) manager raw clientIP d) \<in>
      {d, session_run (interim @ [(flt, Session_TouchActive sid ip now)]) d}"
    and "\<exists>sid. snd (anon_Revoke hmac now (session_run interim) manager raw d) \<in>
      {d, session_run (interim @ [(flt, Session_Revoke sid now)]) d}"
proof -
  note defs = session_run_def assms PostgresSessionStore_def
  show "\<exists>call. snd (anon_Manager_Create hmac random now manager clientIP d) = d
      \<or> snd (anon_Manager_Create hmac random now manager clientIP d) = session_run [(flt, Session_Create call)] d"
    by (auto simp: anon_Manager_Create_def defs Let_def split: sum.split prod.split) (metis snd_conv)+
  have get: "pg_session_Get flt sid d = (r, d') \<Longrightarrow> d' = d" for sid r d'
    using pg_get_state [of flt sid d] by simp
  show "\<exists>sid ip. snd (anon_Authenticate hmac now (session_run interim) manager raw clientIP d) \<in>
      {d, session_run (interim @ [(flt, Session_TouchActive sid ip now)]) d}"
    by (auto simp: anon_Authenticate_def defs Let_def split: sum.split prod.split option.split dest!: get) (metis snd_conv)+
  show "\<exists>sid. snd (anon_Revoke hmac now (session_run interim) manager raw d) \<in>
      {d, session_run (interim @ [(flt, Session_Revoke sid now)]) d}"
    by (auto simp: anon_Revoke_def defs Let_def split: sum.split prod.split option.split dest!: get)
qed

subsection \<open>Authentication\<close>

text \<open>A small database for the witnesses.\<close>

definition toy_manager :: "anon_db Manager" where
  "toy_manager = \<lparr>mgr_store = PostgresSessionStore (\<lambda>_. Call_Ok), mgr_pepper = toy_pepper, mgr_ttl = Hour\<rparr>"

definition toy_client :: Addr where
  "toy_client = Addr4 [192, 0, 2, 42]"

definition toy_issue :: "(anon_err + IssuedSession) \<times> anon_db" where
  "toy_issue = anon_Manager_Create toy_hmac (replicate 48 66) (1000 * Hour) toy_manager toy_client
     \<lparr>anonymous_session = []\<rparr>"

definition toy_issued :: IssuedSession where
  "toy_issued = (case fst toy_issue of Inr i \<Rightarrow> i)"

lemma toy_issue_ok: "anon_Manager_Create toy_hmac (replicate 48 66) (1000 * Hour) toy_manager toy_client
     \<lparr>anonymous_session = []\<rparr> = (Inr toy_issued, snd toy_issue)"
proof -
  have "\<not> isl (fst toy_issue)" by code_simp
  then show ?thesis
    unfolding toy_issued_def toy_issue_def [symmetric] by (cases "fst toy_issue") (auto simp: prod_eq_iff)
qed

lemma toy_expiry: "issued_ExpiresAt toy_issued = 1001 * Hour"
  by code_simp

lemma toy_good: "sessions_good \<lparr>anonymous_session = []\<rparr>"
  by (simp add: sessions_good_def)

lemma toy_digest: "\<exists>d. DigestIP toy_hmac (mgr_pepper toy_manager) toy_client = Inr d"
proof -
  have "\<not> isl (DigestIP toy_hmac (mgr_pepper toy_manager) toy_client)" by code_simp
  then show ?thesis by (cases "DigestIP toy_hmac (mgr_pepper toy_manager) toy_client") auto
qed

text \<open>
  C2. Authentication is safe under concurrency. When \<open>Authenticate\<close> succeeds against the
  PostgreSQL store, whatever other requests did between its two statements and whichever
  calls failed, the token parses under the manager's pepper to the reported session, the
  stored digest is the token's, and at the moment of the second statement the record
  existed, was not revoked and had not reached its exclusive expiry.
\<close>

theorem authenticated_session_is_active:
  fixes d :: "'z anon_db_scheme"
  assumes "sessions_good d" and "sessions_good (between d)"
    and "mgr_store manager = PostgresSessionStore flt"
    and "anon_Authenticate hmac now between manager raw clientIP d = (Inr identity, d')"
  shows "\<exists>s a. Parse hmac raw (mgr_pepper manager) = Inr (idn_SessionID identity, sess_SecretDigest s) \<and>
    stored_sessions d (idn_SessionID identity) = Some s \<and>
    stored_sessions (between d) (idn_SessionID identity) = Some a \<and>
    sess_RevokedAt a = None \<and> now < sess_ExpiresAt a \<and>
    idn_ExpiresAt identity = sess_ExpiresAt s"
  using pg_sessions.authenticate_sound [OF assms]
  by (metis Session_Expired_def Session_Revoked_def)

theorem authenticated_session_is_active_witness:
  "\<exists>identity d'. anon_Authenticate toy_hmac (1000 * Hour) (\<lambda>d. d) toy_manager (issued_Token toy_issued)
     toy_client (snd toy_issue) = (Inr identity, d') \<and>
   (\<exists>s a. Parse toy_hmac (issued_Token toy_issued) (mgr_pepper toy_manager)
      = Inr (idn_SessionID identity, sess_SecretDigest s) \<and>
    stored_sessions (snd toy_issue) (idn_SessionID identity) = Some s \<and>
    stored_sessions (snd toy_issue) (idn_SessionID identity) = Some a \<and>
    sess_RevokedAt a = None \<and> 1000 * Hour < sess_ExpiresAt a \<and>
    idn_ExpiresAt identity = sess_ExpiresAt s)"
proof -
  have st: "mgr_store toy_manager = PostgresSessionStore (\<lambda>_. Call_Ok)"
    by (simp add: toy_manager_def)
  have good: "sessions_good (snd toy_issue)"
    using pg_sessions.create_installs [OF toy_good st toy_issue_ok] by metis
  obtain dg where dg: "DigestIP toy_hmac (mgr_pepper toy_manager) toy_client = Inr dg"
    using toy_digest by blast
  obtain s where s: "stored_sessions (snd toy_issue) (issued_ID toy_issued) = Some s" "sess_RevokedAt s = None"
      "sess_ExpiresAt s = issued_ExpiresAt toy_issued"
    and p: "Parse toy_hmac (issued_Token toy_issued) (mgr_pepper toy_manager) = Inr (issued_ID toy_issued, sess_SecretDigest s)"
    by (rule pg_sessions.create_installs [OF toy_good st toy_issue_ok]) simp
  then obtain identity d' where a: "anon_Authenticate toy_hmac (1000 * Hour) (\<lambda>d. d) toy_manager
      (issued_Token toy_issued) toy_client (snd toy_issue) = (Inr identity, d')"
    using pg_responsive.authenticate_answer(3) [OF good st p s(1), of "1000 * Hour" "\<lambda>d. d" s toy_client dg] good s(1) dg
    by (auto simp: toy_expiry IsZero_def Session_Revoked_def Session_Expired_def)
  from authenticated_session_is_active [OF good good st a] a show ?thesis by blast
qed

subsection \<open>The life of a capability\<close>

text \<open>
  C3. A token lives until its expiry. Whatever statements of other requests and of
  the client itself have run since \<open>Create\<close> issued the token, with any failures, as long
  as none of them revokes its session, the token authenticates again, while the database answers, as
  its own session from any valid client address at every instant before the expiry that
  was reported to the client, also when other requests run between the two statements; its effect is one more such
  statement. From the reported expiry on it is refused as expired.
\<close>

theorem issued_token_authenticates:
  fixes d :: "'z anon_db_scheme"
  assumes "sessions_good d" and "mgr_store manager = PostgresSessionStore flt"
    and "anon_Manager_Create hmac random now manager clientIP d = (Inr issued, d1)"
    and "\<forall>c \<in> set (calls @ interim). \<not> revokes c (issued_ID issued)" and "d2 = session_run calls d1"
    and "mgr_store manager' = PostgresSessionStore (\<lambda>_. Call_Ok)" and "mgr_pepper manager' = mgr_pepper manager"
    and "\<not> IsZero later" and "DigestIP hmac (mgr_pepper manager) ip2 = Inr ipDigest"
  shows "issued_ExpiresAt issued = pg_time (now + mgr_ttl manager) \<and>
    anon_Authenticate hmac later (session_run interim) manager' (issued_Token issued) ip2 d2 =
      (if later < issued_ExpiresAt issued
       then (Inr \<lparr>idn_SessionID = issued_ID issued, idn_CreatedAt = pg_time now, idn_ExpiresAt = issued_ExpiresAt issued\<rparr>,
         session_run (calls @ interim @ [((\<lambda>_. Call_Ok), Session_TouchActive (issued_ID issued) ipDigest later)]) d1)
       else (Inl (Sentinel ErrSessionExpired), d2))"
proof -
  let ?sid = "issued_ID issued"
  obtain s where s: "stored_sessions d1 ?sid = Some s" "sess_RevokedAt s = None" "sess_CreatedAt s = pg_time now"
      "sess_ExpiresAt s = issued_ExpiresAt issued" "issued_ExpiresAt issued = pg_time (now + mgr_ttl manager)"
    and p: "Parse hmac (issued_Token issued) (mgr_pepper manager') = Inr (?sid, sess_SecretDigest s)" and g: "sessions_good d1"
    by (rule pg_sessions.create_installs [OF assms(1-3)]) (simp add: assms(7))
  have quiet: "\<forall>c \<in> set calls. \<not> revokes c ?sid" "\<forall>c \<in> set interim. \<not> revokes c ?sid" using assms(4) by simp_all
  note g2 = pg_history.run_good [OF g, of calls, folded session_run_def]
  note g3 = pg_history.run_good [OF g2, of interim, folded session_run_def]
  obtain s2 where s2: "stored_sessions (session_run calls d1) ?sid = Some s2" "session_lasts s s2" "sess_RevokedAt s2 = None"
    using pg_history.run_lasts [OF g s(1), of calls] quiet(1) s(2) by (auto simp: session_run_def)
  obtain s3 where s3: "stored_sessions (session_run interim (session_run calls d1)) ?sid = Some s3" "session_lasts s2 s3"
      "sess_RevokedAt s3 = None"
    using pg_history.run_lasts [OF g2 s2(1), of interim] quiet(2) s2(3) by (auto simp: session_run_def)
  have p2: "Parse hmac (issued_Token issued) (mgr_pepper manager') = Inr (?sid, sess_SecretDigest s2)"
    using p s2(2) by (simp add: session_lasts_def)
  note A = pg_responsive.authenticate_answer [OF g2 assms(6) p2 s2(1)]
  have run: "session_run (calls @ interim @ [c]) d1 = session_step c (session_run interim (session_run calls d1))" for c
    by (simp add: session_run_def)
  show ?thesis
    using A(2) [of later] A(3) [of later "session_run interim" s3 ip2 ipDigest] g3 s3(1) s s2 s3 assms(5,7-9)
    by (simp add: run session_lasts_def Session_Revoked_def Session_Expired_def PostgresSessionStore_def)
qed

text \<open>The token is used at two addresses and another session revoked before it is used again.\<close>

definition toy_uses :: "(faults \<times> session_call) list" where
  "toy_uses = [((\<lambda>_. Call_Ok), Session_TouchActive (issued_ID toy_issued) (replicate 32 7) (1000 * Hour + 5000)),
     ((\<lambda>_. Reply_Lost), Session_TouchActive (issued_ID toy_issued) (replicate 32 8) (1000 * Hour + 7000)),
     ((\<lambda>_. Call_Ok), Session_Revoke ''00000000-0000-4000-8000-000000000000'' (1000 * Hour + 8000))]"

theorem issued_token_authenticates_witness:
  "\<exists>identity d2. anon_Authenticate toy_hmac (1001 * Hour - 1) (session_run []) toy_manager
      (issued_Token toy_issued) toy_client (session_run toy_uses (snd toy_issue)) = (Inr identity, d2) \<and>
      idn_SessionID identity = issued_ID toy_issued \<and> idn_ExpiresAt identity = 1001 * Hour"
proof -
  obtain dg where "DigestIP toy_hmac (mgr_pepper toy_manager) toy_client = Inr dg"
    using toy_digest by blast
  moreover have "mgr_store toy_manager = PostgresSessionStore (\<lambda>_. Call_Ok)"
    by (simp add: toy_manager_def)
  moreover have "issued_ID toy_issued \<noteq> ''00000000-0000-4000-8000-000000000000''" by code_simp
  then have "\<forall>c \<in> set (toy_uses @ []). \<not> revokes c (issued_ID toy_issued)"
    by (simp add: toy_uses_def revokes_def)
  ultimately show ?thesis
    using issued_token_authenticates [OF toy_good _ toy_issue_ok, of _ toy_uses "[]" _ toy_manager "1001 * Hour - 1"]
    by (simp add: toy_expiry IsZero_def)
qed

text \<open>
  C4. Revocation is final for the token: once \<open>Revoke\<close> has reported success, the token never
  authenticates again, after any later statements of the store with any failures, at any clock
  reading, from any address, with any concurrent activity; when the database
  answers, it is refused as revoked.
\<close>

theorem revoked_token_is_dead:
  fixes d :: "'z anon_db_scheme"
  assumes "sessions_good d" and "sessions_good (between d)"
    and "mgr_store manager = PostgresSessionStore flt"
    and "anon_Revoke hmac now between manager raw d = (None, d')"
    and "mgr_store manager' = PostgresSessionStore flt'"
    and "mgr_pepper manager' = mgr_pepper manager"
  shows "fst (anon_Authenticate hmac later between' manager' raw clientIP (session_run calls d')) \<noteq> Inr identity \<and>
    (between = session_run interim \<and> flt' = (\<lambda>_. Call_Ok) \<longrightarrow>
      anon_Authenticate hmac later between' manager' raw clientIP (session_run calls d') =
        (Inl (Sentinel ErrSessionRevoked), session_run calls d'))"
proof -
  obtain sid s0 s where p: "Parse hmac raw (mgr_pepper manager') = Inr (sid, sess_SecretDigest s0)"
      and s: "stored_sessions d sid = Some s0" "stored_sessions d' sid = Some s" "Session_Revoked s" "sessions_good d'"
      and a: "s = s0 \<or> (\<exists>a. stored_sessions (between d) sid = Some a \<and> sess_SecretDigest s = sess_SecretDigest a)"
    by (rule pg_sessions.revoke_marks [OF assms(1-4)]) (simp add: assms(6))
  note g = pg_history.run_good [OF s(4), of calls, folded session_run_def]
  obtain s2 where s2: "stored_sessions (session_run calls d') sid = Some s2" "session_lasts s s2"
    using pg_history.run_lasts [OF s(4,2), of calls] by (auto simp: session_run_def)
  have dead: "Session_Revoked s2" using s2(2) s(3) by (simp add: session_lasts_def Session_Revoked_def)
  have "sess_SecretDigest s = sess_SecretDigest s0" if "between = session_run interim"
    using a pg_history.run_lasts [OF assms(1) s(1), of interim] that by (auto simp: session_run_def session_lasts_def)
  then have "Parse hmac raw (mgr_pepper manager') = Inr (sid, sess_SecretDigest s2)" if "between = session_run interim"
    using p s2(2) that by (simp add: session_lasts_def)
  then show ?thesis
    using pg_sessions.revoked_cannot_authenticate [OF g assms(5) p s2(1) dead]
      pg_responsive.authenticate_answer(1) [OF g _ _ s2(1) dead] assms(5) by simp
qed

definition toy_revoked :: "anon_sentinel check \<times> anon_db" where
  "toy_revoked = anon_Revoke toy_hmac (1000 * Hour + 5000) (session_run []) toy_manager
     (issued_Token toy_issued) (snd toy_issue)"

theorem revoked_token_is_dead_witness:
  "fst (anon_Authenticate toy_hmac (1000 * Hour + 9000) (\<lambda>d. d) toy_manager
     (issued_Token toy_issued) toy_client (session_run toy_uses (snd toy_revoked))) = Inl (Sentinel ErrSessionRevoked)"
proof -
  have st: "mgr_store toy_manager = PostgresSessionStore (\<lambda>_. Call_Ok)"
    by (simp add: toy_manager_def)
  have good: "sessions_good (snd toy_issue)"
    using pg_sessions.create_installs [OF toy_good st toy_issue_ok] by metis
  then have good': "sessions_good (session_run [] (snd toy_issue))" by (simp add: session_run_def)
  have "fst toy_revoked = None" by code_simp
  then have r: "anon_Revoke toy_hmac (1000 * Hour + 5000) (session_run []) toy_manager
     (issued_Token toy_issued) (snd toy_issue) = (None, snd toy_revoked)"
    by (simp add: toy_revoked_def prod_eq_iff)
  show ?thesis
    using revoked_token_is_dead [OF good good' st r st refl, of _ "\<lambda>d. d" toy_client toy_uses _ "[]"] by simp
qed

end
