(* ===== verification/Quota_Properties.thy ===== *)
theory Quota_Properties
  imports Anon_Quota Session_Properties
begin

text \<open>
  The properties of quotas: a consumption that fits is accepted, the counters of the two tables agree in every
  state that the manager reaches, and no limit is ever exceeded.
\<close>

subsection \<open>A consumption that fits is accepted\<close>

lemma scoped_limits_admit:
  assumes "fits_limits scope limits (add_delta u delta)"
    and "0 \<le> UploadsStarted u" "0 \<le> JobsCreated u" "0 \<le> BytesCommitted u"
    and "0 \<le> delta_UploadsStarted delta" "0 \<le> delta_JobsCreated delta" "0 \<le> delta_BytesCommitted delta"
    and "case scoped_limits scope limits of (a, b, c) \<Rightarrow> a \<le> MaxInt64 \<and> b \<le> MaxInt64 \<and> c \<le> MaxInt64"
  shows "checkScopedLimits scope u delta limits at = None"
  using assms
  by (auto simp: fits_limits_def checkScopedLimits_def add_delta_def exceeds_def split: prod.splits)

lemma session_usage_nonneg:
  assumes "quotas_good d"
  shows "0 \<le> UploadsStarted (session_usage d k)" "0 \<le> JobsCreated (session_usage d k)"
    "0 \<le> BytesCommitted (session_usage d k)"
  using assms
  by (auto simp: session_usage_def session_sums_def Let_def quotas_good_def list_all_iff
      usage_row_check_def intro!: sum_rows_nonneg)

lemma ip_usage_nonneg:
  assumes "quotas_good d"
  shows "0 \<le> UploadsStarted (ip_usage d k)" "0 \<le> JobsCreated (ip_usage d k)" "0 \<le> BytesCommitted (ip_usage d k)"
  using assms
  by (auto simp: ip_usage_def zero_usage_def usage_of_ip_row_def quotas_good_def list_all_iff
      ip_usage_row_check_def dest!: find_Some_in split: option.split)

lemma usage_row_below_sum:
  assumes "quotas_good d" and "r \<in> set (anonymous_usage d)"
    and "k = (au_session_id r, au_window_started_at r)"
  shows "au_uploads_started r \<le> UploadsStarted (session_usage d k)"
    "au_jobs_created r \<le> JobsCreated (session_usage d k)"
    "au_bytes_committed r \<le> BytesCommitted (session_usage d k)"
  using assms
  by (auto simp: session_usage_def session_sums_def Let_def quotas_good_def list_all_iff
      usage_row_check_def intro!: sum_rows_member)

lemma upsert_admits:
  assumes good: "quotas_good d" and "length ip = 32"
    and "0 \<le> delta_UploadsStarted delta" "0 \<le> delta_JobsCreated delta" "0 \<le> delta_BytesCommitted delta"
    and "UploadsStarted (add_delta (session_usage d (sid, w)) delta) \<le> MaxInt32"
      "JobsCreated (add_delta (session_usage d (sid, w)) delta) \<le> MaxInt32"
      "BytesCommitted (add_delta (session_usage d (sid, w)) delta) \<le> MaxInt64"
  shows "\<exists>rows. upsert_usage sid ip w delta (anonymous_usage d) = Some rows"
proof -
  note N = session_usage_nonneg [OF good, of "(sid, w)"]
  have "usage_row_check (add_usage_row delta r)"
    if r: "r \<in> set (anonymous_usage d)" "usage_key sid ip w r" for r
    using usage_row_below_sum [OF good r(1), of "(sid, w)"] assms N r
    by (auto simp: usage_row_check_def add_usage_row_def add_delta_def quotas_good_def list_all_iff)
  with N assms show ?thesis
    by (auto simp: upsert_usage_def Let_def sql_checked_update_def usage_row_check_def add_delta_def list_all_iff)
qed

lemma ip_update_admits:
  assumes good: "quotas_good d"
    and "0 \<le> delta_UploadsStarted delta" "0 \<le> delta_JobsCreated delta" "0 \<le> delta_BytesCommitted delta"
    and "UploadsStarted (add_delta (ip_usage d (ip, w)) delta) \<le> MaxInt64"
      "JobsCreated (add_delta (ip_usage d (ip, w)) delta) \<le> MaxInt64"
      "BytesCommitted (add_delta (ip_usage d (ip, w)) delta) \<le> MaxInt64"
  shows "\<exists>rows. sql_checked_update ip_usage_row_check (ip_key ip w) (add_ip_row delta)
    (anonymous_ip_usage d) = Some rows"
proof -
  have "ip_usage_row_check (add_ip_row delta r)"
    if r: "r \<in> set (anonymous_ip_usage d)" "ip_key ip w r" for r
  proof -
    have "find (\<lambda>q. ip_row_key q = ip_row_key r) (anonymous_ip_usage d) = Some r"
      using good r(1) by (intro find_distinct_key) (simp_all add: quotas_good_def)
    with r(2) have "ip_usage d (ip, w) = usage_of_ip_row r" by (auto simp: ip_usage_def)
    with assms r show ?thesis
      by (auto simp: ip_usage_row_check_def add_ip_row_def add_delta_def usage_of_ip_row_def quotas_good_def list_all_iff)
  qed
  then show ?thesis by (simp add: sql_checked_update_def list_all_iff)
qed

lemma responsive_ensure:
  assumes "quotas_good d" and "length ip = 32"
  obtains tx where "ensureIPUsage (\<lambda>_. Call_Ok) ip w d = Inr tx"
  using assms that
  by (cases "list_ex (ip_key ip w) (anonymous_ip_usage d)")
    (simp_all add: ensureIPUsage_def Let_def ip_usage_row_check_def)

lemma responsive_read:
  "(ip, w) \<in> ip_row_key ` set (anonymous_ip_usage d) \<Longrightarrow>
    readIPUsageForUpdate (\<lambda>_. Call_Ok) ip w d = Inr (ip_usage d (ip, w))"
  by (auto simp: readIPUsageForUpdate_def ip_usage_def find_None_iff_in split: option.split)

lemma pg_Consume_admits:
  assumes good: "quotas_good d" and len: "length (qr_IPDigest req) = 32"
    and v: "validateQuotaRequest req = (None :: anon_sentinel check)"
    and active: "list_ex (touch_matches (qr_SessionID req) (pg_time (qr_ObservedAt req))) (anonymous_session d)"
    and lb: "lim_BytesPerSession (qr_Limits req) \<le> MaxInt64" "lim_BytesPerIP (qr_Limits req) \<le> MaxInt64"
    and fs: "fits_limits QuotaScopeSession (qr_Limits req)
      (add_delta (session_usage d (qr_SessionID req, request_window req)) (qr_Delta req))"
    and fi: "fits_limits QuotaScopeIP (qr_Limits req)
      (add_delta (ip_usage d (qr_IPDigest req, request_window req)) (qr_Delta req))"
  shows "\<not> isl (fst (pg_Consume (\<lambda>_. Call_Ok) req d))"
proof -
  define w sid ip delta limits where "w = request_window req" and "sid = qr_SessionID req"
    and "ip = qr_IPDigest req" and "delta = qr_Delta req" and "limits = qr_Limits req"
  note defs = w_def [symmetric] sid_def [symmetric] ip_def [symmetric] delta_def [symmetric] limits_def [symmetric]
  obtain tx where tx: "ensureIPUsage (\<lambda>_. Call_Ok) ip w d = Inr tx"
    using responsive_ensure [OF good, of ip w] len by (auto simp: ip_def)
  note T = ensureIPUsage_ok [OF good tx]
  then have goodx: "quotas_good tx" and ipx: "ip_usage tx = ip_usage d"
    and sx: "session_usage tx = session_usage d"
    using session_usage_only [of tx d] by blast+
  note R = request_delta_range [OF v, unfolded defs]
  have lims: "lim_UploadsPerSession limits \<le> MaxInt32" "lim_JobsPerSession limits \<le> MaxInt32"
      "lim_UploadsPerIP limits \<le> MaxInt32" "lim_JobsPerIP limits \<le> MaxInt32"
    using v by (simp_all add: validateQuotaRequest_def QuotaLimits_Validate_None limits_def
        split: if_splits option.splits)
  let ?sU = "session_usage d (sid, w)" and ?iU = "ip_usage d (ip, w)"
  note fs' = fs [unfolded defs] and fi' = fi [unfolded defs]
  note NS = session_usage_nonneg [OF good, of "(sid, w)"] and NI = ip_usage_nonneg [OF good, of "(ip, w)"]
  have BS: "UploadsStarted (add_delta ?sU delta) \<le> MaxInt32" "JobsCreated (add_delta ?sU delta) \<le> MaxInt32"
      "BytesCommitted (add_delta ?sU delta) \<le> MaxInt64"
    using fs' lims lb by (auto simp: fits_limits_def scoped_limits_def defs)
  have BI: "UploadsStarted (add_delta ?iU delta) \<le> MaxInt64" "JobsCreated (add_delta ?iU delta) \<le> MaxInt64"
      "BytesCommitted (add_delta ?iU delta) \<le> MaxInt64"
    using fi' lims lb by (auto simp: fits_limits_def scoped_limits_def defs)
  have "session_sums sid w tx = ?sU" using fun_cong [OF sx, of "(sid, w)"] by (simp add: session_usage_def)
  then have rs: "readSessionUsage (\<lambda>_. Call_Ok) sid w tx = Inr ?sU"
    using BS NS R by (simp add: readSessionUsage_def Let_def fits_int64_def add_delta_def)
  have cs: "checkScopedLimits QuotaScopeSession ?sU delta limits at = None" for at
    using R NS lims lb by (intro scoped_limits_admit [OF fs']) (auto simp: scoped_limits_def defs)
  have ci: "checkScopedLimits QuotaScopeIP ?iU delta limits at = None" for at
    using R NI lims lb by (intro scoped_limits_admit [OF fi']) (auto simp: scoped_limits_def defs)
  obtain ur where ur: "upsert_usage sid ip w delta (anonymous_usage tx) = Some ur"
    using upsert_admits [OF goodx, of ip delta sid w] len BS R sx by (auto simp: defs)
  obtain ir where ir: "sql_checked_update ip_usage_row_check (ip_key ip w) (add_ip_row delta)
      (anonymous_ip_usage tx) = Some ir"
    using ip_update_admits [OF goodx, of delta ip w] BI R ipx by (auto simp: defs)
  have rd: "readIPUsageForUpdate (\<lambda>_. Call_Ok) ip w tx = Inr ?iU"
    using responsive_read [of ip w tx] T by simp
  show ?thesis
    using v active tx rd rs cs ci ur ir
    by (simp add: pg_Consume_def Let_def request_window_def [symmetric] lockActiveSession_def defs)
qed

subsection \<open>Runs of the manager\<close>

text \<open>
  One call of the manager: its clock reading, the outcomes of its database calls, and the
  operation. Transactions hold the row lock of their address counters from the first
  statement, so the calls of concurrent requests take effect one after the other.
\<close>

datatype quota_call =
    Call_Session Addr
  | Call_Upload string Addr
  | Call_Job string Addr
  | Call_Bytes string Addr int

definition quota_step ::
    "hmac \<Rightarrow> bytes \<Rightarrow> QuotaLimits \<Rightarrow> instant \<times> faults \<times> quota_call \<Rightarrow> 'z quota_db_scheme \<Rightarrow> 'z quota_db_scheme" where
  "quota_step hmac pepper limits event d =
     (case event of (now, flt, call) \<Rightarrow>
        let manager = \<lparr>qm_store = PostgresQuotaStore flt, qm_pepper = pepper, qm_limits = limits\<rparr> in
        case call of
          Call_Session ip \<Rightarrow> snd (qm_ConsumeSessionCreation hmac now manager ip d)
        | Call_Upload sid ip \<Rightarrow> snd (qm_ConsumeUploadStart hmac now manager sid ip d)
        | Call_Job sid ip \<Rightarrow> snd (qm_ConsumeJobCreation hmac now manager sid ip d)
        | Call_Bytes sid ip n \<Rightarrow> snd (qm_ConsumeCommittedBytes hmac now manager sid ip n d))"

definition quota_run ::
    "hmac \<Rightarrow> bytes \<Rightarrow> QuotaLimits \<Rightarrow> (instant \<times> faults \<times> quota_call) list \<Rightarrow> 'z quota_db_scheme \<Rightarrow> 'z quota_db_scheme" where
  "quota_run hmac pepper limits = fold (quota_step hmac pepper limits)"

lemmas manager_calls = qm_ConsumeUploadStart_def qm_ConsumeJobCreation_def qm_ConsumeCommittedBytes_def

lemma quota_step_cases:
  obtains (same) "quota_step hmac pepper limits event d = d"
  | (consume) flt req where "qr_Limits req = limits" and "quota_step hmac pepper limits event d = snd (pg_Consume flt req d)"
  | (creation) flt ip window where "quota_step hmac pepper limits event d =
      snd (pg_ConsumeSessionCreation flt ip window (lim_SessionsPerIP limits) d)"
proof -
  obtain now flt call where e: "event = (now, flt, call)" by (metis prod_cases3)
  have m: thesis
    if step: "quota_step hmac pepper limits event d = snd (qm_consume hmac now
        \<lparr>qm_store = PostgresQuotaStore flt, qm_pepper = pepper, qm_limits = limits\<rparr> sid ip delta d)"
    for sid ip delta
  proof (cases "DigestIP hmac pepper ip")
    case (Inl err)
    then show ?thesis using same step by (simp add: qm_consume_def)
  next
    case (Inr digest)
    show ?thesis
      by (rule consume [of "\<lparr>qr_SessionID = sid, qr_IPDigest = digest, qr_Window = quota_window limits (GoTime now UTC),
            qr_ObservedAt = now, qr_Delta = delta, qr_Limits = limits\<rparr>" flt])
        (simp_all add: step Inr qm_consume_def PostgresQuotaStore_def)
  qed
  show thesis
  proof (cases call)
    case (Call_Session ip)
    then show thesis using same creation
      by (cases "DigestIP hmac pepper ip")
        (simp_all add: quota_step_def e qm_ConsumeSessionCreation_def PostgresQuotaStore_def Let_def)
  next
    case (Call_Upload sid ip)
    then show thesis by (intro m) (simp add: quota_step_def e manager_calls)
  next
    case (Call_Job sid ip)
    then show thesis by (intro m) (simp add: quota_step_def e manager_calls)
  next
    case (Call_Bytes sid ip n)
    then show thesis using same
      by (cases "n \<le> 0") (simp_all add: quota_step_def e manager_calls m)
  qed
qed

lemma quota_step_preserves:
  assumes good: "quotas_good d"
  shows "quotas_good (quota_step hmac pepper limits event d)"
    and "ledger d \<Longrightarrow> ledger (quota_step hmac pepper limits event d)"
    and "within_quota session_usage ip_usage limits d \<Longrightarrow>
      within_quota session_usage ip_usage limits (quota_step hmac pepper limits event d)"
proof -
  have "quotas_good (quota_step hmac pepper limits event d) \<and>
    (ledger d \<longrightarrow> ledger (quota_step hmac pepper limits event d)) \<and>
    (within_quota session_usage ip_usage limits d \<longrightarrow>
      within_quota session_usage ip_usage limits (quota_step hmac pepper limits event d))"
  proof (cases rule: quota_step_cases [of hmac pepper limits event d])
    case same
    then show ?thesis using good by simp
  next
    case (consume flt req)
    obtain res d' where c: "pg_Consume flt req d = (res, d')" by fastforce
    have step: "quota_step hmac pepper limits event d = d'" using consume(2) c by simp
    show ?thesis
      unfolding step
      unfolding consume(1) [symmetric]
      using pg_consume_accepts [OF good c] pg_quotas.consume_within [OF good, of req flt] good
      by (cases "d' = d") (simp_all add: PostgresQuotaStore_def c)
  next
    case (creation flt ip window)
    obtain res d' where c: "pg_ConsumeSessionCreation flt ip window (lim_SessionsPerIP limits) d = (res, d')"
      by fastforce
    have step: "quota_step hmac pepper limits event d = d'" using creation c by simp
    show ?thesis
      unfolding step
      using pg_creation_accepts [OF good c] pg_quotas.creation_within [OF good, of limits flt ip window] good
      by (cases "d' = d") (simp_all add: PostgresQuotaStore_def c)
  qed
  then show "quotas_good (quota_step hmac pepper limits event d)"
    and "ledger d \<Longrightarrow> ledger (quota_step hmac pepper limits event d)"
    and "within_quota session_usage ip_usage limits d \<Longrightarrow>
      within_quota session_usage ip_usage limits (quota_step hmac pepper limits event d)"
    by blast+
qed

lemma quota_run_preserves:
  assumes "quotas_good d"
  shows "quotas_good (quota_run hmac pepper limits events d)"
    and "ledger d \<Longrightarrow> ledger (quota_run hmac pepper limits events d)"
    and "within_quota session_usage ip_usage limits d \<Longrightarrow>
      within_quota session_usage ip_usage limits (quota_run hmac pepper limits events d)"
  using assms
  by (induction events arbitrary: d) (simp_all add: quota_run_def quota_step_preserves)

subsection \<open>Properties\<close>

text \<open>
  A small example for the witnesses: one session, an upload whose commit reply is lost, a
  second upload that the first one's counters now deny, and committed bytes.
\<close>

definition toy_limits :: QuotaLimits where
  "toy_limits = \<lparr>lim_Window = Hour, lim_SessionsPerIP = 1, lim_UploadsPerSession = 1, lim_UploadsPerIP = 2,
     lim_JobsPerSession = 1, lim_JobsPerIP = 2, lim_BytesPerSession = 100, lim_BytesPerIP = 150\<rparr>"

definition toy_quota_db :: quota_db where
  "toy_quota_db = \<lparr>anonymous_session = anonymous_session (snd toy_issue),
     anonymous_usage = [], anonymous_ip_usage = []\<rparr>"

definition toy_events :: "(instant \<times> faults \<times> quota_call) list" where
  "toy_events = [(1000 * Hour + 7, (\<lambda>_. Call_Ok), Call_Session toy_client),
     (1000 * Hour + 8, (\<lambda>op. if op = ''commit consumption'' then Reply_Lost else Call_Ok), Call_Upload (issued_ID toy_issued) toy_client),
     (1000 * Hour + 9, (\<lambda>_. Call_Ok), Call_Upload (issued_ID toy_issued) toy_client),
     (1000 * Hour + 9, (\<lambda>_. Call_Ok), Call_Bytes (issued_ID toy_issued) toy_client 70)]"

lemma toy_quota_good: "quotas_good toy_quota_db" "ledger toy_quota_db"
    "within_quota session_usage ip_usage toy_limits toy_quota_db"
  by (simp_all add: quotas_good_def ledger_def within_quota_def toy_quota_db_def ip_totals_def ip_usage_def
      session_usage_def session_sums_def zero_usage_def fits_limits_def scoped_limits_def toy_limits_def)

text \<open>
  C5. Quotas are never exceeded. From a database inside the limits, whatever sequence of
  session, upload, job and byte consumptions the managers run, at any clock readings, from
  any addresses and with any pattern of failing, lost or successful database calls, no
  session and no address is ever above any limit in any window.
\<close>

theorem quota_limits_hold:
  fixes d :: "'z quota_db_scheme"
  assumes "quotas_good d" and "within_quota session_usage ip_usage limits d"
  shows "within_quota session_usage ip_usage limits (quota_run hmac pepper limits events d)"
  using assms by (rule quota_run_preserves(3))

theorem quota_limits_hold_witness:
  "within_quota session_usage ip_usage toy_limits
     (quota_run toy_hmac toy_pepper toy_limits toy_events toy_quota_db)"
  by (rule quota_limits_hold [OF toy_quota_good(1,3)])

text \<open>
  C6. The ledger balances: in every reachable database, what an address has used in a window
  is the sum of what the sessions have used from it in that window, for uploads, jobs and
  bytes; an aborted transaction, or one whose reply was lost, never separates the two tables.
\<close>

theorem quota_ledger_balances:
  fixes d :: "'z quota_db_scheme"
  assumes "quotas_good d" and "ledger d"
  shows "ip_totals (quota_run hmac pepper limits events d) (ip, w) =
    (ip_usage (quota_run hmac pepper limits events d) (ip, w))\<lparr>SessionsCreated := 0\<rparr>"
  using quota_run_preserves(2) [OF assms] by (simp add: ledger_def)

definition toy_digest_key :: "bytes \<times> instant" where
  "toy_digest_key = (case DigestIP toy_hmac toy_pepper toy_client of Inr digest \<Rightarrow> (digest, 1000 * Hour))"

theorem quota_ledger_balances_witness:
  "ip_totals (quota_run toy_hmac toy_pepper toy_limits toy_events toy_quota_db) toy_digest_key =
    (ip_usage (quota_run toy_hmac toy_pepper toy_limits toy_events toy_quota_db) toy_digest_key)\<lparr>SessionsCreated := 0\<rparr> \<and>
   ip_usage (quota_run toy_hmac toy_pepper toy_limits toy_events toy_quota_db) toy_digest_key =
    \<lparr>SessionsCreated = 1, UploadsStarted = 1, JobsCreated = 0, BytesCommitted = 70\<rparr>"
proof
  show "ip_totals (quota_run toy_hmac toy_pepper toy_limits toy_events toy_quota_db) toy_digest_key =
    (ip_usage (quota_run toy_hmac toy_pepper toy_limits toy_events toy_quota_db) toy_digest_key)\<lparr>SessionsCreated := 0\<rparr>"
    using quota_ledger_balances [OF toy_quota_good(1,2)] by (metis surj_pair)
  show "ip_usage (quota_run toy_hmac toy_pepper toy_limits toy_events toy_quota_db) toy_digest_key =
    \<lparr>SessionsCreated = 1, UploadsStarted = 1, JobsCreated = 0, BytesCommitted = 70\<rparr>"
    by code_simp
qed

text \<open>
  C7. Admission is exact. For an active session and a valid request, while the database
  answers, a consumption is accepted if and only if the counters it would produce are inside
  the limits of the session and inside the limits of the address: the 64-bit comparison
  never wraps, nothing is refused early and nothing is let through.
\<close>

theorem quota_admits_exactly:
  fixes d :: "'z quota_db_scheme"
  assumes "quotas_good d" and "length (qr_IPDigest req) = 32"
    and "validateQuotaRequest req = (None :: anon_sentinel check)"
    and "list_ex (touch_matches (qr_SessionID req) (pg_time (qr_ObservedAt req))) (anonymous_session d)"
    and "lim_BytesPerSession (qr_Limits req) \<le> MaxInt64" and "lim_BytesPerIP (qr_Limits req) \<le> MaxInt64"
  shows "\<not> isl (fst (pg_Consume (\<lambda>_. Call_Ok) req d)) \<longleftrightarrow>
    fits_limits QuotaScopeSession (qr_Limits req)
      (add_delta (session_usage d (qr_SessionID req, request_window req)) (qr_Delta req)) \<and>
    fits_limits QuotaScopeIP (qr_Limits req)
      (add_delta (ip_usage d (qr_IPDigest req, request_window req)) (qr_Delta req))"
  (is "?accepted \<longleftrightarrow> ?within")
proof
  obtain res d' where c: "pg_Consume (\<lambda>_. Call_Ok) req d = (res, d')" by fastforce
  assume ?accepted
  then show ?within
    using pg_consume_accepts [OF assms(1) c] by (auto simp: c consumed_def Let_def)
next
  assume ?within
  then show ?accepted using pg_Consume_admits [OF assms] by blast
qed

definition toy_request :: "int \<Rightarrow> QuotaRequest" where
  "toy_request n = \<lparr>qr_SessionID = issued_ID toy_issued, qr_IPDigest = fst toy_digest_key,
     qr_Window = quota_window toy_limits (GoTime (1000 * Hour + 9) UTC), qr_ObservedAt = 1000 * Hour + 9,
     qr_Delta = \<lparr>delta_UploadsStarted = 0, delta_JobsCreated = 1, delta_BytesCommitted = n\<rparr>,
     qr_Limits = toy_limits\<rparr>"

theorem quota_admits_exactly_witness:
  "\<not> isl (fst (pg_Consume (\<lambda>_. Call_Ok) (toy_request 100) toy_quota_db)) \<and>
   isl (fst (pg_Consume (\<lambda>_. Call_Ok) (toy_request 101) toy_quota_db))"
proof -
  have H: "length (qr_IPDigest (toy_request n)) = 32" "lim_BytesPerSession (qr_Limits (toy_request n)) \<le> MaxInt64"
      "lim_BytesPerIP (qr_Limits (toy_request n)) \<le> MaxInt64" for n
    by (simp_all add: toy_request_def toy_limits_def) code_simp
  have V: "\<forall>n \<in> {100, 101}. validateQuotaRequest (toy_request n) = (None :: anon_sentinel check) \<and>
      list_ex (touch_matches (qr_SessionID (toy_request n)) (pg_time (qr_ObservedAt (toy_request n))))
        (anonymous_session toy_quota_db)"
    by code_simp
  have F: "fits_limits QuotaScopeSession toy_limits (add_delta (session_usage toy_quota_db k) (qr_Delta (toy_request n))) \<longleftrightarrow> n \<le> 100"
      "fits_limits QuotaScopeIP toy_limits (add_delta (ip_usage toy_quota_db k') (qr_Delta (toy_request n))) \<longleftrightarrow> n \<le> 150"
    for k k' n
    by (simp_all add: fits_limits_def scoped_limits_def toy_limits_def add_delta_def session_usage_def
        session_sums_def ip_usage_def zero_usage_def toy_quota_db_def toy_request_def)
  have L: "qr_Limits (toy_request n) = toy_limits" for n by (simp add: toy_request_def)
  show ?thesis
    using quota_admits_exactly [OF toy_quota_good(1) H(1), of 100] quota_admits_exactly [OF toy_quota_good(1) H(1), of 101]
      V H(2,3)
    by (simp add: F [folded L] L)
qed

text \<open>
  C8. The decision is the truth. A consumption that the manager reports as accepted has
  added exactly its delta to one session's and one address's counters of the window that the
  clock is in, left all other counters alone, and the usage it returns is what the tables hold.
\<close>

theorem quota_decision_is_stored:
  fixes d :: "'z quota_db_scheme"
  assumes "quotas_good d" and "qm_store manager = PostgresQuotaStore flt"
    and "lim_BytesPerSession (qm_limits manager) \<le> MaxInt64"
    and "qm_consume hmac now manager sid clientIP delta d = (Inr dec, d')"
  shows "\<exists>digest. DigestIP hmac (qm_pepper manager) clientIP = Inr digest \<and>
    (let w = pg_time (Truncate now (lim_Window (qm_limits manager))) in
     session_usage d' = (session_usage d)((sid, w) := add_delta (session_usage d (sid, w)) delta) \<and>
     ip_usage d' = (ip_usage d)((digest, w) := add_delta (ip_usage d (digest, w)) delta) \<and>
     dec_Session dec = session_usage d' (sid, w) \<and> dec_IP dec = ip_usage d' (digest, w))"
proof -
  from assms(4) obtain digest where digest: "DigestIP hmac (qm_pepper manager) clientIP = Inr digest"
    and c: "qs_Consume (PostgresQuotaStore flt)
       \<lparr>qr_SessionID = sid, qr_IPDigest = digest, qr_Window = quota_window (qm_limits manager) (GoTime now UTC),
        qr_ObservedAt = now, qr_Delta = delta, qr_Limits = qm_limits manager\<rparr> d = (Inr dec, d')"
    by (auto simp: qm_consume_def assms(2) split: sum.splits)
  show ?thesis
    using pg_quotas.consume_ok [OF assms(1) _ c] assms(3) digest
    by (auto simp: consumed_def Let_def request_window_def quota_window_def time_Truncate_def)
qed

definition toy_quota_manager :: "quota_db QuotaManager" where
  "toy_quota_manager = \<lparr>qm_store = PostgresQuotaStore (\<lambda>_. Call_Ok), qm_pepper = toy_pepper, qm_limits = toy_limits\<rparr>"

definition toy_consumption :: "(anon_err + QuotaDecision) \<times> quota_db" where
  "toy_consumption = qm_consume toy_hmac (1000 * Hour + 9) toy_quota_manager (issued_ID toy_issued) toy_client
     \<lparr>delta_UploadsStarted = 0, delta_JobsCreated = 1, delta_BytesCommitted = 100\<rparr> toy_quota_db"

theorem quota_decision_is_stored_witness:
  "\<exists>dec. fst toy_consumption = Inr dec \<and> (\<exists>digest w. w = 1000 * Hour \<and>
     dec_Session dec = session_usage (snd toy_consumption) (issued_ID toy_issued, w) \<and>
     dec_IP dec = ip_usage (snd toy_consumption) (digest, w))"
proof -
  have "\<not> isl (fst toy_consumption)" by code_simp
  then obtain dec where dec: "toy_consumption = (Inr dec, snd toy_consumption)"
    by (cases "fst toy_consumption") (auto simp: prod_eq_iff)
  have w: "pg_time (Truncate (1000 * Hour + 9) (lim_Window (qm_limits toy_quota_manager))) = 1000 * Hour"
    by code_simp
  have H: "qm_store toy_quota_manager = PostgresQuotaStore (\<lambda>_. Call_Ok)"
      "lim_BytesPerSession (qm_limits toy_quota_manager) \<le> MaxInt64"
    by (simp_all add: toy_quota_manager_def toy_limits_def)
  from quota_decision_is_stored [OF toy_quota_good(1) H dec [unfolded toy_consumption_def]]
  show ?thesis using dec unfolding Let_def w toy_consumption_def [symmetric] by (metis fst_conv)
qed

lemma window_seconds:
  assumes "0 < k" and "k smod Second = (0 :: int)"
  shows "Second dvd k"
  using assms by (simp add: signed_modulo_int_def dvd_eq_mod_eq_0)

lemma truncate_bounds: "0 < k \<Longrightarrow> Truncate t k \<le> t \<and> t < Truncate t k + k"
  using pos_mod_bound [of k t] pos_mod_sign [of k t] by (simp add: Truncate_def)

lemma truncate_dvd: "0 < k \<Longrightarrow> k dvd Truncate t k"
  by (simp add: Truncate_def minus_mod_eq_mult_div)

lemma truncate_unique:
  assumes "0 < k" and "Truncate s k \<le> t" and "t < Truncate s k + k"
  shows "Truncate t k = Truncate s k"
proof -
  obtain q where q: "Truncate s k = k * q" using truncate_dvd [OF assms(1)] by (auto elim: dvdE)
  have "t div k = q" using assms q by (intro int_div_pos_eq [of _ _ _ "t - k * q"]) auto
  then show ?thesis using assms(1) q by (simp add: Truncate_def minus_mod_eq_mult_div)
qed

text \<open>
  Windows partition time. With validated limits, the window computed for an instant
  contains it, lasts the configured duration, has a start that PostgreSQL stores without
  rounding, passes the window validation, and is the same for every instant it contains and
  for no other, so that each instant is accounted for in exactly one window.
\<close>

lemma quota_windows_partition:
  assumes "QuotaLimits_Validate limits = (None :: anon_sentinel check)" and "lim_Window limits \<le> now"
  defines "w \<equiv> quota_window limits (GoTime now UTC)"
  shows "time_instant (win_StartedAt w) \<le> now \<and> now < time_instant (win_EndsAt w) \<and>
    time_instant (win_EndsAt w) = time_instant (win_StartedAt w) + lim_Window limits \<and>
    pg_time (time_instant (win_StartedAt w)) = time_instant (win_StartedAt w) \<and>
    QuotaWindow_validate w (lim_Window limits) now = (None :: anon_sentinel check) \<and>
    (quota_window limits (GoTime t UTC) = w \<longleftrightarrow>
      time_instant (win_StartedAt w) \<le> t \<and> t < time_instant (win_EndsAt w))"
proof -
  let ?k = "lim_Window limits" and ?s = "Truncate now (lim_Window limits)"
  have k: "0 < ?k" and sec: "Second dvd ?k"
    using assms(1) window_seconds [of ?k] by (auto simp: QuotaLimits_Validate_None)
  have w: "w = \<lparr>win_StartedAt = GoTime ?s UTC, win_EndsAt = GoTime (?s + ?k) UTC\<rparr>"
    by (simp add: w_def quota_window_def Let_def time_Truncate_def time_Add_def)
  note B = truncate_bounds [OF k, of now]
  have "(1000 :: int) dvd Second" by simp
  then have "1000 dvd ?s" using sec truncate_dvd [OF k, of now] dvd_trans by blast
  then have pg: "pg_time ?s = ?s" by (simp add: pg_time_def)
  have pos: "0 < ?s"
  proof -
    have "?s = ?k * (now div ?k)" using k by (simp add: Truncate_def minus_mod_eq_mult_div)
    moreover have "0 < now div ?k" using k assms(2) by (simp add: pos_imp_zdiv_pos_iff)
    ultimately show ?thesis using k by simp
  qed
  have same: "quota_window limits (GoTime t UTC) = w \<longleftrightarrow> ?s \<le> t \<and> t < ?s + ?k"
    using truncate_bounds [OF k, of t] truncate_unique [OF k, of now t]
    by (auto simp: w quota_window_def Let_def time_Truncate_def time_Add_def)
  show ?thesis using B pg pos k same by (simp add: w QuotaWindow_validate_def Let_def IsZero_def)
qed

lemma quota_windows_partition_witness:
  "quota_window toy_limits (GoTime (1000 * Hour + 5) UTC) = quota_window toy_limits (GoTime (1001 * Hour - 1) UTC) \<and>
   quota_window toy_limits (GoTime (1000 * Hour + 5) UTC) \<noteq> quota_window toy_limits (GoTime (1001 * Hour) UTC)"
proof -
  have v: "QuotaLimits_Validate toy_limits = (None :: anon_sentinel check)" "lim_Window toy_limits \<le> 1000 * Hour + 5"
    by code_simp+
  have s: "time_instant (win_StartedAt (quota_window toy_limits (GoTime (1000 * Hour + 5) UTC))) = 1000 * Hour"
      "time_instant (win_EndsAt (quota_window toy_limits (GoTime (1000 * Hour + 5) UTC))) = 1001 * Hour"
    by code_simp+
  show ?thesis
    using quota_windows_partition [OF v, of "1001 * Hour - 1"] quota_windows_partition [OF v, of "1001 * Hour"]
    unfolding s by auto
qed

end
