(* ===== verification/Upload.thy ===== *)
theory Upload
  imports Identity
begin

text \<open>
  Uploads without a database: \<open>internal/upload/upload.go\<close> (types, file names, content types)
  and the pure functions of \<open>internal/upload/storage_postgres.go\<close> (validation and chunk
  geometry). The media-type functions of the package \<open>mime\<close> are a parameter.
\<close>

subsection \<open>Types\<close>

definition maxFilenameBytes :: nat where "maxFilenameBytes = 255"
definition maxContentTypeBytes :: nat where "maxContentTypeBytes = 255"
definition maxObjectKeyBytes :: nat where "maxObjectKeyBytes = 1024"
definition maxBackendIDBytes :: nat where "maxBackendIDBytes = 2048"

datatype upload_sentinel =
    UploadErrNotFound | UploadErrConflict | UploadErrExpired | UploadErrInvalidState
  | ErrPartConflict | ErrPartOutOfOrder | ErrPartSize | ErrIncomplete

type_synonym upload_err = "upload_sentinel err"

datatype UploadStatus =
    StatusUploading | StatusCommitting | StatusCommitted | StatusAborted | StatusExpired
  | UploadStatusOther string

record UploadSession =
  up_ID :: string
  up_Owner :: Owner
  up_OriginalFilename :: string
  up_ContentType :: string
  up_DeclaredSize :: int
  up_ChunkSize :: int
  up_ExpectedChunks :: int
  up_ReceivedChunks :: int
  up_ReceivedBytes :: int
  up_Status :: UploadStatus
  up_ObjectKey :: string
  up_MultipartUploadID :: string
  up_CommittedSHA256 :: "SHA256 option"
  up_CreatedAt :: instant
  up_UpdatedAt :: instant
  up_CommittedAt :: "instant option"
  up_ExpiresAt :: instant

record Part =
  part_UploadID :: string
  part_Index :: int
  part_ByteSize :: int
  part_SHA256 :: SHA256
  part_BackendPartID :: string
  part_CreatedAt :: instant

record PartWrite =
  pw_UploadID :: string
  pw_Owner :: Owner
  pw_Index :: int
  pw_ByteSize :: int
  pw_SHA256 :: SHA256
  pw_BackendPartID :: string
  pw_ObservedAt :: instant

record PartReceipt =
  rcpt_Part :: Part
  rcpt_AlreadyPresent :: bool
  rcpt_ReceivedChunks :: int
  rcpt_ReceivedBytes :: int

record CommitPlan =
  plan_Session :: UploadSession
  plan_Parts :: "Part list"

subsection \<open>File names and content types\<close>

definition slashes :: "string \<Rightarrow> string" where
  "slashes v = map (\<lambda>c. if c = CHR 0x5C then CHR ''/'' else c) v"

definition SanitizeFilename :: "string \<Rightarrow> 's err + string" where
  "SanitizeFilename v =
     (let v = TrimSpace (path_Base (TrimSpace (slashes v))) in
      if v = [] \<or> v = ''.'' \<or> v = ''..'' \<or> v = ''/'' \<or> \<not> utf8_valid v
        then Inl (ErrText ''upload filename is invalid'')
      else if length v > maxFilenameBytes then Inl (ErrText ''upload filename exceeds %d bytes'')
      else if has_control v then Inl (ErrText ''upload filename contains control characters'')
      else Inr v)"

text \<open>The functions of \<open>mime\<close>: \<open>None\<close> is an error; the parameters are a map.\<close>

record mime =
  ParseMediaType :: "string \<Rightarrow> (string \<times> (string \<rightharpoonup> string)) option"
  FormatMediaType :: "string \<Rightarrow> (string \<rightharpoonup> string) \<Rightarrow> string"

definition normalizeContentType :: "mime \<Rightarrow> string \<Rightarrow> 's err + string" where
  "normalizeContentType m v =
     (if TrimSpace v = [] then Inr ''application/octet-stream''
      else case ParseMediaType m v of
        None \<Rightarrow> Inl (ErrText ''upload content type is invalid'')
      | Some (mediaType, parameters) \<Rightarrow>
          (let v = FormatMediaType m mediaType parameters in
           if length v > maxContentTypeBytes then Inl (ErrText ''upload content type exceeds %d bytes'')
           else Inr v))"

definition is_normal :: "('s err + string) \<Rightarrow> string \<Rightarrow> bool" where
  "is_normal r v \<longleftrightarrow> (case r of Inl err \<Rightarrow> False | Inr v' \<Rightarrow> v' = v)"

subsection \<open>Chunk geometry\<close>

definition expected_chunks :: "int \<Rightarrow> int \<Rightarrow> int" where
  "expected_chunks declaredSize chunkSize = int64 ((declaredSize - 1) sdiv chunkSize + 1)"

definition expectedPartSize :: "UploadSession \<Rightarrow> int \<Rightarrow> 's err + int" where
  "expectedPartSize session index =
     (if index < 0 \<or> index \<ge> up_ExpectedChunks session \<or> up_ChunkSize session \<le> 0
          \<or> up_DeclaredSize session \<le> 0
        then Inl (ErrText ''invalid upload part geometry'')
      else if index < int32 (up_ExpectedChunks session - 1) then Inr (up_ChunkSize session)
      else let consumed = int64 (int32 (up_ExpectedChunks session - 1) * up_ChunkSize session) in
        if consumed < 0 \<or> consumed \<ge> up_DeclaredSize session
          then Inl (ErrText ''invalid upload final-part geometry'')
        else Inr (up_DeclaredSize session - consumed))"

text \<open>The loop of \<open>validateCompleteParts\<close>, from position \<open>index\<close> with the sum \<open>acc\<close>.\<close>

fun complete_parts_from :: "UploadSession \<Rightarrow> int \<Rightarrow> int \<Rightarrow> Part list \<Rightarrow> bool" where
  "complete_parts_from session index acc [] \<longleftrightarrow> acc = up_DeclaredSize session"
| "complete_parts_from session index acc (part # parts) \<longleftrightarrow>
     \<not> (part_UploadID part \<noteq> up_ID session \<or> part_Index part \<noteq> int32 index
        \<or> TrimSpace (part_BackendPartID part) = []) \<and>
     expectedPartSize session (part_Index part) = (Inr (part_ByteSize part) :: upload_err + int) \<and>
     \<not> acc > int64 (up_DeclaredSize session - part_ByteSize part) \<and>
     complete_parts_from session (index + 1) (int64 (acc + part_ByteSize part)) parts"

definition validateCompleteParts :: "UploadSession \<Rightarrow> Part list \<Rightarrow> upload_sentinel check" where
  "validateCompleteParts session parts =
     (if up_ReceivedChunks session \<noteq> up_ExpectedChunks session
          \<or> up_ReceivedBytes session \<noteq> up_DeclaredSize session
          \<or> int (length parts) \<noteq> up_ExpectedChunks session
          \<or> \<not> complete_parts_from session 0 0 parts
        then Some (Sentinel ErrIncomplete) else None)"

subsection \<open>Validation\<close>

definition upload_times_invalid :: "UploadSession \<Rightarrow> bool" where
  "upload_times_invalid s \<longleftrightarrow>
     IsZero (up_CreatedAt s) \<or> IsZero (up_UpdatedAt s) \<or> IsZero (up_ExpiresAt s) \<or>
     up_UpdatedAt s < up_CreatedAt s \<or> \<not> up_CreatedAt s < up_ExpiresAt s"

definition validateUploadForCreate :: "mime \<Rightarrow> UploadSession \<Rightarrow> upload_sentinel check" where
  "validateUploadForCreate m s =
     (if \<not> validUUID (up_ID s) then Some (ErrText ''upload ID must be a UUID'')
      else case Owner_Validate (up_Owner s) of Some err \<Rightarrow> Some err | None \<Rightarrow>
      if \<not> is_normal (SanitizeFilename (up_OriginalFilename s) :: upload_err + string) (up_OriginalFilename s)
        then Some (ErrText ''upload filename must already be sanitized'')
      else if \<not> is_normal (normalizeContentType m (up_ContentType s) :: upload_err + string) (up_ContentType s)
        then Some (ErrText ''upload content type must already be normalized'')
      else if up_DeclaredSize s \<le> 0 \<or> up_ChunkSize s \<le> 0 \<or> up_ChunkSize s > MaxInt32
        then Some (ErrText ''upload sizes are invalid'')
      else let expectedChunks = expected_chunks (up_DeclaredSize s) (up_ChunkSize s) in
      if expectedChunks > MaxInt32 \<or> up_ExpectedChunks s \<noteq> int32 expectedChunks
        then Some (ErrText ''upload expected chunk count is inconsistent'')
      else if up_ReceivedChunks s \<noteq> 0 \<or> up_ReceivedBytes s \<noteq> 0 \<or> up_Status s \<noteq> StatusUploading
        then Some (ErrText ''new upload must have empty uploading progress'')
      else if TrimSpace (up_ObjectKey s) = [] \<or> length (up_ObjectKey s) > maxObjectKeyBytes
        then Some (ErrText ''upload object key is required'')
      else if length (up_MultipartUploadID s) > maxBackendIDBytes
        then Some (ErrText ''upload multipart ID is too long'')
      else if up_CommittedSHA256 s \<noteq> None \<or> up_CommittedAt s \<noteq> None
        then Some (ErrText ''new upload cannot be committed'')
      else if upload_times_invalid s then Some (ErrText ''upload timestamps are invalid'')
      else None)"

definition validatePartWrite :: "PartWrite \<Rightarrow> upload_sentinel check" where
  "validatePartWrite w =
     (if \<not> validUUID (pw_UploadID w) then Some (ErrText ''upload ID must be a UUID'')
      else case Owner_Validate (pw_Owner w) of Some err \<Rightarrow> Some err | None \<Rightarrow>
      if pw_Index w < 0 then Some (ErrText ''upload part index must not be negative'')
      else if pw_ByteSize w \<le> 0 \<or> pw_ByteSize w > MaxInt32
        then Some (ErrText ''upload part size must be positive and fit int32'')
      else if TrimSpace (pw_BackendPartID w) = [] \<or> length (pw_BackendPartID w) > maxBackendIDBytes
        then Some (ErrText ''upload backend part ID is required'')
      else if IsZero (pw_ObservedAt w) then Some (ErrText ''upload part observation time is required'')
      else None)"

definition validateOwnedOperation :: "string \<Rightarrow> Owner \<Rightarrow> instant \<Rightarrow> upload_sentinel check" where
  "validateOwnedOperation uploadID owner observedAt =
     (if \<not> validUUID uploadID then Some (Sentinel UploadErrNotFound)
      else case Owner_Validate owner of Some err \<Rightarrow> Some err | None \<Rightarrow>
      if IsZero observedAt then Some (ErrText ''upload operation time is required'') else None)"

definition validateStoredSession :: "mime \<Rightarrow> UploadSession \<Rightarrow> upload_sentinel check" where
  "validateStoredSession m s =
     (if \<not> validUUID (up_ID s) then Some (ErrText ''stored upload ID is invalid'')
      else case Owner_Validate (up_Owner s) of Some err \<Rightarrow> Some err | None \<Rightarrow>
      if \<not> is_normal (SanitizeFilename (up_OriginalFilename s) :: upload_err + string) (up_OriginalFilename s)
        then Some (ErrText ''stored upload filename is invalid'')
      else if \<not> is_normal (normalizeContentType m (up_ContentType s) :: upload_err + string) (up_ContentType s)
        then Some (ErrText ''stored upload content type is invalid'')
      else if up_DeclaredSize s \<le> 0 \<or> up_ChunkSize s \<le> 0 \<or> up_ChunkSize s > MaxInt32
        then Some (ErrText ''stored upload sizes are invalid'')
      else let expectedChunks = expected_chunks (up_DeclaredSize s) (up_ChunkSize s) in
      if expectedChunks > MaxInt32 \<or> up_ExpectedChunks s \<noteq> int32 expectedChunks
          \<or> up_ReceivedChunks s < 0 \<or> up_ReceivedChunks s > up_ExpectedChunks s
          \<or> up_ReceivedBytes s < 0 \<or> up_ReceivedBytes s > up_DeclaredSize s
        then Some (ErrText ''stored upload progress is invalid'')
      else if (case up_Status s of UploadStatusOther v \<Rightarrow> True | _ \<Rightarrow> False)
        then Some (ErrText ''stored upload status is invalid'')
      else if TrimSpace (up_ObjectKey s) = [] \<or> length (up_ObjectKey s) > maxObjectKeyBytes
          \<or> length (up_MultipartUploadID s) > maxBackendIDBytes
        then Some (ErrText ''stored upload backend metadata is invalid'')
      else if upload_times_invalid s then Some (ErrText ''stored upload timestamps are invalid'')
      else if up_Status s = StatusCommitted
        then (if up_CommittedSHA256 s = None \<or> up_CommittedAt s = None
          then Some (ErrText ''stored committed upload lacks integrity metadata'') else None)
      else if up_CommittedSHA256 s \<noteq> None \<or> up_CommittedAt s \<noteq> None
        then Some (ErrText ''stored incomplete upload has committed metadata'')
      else None)"

definition maxTime :: "instant \<Rightarrow> instant \<Rightarrow> instant" where
  "maxTime left right = (if left < right then right else left)"

subsection \<open>Sanitized names\<close>

lemma slashes_id: "CHR 0x5C \<notin> set v \<Longrightarrow> slashes v = v"
  by (induction v) (auto simp: slashes_def)

lemma slashes_no_backslash: "CHR 0x5C \<notin> set (slashes v)"
  by (auto simp: slashes_def)

lemma set_path_Base: "set (path_Base v) \<subseteq> set v \<union> {CHR ''.'', CHR ''/''}"
  by (auto simp: path_Base_def Let_def dest!: set_takeWhileD set_dropWhileD)

lemma SanitizeFilename_Inr:
  assumes "SanitizeFilename v = Inr w"
  shows "w = TrimSpace (path_Base (TrimSpace (slashes v)))" and "w \<noteq> []" and "w \<noteq> ''.''" and "w \<noteq> ''..''"
    and "w \<noteq> ''/''" and "utf8_valid w" and "length w \<le> 255" and "\<not> has_control w"
    and "CHR ''/'' \<notin> set w" and "CHR 0x5C \<notin> set w" and "TrimSpace w = w"
proof -
  from assms show w: "w = TrimSpace (path_Base (TrimSpace (slashes v)))" and ne: "w \<noteq> []"
    and "w \<noteq> ''.''" and "w \<noteq> ''..''" and sl: "w \<noteq> ''/''" and "utf8_valid w" and "length w \<le> 255"
    and "\<not> has_control w"
    by (auto simp: SanitizeFilename_def Let_def maxFilenameBytes_def split: if_splits)
  show "TrimSpace w = w" by (simp add: w)
  have sub: "set w \<subseteq> set (path_Base (TrimSpace (slashes v)))"
    unfolding w by (rule set_TrimSpace)
  have "path_Base (TrimSpace (slashes v)) \<noteq> ''/''"
  proof
    assume b: "path_Base (TrimSpace (slashes v)) = ''/''"
    have "TrimSpace ''/'' = ''/''" by code_simp
    with b sl w show False by simp
  qed
  then show "CHR ''/'' \<notin> set w"
    using path_Base_no_slash [of "TrimSpace (slashes v)"] sub by auto
  show "CHR 0x5C \<notin> set w"
    using sub set_path_Base [of "TrimSpace (slashes v)"] set_TrimSpace [of "slashes v"]
      slashes_no_backslash [of v] by auto
qed

lemma SanitizeFilename_fixed:
  assumes "SanitizeFilename v = Inr w"
  shows "SanitizeFilename w = Inr w"
proof -
  note I = SanitizeFilename_Inr [OF assms]
  have "TrimSpace (path_Base (TrimSpace (slashes w))) = w"
    using I(2,9-11) by (simp add: slashes_id path_Base_id)
  then show ?thesis
    using I(2-8) by (simp add: SanitizeFilename_def Let_def maxFilenameBytes_def)
qed

subsection \<open>Chunk geometry\<close>

definition geometry :: "UploadSession \<Rightarrow> bool" where
  "geometry s \<longleftrightarrow> 0 < up_DeclaredSize s \<and> up_DeclaredSize s \<le> MaxInt64 \<and> 0 < up_ChunkSize s \<and>
     up_ChunkSize s \<le> MaxInt32 \<and> up_ExpectedChunks s \<le> MaxInt32 \<and>
     up_ExpectedChunks s = (up_DeclaredSize s - 1) div up_ChunkSize s + 1"

definition size_at :: "UploadSession \<Rightarrow> int \<Rightarrow> int" where
  "size_at s i =
     (if i < up_ExpectedChunks s - 1 then up_ChunkSize s
      else up_DeclaredSize s - (up_ExpectedChunks s - 1) * up_ChunkSize s)"

definition bytes_upto :: "UploadSession \<Rightarrow> int \<Rightarrow> int" where
  "bytes_upto s n = (if n < up_ExpectedChunks s then n * up_ChunkSize s else up_DeclaredSize s)"

lemma sdiv_nonneg: "0 \<le> a \<Longrightarrow> 0 < b \<Longrightarrow> a sdiv b = a div (b :: int)"
  by (simp add: signed_divide_int_def sgn_if)

lemma expected_chunks_div:
  assumes "0 < n" "n \<le> MaxInt64" "0 < c"
  shows "expected_chunks n c = (n - 1) div c + 1"
proof -
  have "0 \<le> (n - 1) div c" using assms by (simp add: pos_imp_zdiv_nonneg_iff)
  moreover have "(n - 1) div c \<le> n - 1"
    using assms zdiv_mono2 [of "n - 1" 1 c] by simp
  ultimately show ?thesis using assms by (simp add: expected_chunks_def sdiv_nonneg)
qed

lemma geometry_bounds:
  "geometry s \<Longrightarrow> 0 < up_DeclaredSize s \<and> up_DeclaredSize s \<le> MaxInt64 \<and> 0 < up_ChunkSize s \<and>
     up_ChunkSize s \<le> MaxInt32 \<and> up_ExpectedChunks s \<le> MaxInt32"
  by (simp add: geometry_def)

lemma last_chunk:
  assumes "geometry s"
  shows "1 \<le> up_ExpectedChunks s"
    and "(up_ExpectedChunks s - 1) * up_ChunkSize s < up_DeclaredSize s"
    and "up_DeclaredSize s \<le> (up_ExpectedChunks s - 1) * up_ChunkSize s + up_ChunkSize s"
proof -
  let ?n = "up_DeclaredSize s - 1" and ?c = "up_ChunkSize s"
  have e: "up_ExpectedChunks s - 1 = ?n div ?c" and c: "0 < ?c" and n: "0 \<le> ?n"
    using assms by (simp_all add: geometry_def)
  show "1 \<le> up_ExpectedChunks s" using e n c by (simp add: pos_imp_zdiv_nonneg_iff algebra_simps)
  have "?n div ?c * ?c = ?n - ?n mod ?c" by (simp add: minus_mod_eq_div_mult)
  with pos_mod_bound [OF c, of ?n] pos_mod_sign [OF c, of ?n]
  show "(up_ExpectedChunks s - 1) * up_ChunkSize s < up_DeclaredSize s"
    and "up_DeclaredSize s \<le> (up_ExpectedChunks s - 1) * up_ChunkSize s + up_ChunkSize s"
    unfolding e by linarith+
qed

lemma size_at_bounds:
  assumes "geometry s"
  shows "0 < size_at s i \<and> size_at s i \<le> up_ChunkSize s"
  using last_chunk [OF assms] assms by (auto simp: size_at_def geometry_def)

lemma expectedPartSize_at:
  assumes g: "geometry s" and "0 \<le> i" "i < up_ExpectedChunks s"
  shows "expectedPartSize s i = Inr (size_at s i)"
proof -
  note G = geometry_bounds [OF g] and L = last_chunk [OF g]
  have b: "(up_ExpectedChunks s - 1) * up_ChunkSize s \<le> MaxInt64"
      "\<not> (up_ExpectedChunks s - 1) * up_ChunkSize s < 0"
    using G L by (auto simp: mult_less_0_iff)
  have "int32 (up_ExpectedChunks s - 1) = up_ExpectedChunks s - 1"
    using G L by simp
  moreover have "int64 ((up_ExpectedChunks s - 1) * up_ChunkSize s) = (up_ExpectedChunks s - 1) * up_ChunkSize s"
    using b by simp
  ultimately show ?thesis
    using assms(2,3) G L b by (simp add: expectedPartSize_def size_at_def Let_def)
qed

lemma bytes_upto_Suc:
  assumes "geometry s" and "0 \<le> n" "n < up_ExpectedChunks s"
  shows "bytes_upto s (n + 1) = bytes_upto s n + size_at s n"
proof (cases "n < up_ExpectedChunks s - 1")
  case True
  with assms show ?thesis by (simp add: bytes_upto_def size_at_def algebra_simps)
next
  case False
  with assms(3) have "n = up_ExpectedChunks s - 1" by simp
  then show ?thesis by (simp add: bytes_upto_def size_at_def)
qed

lemma bytes_upto_0 [simp]: "geometry s \<Longrightarrow> bytes_upto s 0 = 0"
  using last_chunk(1) [of s] by (simp add: bytes_upto_def)

lemma bytes_upto_bounds:
  assumes g: "geometry s" and "0 \<le> n"
  shows "0 \<le> bytes_upto s n \<and> bytes_upto s n \<le> up_DeclaredSize s"
proof (cases "n < up_ExpectedChunks s")
  case True
  then have "n * up_ChunkSize s \<le> (up_ExpectedChunks s - 1) * up_ChunkSize s"
    using geometry_bounds [OF g] by (intro mult_right_mono) auto
  then have "n * up_ChunkSize s \<le> up_DeclaredSize s" using last_chunk(2) [OF g] by linarith
  with True assms(2) geometry_bounds [OF g] show ?thesis by (simp add: bytes_upto_def)
next
  case False
  with geometry_bounds [OF g] show ?thesis by (simp add: bytes_upto_def)
qed

text \<open>The completeness check, read as a statement about positions.\<close>

definition part_fits :: "UploadSession \<Rightarrow> int \<Rightarrow> Part \<Rightarrow> bool" where
  "part_fits s i p \<longleftrightarrow> part_UploadID p = up_ID s \<and> part_Index p = i \<and>
     TrimSpace (part_BackendPartID p) \<noteq> [] \<and> part_ByteSize p = size_at s i"

lemma complete_parts_from_iff:
  assumes "geometry s" and "0 \<le> i" and "i + int (length parts) = up_ExpectedChunks s"
  shows "complete_parts_from s i (bytes_upto s i) parts \<longleftrightarrow>
    (\<forall>k < length parts. part_fits s (i + int k) (parts ! k))"
  using assms(2,3)
proof (induction parts arbitrary: i)
  case Nil
  then show ?case using geometry_bounds [OF assms(1)] by (simp add: bytes_upto_def)
next
  case (Cons p parts)
  note G = geometry_bounds [OF assms(1)]
  from Cons.prems have i: "0 \<le> i" "i < up_ExpectedChunks s" by auto
  have i32: "int32 i = i" using i G by simp
  note B = bytes_upto_bounds [OF assms(1) i(1)] bytes_upto_bounds [OF assms(1), of "i + 1"]
    bytes_upto_Suc [OF assms(1) i] size_at_bounds [OF assms(1), of i]
  have room: "int64 (up_DeclaredSize s - size_at s i) = up_DeclaredSize s - size_at s i"
      "int64 (bytes_upto s i + size_at s i) = bytes_upto s (i + 1)"
    using B G i by simp_all
  have rest: "complete_parts_from s (i + 1) (bytes_upto s (i + 1)) parts \<longleftrightarrow>
      (\<forall>k < length parts. part_fits s (i + 1 + int k) (parts ! k))"
    using Cons.prems by (intro Cons.IH) auto
  have "complete_parts_from s i (bytes_upto s i) (p # parts) \<longleftrightarrow>
      part_fits s i p \<and> complete_parts_from s (i + 1) (bytes_upto s (i + 1)) parts"
  proof (cases "part_fits s i p")
    case True
    have "bytes_upto s i + size_at s i \<le> up_DeclaredSize s" using B i by simp
    with True show ?thesis
      using expectedPartSize_at [OF assms(1) i, where 'a = upload_sentinel]
      by (simp add: part_fits_def i32 room(1)) (simp only: room(2))
  next
    case False
    then show ?thesis
      using expectedPartSize_at [OF assms(1) i, where 'a = upload_sentinel]
      by (auto simp: part_fits_def i32)
  qed
  then show ?case unfolding rest by (auto simp: less_Suc_eq_0_disj nth_Cons' algebra_simps split: if_splits)
qed

lemma validateCompleteParts_iff:
  assumes "geometry s"
  shows "validateCompleteParts s parts = None \<longleftrightarrow>
    up_ReceivedChunks s = up_ExpectedChunks s \<and> up_ReceivedBytes s = up_DeclaredSize s \<and>
    int (length parts) = up_ExpectedChunks s \<and> (\<forall>k < length parts. part_fits s (int k) (parts ! k))"
  using complete_parts_from_iff [OF assms, of 0 parts] assms
  by (auto simp: validateCompleteParts_def)

lemma complete_parts_sum:
  assumes "geometry s" and "int (length parts) = up_ExpectedChunks s"
    and "\<forall>k < length parts. part_fits s (int k) (parts ! k)"
  shows "sum_list (map part_ByteSize parts) = up_DeclaredSize s"
proof -
  have "sum_list (map part_ByteSize (take n parts)) = bytes_upto s (int n)" if "n \<le> length parts" for n
    using that
  proof (induction n)
    case (Suc n)
    then have "take (Suc n) parts = take n parts @ [parts ! n]" by (simp add: take_Suc_conv_app_nth)
    moreover have "part_ByteSize (parts ! n) = size_at s (int n)"
      using assms(3) Suc.prems by (simp add: part_fits_def)
    ultimately show ?case
      using Suc bytes_upto_Suc [OF assms(1), of "int n"] assms(2) by (simp add: add.commute)
  qed (use assms(1) in simp)
  from this [of "length parts"] show ?thesis
    using assms(2) by (simp add: bytes_upto_def)
qed

end
