(* ===== verification/Upload_Store.thy ===== *)
theory Upload_Store
  imports Upload Anon_Quota
begin

text \<open>
  The PostgreSQL store of uploads, \<open>internal/upload/storage_postgres.go\<close>: the tables
  \<open>upload_session\<close> and \<open>upload_part\<close> with their constraints, and one function per operation
  of the store, each a transaction that either takes effect as a whole or not at all.
\<close>

subsection \<open>Tables\<close>

record upload_row =
  us_id :: string
  us_owner :: owner_cols
  us_original_filename :: string
  us_content_type :: string
  us_declared_size :: int
  us_chunk_size :: int
  us_expected_chunks :: int
  us_received_chunks :: int
  us_received_bytes :: int
  us_status :: UploadStatus
  us_object_key :: string
  us_multipart_upload_id :: "string option"
  us_committed_sha256 :: "string option"
  us_created_at :: instant
  us_updated_at :: instant
  us_committed_at :: "instant option"
  us_expires_at :: instant

record part_row =
  pt_upload_id :: string
  pt_part_index :: int
  pt_byte_size :: int
  pt_sha256 :: string
  pt_backend_part_id :: string
  pt_created_at :: instant

record upload_db = quota_db +
  upload_session :: "upload_row list"
  upload_part :: "part_row list"

definition known_status :: "UploadStatus \<Rightarrow> bool" where
  "known_status status \<longleftrightarrow> (case status of UploadStatusOther v \<Rightarrow> False | _ \<Rightarrow> True)"

definition upload_row_check :: "upload_row \<Rightarrow> bool" where
  "upload_row_check r \<longleftrightarrow> owner_cols_check (us_owner r) \<and>
     \<not> only_blanks (us_original_filename r) \<and> length (us_original_filename r) \<le> 255 \<and>
     \<not> only_blanks (us_content_type r) \<and> length (us_content_type r) \<le> 255 \<and>
     0 < us_declared_size r \<and> 0 < us_chunk_size r \<and> 0 < us_expected_chunks r \<and>
     0 \<le> us_received_chunks r \<and> 0 \<le> us_received_bytes r \<and>
     us_received_chunks r \<le> us_expected_chunks r \<and> us_received_bytes r \<le> us_declared_size r \<and>
     known_status (us_status r) \<and>
     \<not> only_blanks (us_object_key r) \<and> length (us_object_key r) \<le> 1024 \<and>
     (case us_multipart_upload_id r of None \<Rightarrow> True | Some v \<Rightarrow> 1 \<le> length v \<and> length v \<le> 2048) \<and>
     (case us_committed_sha256 r of None \<Rightarrow> True | Some v \<Rightarrow> sha256_text v) \<and>
     (if us_status r = StatusCommitted then us_committed_sha256 r \<noteq> None \<and> us_committed_at r \<noteq> None
      else us_committed_sha256 r = None \<and> us_committed_at r = None) \<and>
     us_created_at r \<le> us_updated_at r \<and> us_created_at r < us_expires_at r"

definition part_row_check :: "part_row \<Rightarrow> bool" where
  "part_row_check r \<longleftrightarrow> 0 \<le> pt_part_index r \<and> 0 < pt_byte_size r \<and> sha256_text (pt_sha256 r) \<and>
     \<not> only_blanks (pt_backend_part_id r) \<and> length (pt_backend_part_id r) \<le> 2048"

subsection \<open>Rows and values\<close>

definition insert_upload_row :: "UploadSession \<Rightarrow> upload_row" where
  "insert_upload_row s =
     \<lparr>us_id = up_ID s, us_owner = owner_columns (up_Owner s), us_original_filename = up_OriginalFilename s,
      us_content_type = up_ContentType s, us_declared_size = up_DeclaredSize s,
      us_chunk_size = int32 (up_ChunkSize s), us_expected_chunks = up_ExpectedChunks s,
      us_received_chunks = 0, us_received_bytes = 0, us_status = up_Status s,
      us_object_key = up_ObjectKey s,
      us_multipart_upload_id = (if up_MultipartUploadID s = [] then None else Some (up_MultipartUploadID s)),
      us_committed_sha256 = None, us_created_at = pg_time (up_CreatedAt s),
      us_updated_at = pg_time (up_UpdatedAt s), us_committed_at = None,
      us_expires_at = pg_time (up_ExpiresAt s)\<rparr>"

definition row_texts :: "upload_row \<Rightarrow> bool" where
  "row_texts r \<longleftrightarrow> pg_text (us_original_filename r) \<and> pg_text (us_content_type r) \<and>
     pg_text (us_object_key r) \<and> (case us_multipart_upload_id r of None \<Rightarrow> True | Some v \<Rightarrow> pg_text v)"

text \<open>\<open>scanSession\<close>: the value of the columns, then the checks.\<close>

definition upload_of_row :: "upload_row \<Rightarrow> SHA256 option \<Rightarrow> UploadSession" where
  "upload_of_row r digest =
     \<lparr>up_ID = us_id r, up_Owner = scan_owner (us_owner r), up_OriginalFilename = us_original_filename r,
      up_ContentType = us_content_type r, up_DeclaredSize = us_declared_size r,
      up_ChunkSize = us_chunk_size r, up_ExpectedChunks = us_expected_chunks r,
      up_ReceivedChunks = us_received_chunks r, up_ReceivedBytes = us_received_bytes r,
      up_Status = us_status r, up_ObjectKey = us_object_key r,
      up_MultipartUploadID = (case us_multipart_upload_id r of None \<Rightarrow> [] | Some v \<Rightarrow> v),
      up_CommittedSHA256 = digest, up_CreatedAt = us_created_at r, up_UpdatedAt = us_updated_at r,
      up_CommittedAt = us_committed_at r, up_ExpiresAt = us_expires_at r\<rparr>"

definition upload_scanSession :: "mime \<Rightarrow> upload_row \<Rightarrow> upload_err + UploadSession" where
  "upload_scanSession m r =
     (case Owner_Validate (scan_owner (us_owner r)) of Some err \<Rightarrow> Inl err | None \<Rightarrow>
      (case (case us_committed_sha256 r of None \<Rightarrow> Inr None
             | Some v \<Rightarrow> (case ParseSHA256 v of Inl err \<Rightarrow> Inl err | Inr digest \<Rightarrow> Inr (Some digest))) of
         Inl err \<Rightarrow> Inl err
       | Inr digest \<Rightarrow>
           (case validateStoredSession m (upload_of_row r digest) of
              Some err \<Rightarrow> Inl err
            | None \<Rightarrow> Inr (upload_of_row r digest))))"

definition scan_part :: "part_row \<Rightarrow> upload_err + Part" where
  "scan_part r =
     (case ParseSHA256 (pt_sha256 r) of
        Inl err \<Rightarrow> Inl err
      | Inr digest \<Rightarrow> Inr \<lparr>part_UploadID = pt_upload_id r, part_Index = pt_part_index r,
          part_ByteSize = pt_byte_size r, part_SHA256 = digest,
          part_BackendPartID = pt_backend_part_id r, part_CreatedAt = pt_created_at r\<rparr>)"

definition insert_part_row :: "PartWrite \<Rightarrow> part_row" where
  "insert_part_row w =
     \<lparr>pt_upload_id = pw_UploadID w, pt_part_index = pw_Index w, pt_byte_size = int32 (pw_ByteSize w),
      pt_sha256 = SHA256_String (pw_SHA256 w), pt_backend_part_id = pw_BackendPartID w,
      pt_created_at = pg_time (pw_ObservedAt w)\<rparr>"

abbreviation owned_row :: "string \<Rightarrow> Owner \<Rightarrow> upload_row \<Rightarrow> bool" where
  "owned_row uploadID owner r \<equiv> us_id r = uploadID \<and> us_owner r = owner_columns owner"

text \<open>Is the anonymous session that an owner's foreign key names there?\<close>

definition owner_exists :: "owner_cols \<Rightarrow> 'z anon_db_scheme \<Rightarrow> bool" where
  "owner_exists cols d \<longleftrightarrow>
     (case snd (snd cols) of None \<Rightarrow> True | Some sid \<Rightarrow> list_ex (\<lambda>r. as_id r = sid) (anonymous_session d))"

subsection \<open>Reads\<close>

definition lockOwnedSession ::
    "mime \<Rightarrow> faults \<Rightarrow> string \<Rightarrow> Owner \<Rightarrow> 'z upload_db_scheme \<Rightarrow> upload_err + UploadSession" where
  "lockOwnedSession m flt uploadID owner d =
     (let failed = Inl (StorageError ''lock owned session'') in
      if stmt_fails flt ''lock owned session'' then failed
      else case find (owned_row uploadID owner) (upload_session d) of
        None \<Rightarrow> Inl (Sentinel UploadErrNotFound)
      | Some row \<Rightarrow> (case upload_scanSession m row of Inl err \<Rightarrow> failed | Inr session \<Rightarrow> Inr session))"

definition readPart :: "string \<Rightarrow> int \<Rightarrow> 'z upload_db_scheme \<Rightarrow> upload_err + Part option" where
  "readPart uploadID index d =
     (case find (\<lambda>r. pt_upload_id r = uploadID \<and> pt_part_index r = index) (upload_part d) of
        None \<Rightarrow> Inr None
      | Some row \<Rightarrow> (case scan_part row of Inl err \<Rightarrow> Inl err | Inr part \<Rightarrow> Inr (Some part)))"

definition part_rows :: "string \<Rightarrow> 'z upload_db_scheme \<Rightarrow> part_row list" where
  "part_rows uploadID d = sort_key pt_part_index (filter (\<lambda>r. pt_upload_id r = uploadID) (upload_part d))"

fun scan_parts :: "part_row list \<Rightarrow> upload_err + Part list" where
  "scan_parts [] = Inr []"
| "scan_parts (r # rs) =
     (case scan_part r of
        Inl err \<Rightarrow> Inl (StorageError ''decode part digest'')
      | Inr part \<Rightarrow> (case scan_parts rs of Inl err \<Rightarrow> Inl err | Inr parts \<Rightarrow> Inr (part # parts)))"

definition readAllParts :: "faults \<Rightarrow> string \<Rightarrow> 'z upload_db_scheme \<Rightarrow> upload_err + Part list" where
  "readAllParts flt uploadID d =
     (if stmt_fails flt ''list parts'' then Inl (StorageError ''list parts'')
      else if stmt_fails flt ''iterate parts'' then Inl (StorageError ''iterate parts'')
      else scan_parts (part_rows uploadID d))"

definition pg_upload_Get ::
    "mime \<Rightarrow> faults \<Rightarrow> string \<Rightarrow> Owner \<Rightarrow> 'z upload_db_scheme \<Rightarrow>
      (upload_err + UploadSession) \<times> 'z upload_db_scheme" where
  "pg_upload_Get m flt uploadID owner d =
     (if \<not> validUUID uploadID \<or> Owner_Validate owner \<noteq> (None :: upload_sentinel check)
        then (Inl (Sentinel UploadErrNotFound), d)
      else let failed = Inl (StorageError ''get'')
        in finish (flt ''get'') d d failed
          (case find (owned_row uploadID owner) (upload_session d) of
             None \<Rightarrow> Inl (Sentinel UploadErrNotFound)
           | Some row \<Rightarrow> (case upload_scanSession m row of Inl err \<Rightarrow> failed | Inr session \<Rightarrow> Inr session)))"

subsection \<open>Writes\<close>

definition pg_upload_Create ::
    "mime \<Rightarrow> faults \<Rightarrow> UploadSession \<Rightarrow> 'z upload_db_scheme \<Rightarrow>
      (upload_err + UploadSession) \<times> 'z upload_db_scheme" where
  "pg_upload_Create m flt session d =
     (case validateUploadForCreate m session of Some err \<Rightarrow> (Inl err, d) | None \<Rightarrow>
      let row = insert_upload_row session; failed = Inl (StorageError ''create'') in
      if flt ''create'' = Call_Failed \<or> \<not> row_texts row \<or> \<not> upload_row_check row then (failed, d)
      else if list_ex (\<lambda>r. us_id r = us_id row \<or> us_object_key r = us_object_key row) (upload_session d)
        then (if flt ''create'' = Call_Ok then Inl (Sentinel UploadErrConflict) else failed, d)
      else if \<not> owner_exists (us_owner row) d then (failed, d)
      else finish (flt ''create'') d (d\<lparr>upload_session := upload_session d @ [row]\<rparr>) failed
        (case upload_scanSession m row of Inr created \<Rightarrow> Inr created | Inl err \<Rightarrow> failed))"

definition insert_part :: "faults \<Rightarrow> part_row \<Rightarrow> part_row list \<Rightarrow> part_row list option" where
  "insert_part flt row t =
     (if stmt_fails flt ''insert part'' \<or> \<not> pg_text (pt_backend_part_id row) \<or> \<not> part_row_check row
          \<or> list_ex (\<lambda>r. pt_upload_id r = pt_upload_id row \<and> pt_part_index r = pt_part_index row) t
        then None else Some (t @ [row]))"

definition update_upload ::
    "faults \<Rightarrow> string \<Rightarrow> string \<Rightarrow> (upload_row \<Rightarrow> upload_row) \<Rightarrow> upload_row list \<Rightarrow> upload_row list option" where
  "update_upload flt op uploadID f t =
     (if stmt_fails flt op then None
      else sql_checked_update upload_row_check (\<lambda>r. us_id r = uploadID) f t)"

definition set_progress :: "int \<Rightarrow> instant \<Rightarrow> upload_row \<Rightarrow> upload_row" where
  "set_progress byteSize at r = r\<lparr>us_received_chunks := us_received_chunks r + 1,
     us_received_bytes := us_received_bytes r + byteSize, us_updated_at := at\<rparr>"

definition set_committing :: "instant \<Rightarrow> upload_row \<Rightarrow> upload_row" where
  "set_committing at r = r\<lparr>us_status := StatusCommitting, us_updated_at := at\<rparr>"

definition set_committed :: "SHA256 \<Rightarrow> instant \<Rightarrow> upload_row \<Rightarrow> upload_row" where
  "set_committed digest at r = r\<lparr>us_status := StatusCommitted,
     us_committed_sha256 := Some (SHA256_String digest), us_committed_at := Some at, us_updated_at := at\<rparr>"

definition set_aborted :: "instant \<Rightarrow> upload_row \<Rightarrow> upload_row" where
  "set_aborted at r = r\<lparr>us_status := StatusAborted, us_updated_at := at\<rparr>"

definition pg_RecordPart ::
    "mime \<Rightarrow> faults \<Rightarrow> PartWrite \<Rightarrow> 'z upload_db_scheme \<Rightarrow> (upload_err + PartReceipt) \<times> 'z upload_db_scheme" where
  "pg_RecordPart m flt write d =
     (case validatePartWrite write of Some err \<Rightarrow> (Inl err, d) | None \<Rightarrow>
      if stmt_fails flt ''begin part record'' then (Inl (StorageError ''begin part record''), d)
      else case lockOwnedSession m flt (pw_UploadID write) (pw_Owner write) d of
        Inl err \<Rightarrow> (Inl err, d)
      | Inr session \<Rightarrow>
      if \<not> pw_ObservedAt write < up_ExpiresAt session then (Inl (Sentinel UploadErrExpired), d)
      else if up_Status session \<noteq> StatusUploading then (Inl (Sentinel UploadErrInvalidState), d)
      else if pw_ObservedAt write < up_CreatedAt session
        then (Inl (ErrText ''upload part observation precedes session creation''), d)
      else if stmt_fails flt ''read existing part'' then (Inl (StorageError ''read existing part''), d)
      else case readPart (pw_UploadID write) (pw_Index write) d of
        Inl err \<Rightarrow> (Inl (StorageError ''read existing part''), d)
      | Inr (Some existing) \<Rightarrow>
          (if part_ByteSize existing \<noteq> pw_ByteSize write \<or> part_SHA256 existing \<noteq> pw_SHA256 write
             then (Inl (Sentinel ErrPartConflict), d)
           else finish (flt ''commit part retry'') d d (Inl (StorageError ''commit part retry''))
             (Inr \<lparr>rcpt_Part = existing, rcpt_AlreadyPresent = True,
                rcpt_ReceivedChunks = up_ReceivedChunks session, rcpt_ReceivedBytes = up_ReceivedBytes session\<rparr>))
      | Inr None \<Rightarrow>
      if pw_Index write \<noteq> up_ReceivedChunks session \<or> pw_Index write \<ge> up_ExpectedChunks session
        then (Inl (Sentinel ErrPartOutOfOrder), d)
      else case expectedPartSize session (pw_Index write) :: upload_err + int of
        Inl err \<Rightarrow> (Inl (StorageError ''validate stored session''), d)
      | Inr expectedSize \<Rightarrow>
      if pw_ByteSize write \<noteq> expectedSize then (Inl (Sentinel ErrPartSize), d)
      else case insert_part flt (insert_part_row write) (upload_part d) of
        None \<Rightarrow> (Inl (StorageError ''insert part''), d)
      | Some parts \<Rightarrow>
      case update_upload flt ''update progress'' (pw_UploadID write)
          (set_progress (pw_ByteSize write) (pg_time (maxTime (pw_ObservedAt write) (up_UpdatedAt session))))
          (upload_session d) of
        None \<Rightarrow> (Inl (StorageError ''update progress''), d)
      | Some sessions \<Rightarrow>
          finish (flt ''commit part record'') d (d\<lparr>upload_session := sessions, upload_part := parts\<rparr>)
            (Inl (StorageError ''commit part record''))
            (Inr \<lparr>rcpt_Part = \<lparr>part_UploadID = pw_UploadID write, part_Index = pw_Index write,
                part_ByteSize = pw_ByteSize write, part_SHA256 = pw_SHA256 write,
                part_BackendPartID = pw_BackendPartID write, part_CreatedAt = pw_ObservedAt write\<rparr>,
              rcpt_AlreadyPresent = False,
              rcpt_ReceivedChunks = int32 (up_ReceivedChunks session + 1),
              rcpt_ReceivedBytes = int64 (up_ReceivedBytes session + pw_ByteSize write)\<rparr>))"

definition pg_BeginCommit ::
    "mime \<Rightarrow> faults \<Rightarrow> string \<Rightarrow> Owner \<Rightarrow> instant \<Rightarrow> 'z upload_db_scheme \<Rightarrow>
      (upload_err + CommitPlan) \<times> 'z upload_db_scheme" where
  "pg_BeginCommit m flt uploadID owner observedAt d =
     (case validateOwnedOperation uploadID owner observedAt of Some err \<Rightarrow> (Inl err, d) | None \<Rightarrow>
      if stmt_fails flt ''begin commit preparation'' then (Inl (StorageError ''begin commit preparation''), d)
      else case lockOwnedSession m flt uploadID owner d of
        Inl err \<Rightarrow> (Inl err, d)
      | Inr session \<Rightarrow>
      if \<not> observedAt < up_ExpiresAt session then (Inl (Sentinel UploadErrExpired), d)
      else if up_Status session \<noteq> StatusUploading \<and> up_Status session \<noteq> StatusCommitting
        then (Inl (Sentinel UploadErrInvalidState), d)
      else if observedAt < up_CreatedAt session
        then (Inl (ErrText ''upload commit observation precedes session creation''), d)
      else case readAllParts flt uploadID d of
        Inl err \<Rightarrow> (Inl err, d)
      | Inr parts \<Rightarrow>
      case validateCompleteParts session parts of Some err \<Rightarrow> (Inl err, d) | None \<Rightarrow>
      if up_Status session = StatusUploading
        then let updatedAt = maxTime observedAt (up_UpdatedAt session) in
          case update_upload flt ''freeze parts'' uploadID (set_committing (pg_time updatedAt)) (upload_session d) of
            None \<Rightarrow> (Inl (StorageError ''freeze parts''), d)
          | Some sessions \<Rightarrow>
              finish (flt ''commit preparation'') d (d\<lparr>upload_session := sessions\<rparr>)
                (Inl (StorageError ''commit preparation''))
                (Inr \<lparr>plan_Session = session\<lparr>up_Status := StatusCommitting, up_UpdatedAt := updatedAt\<rparr>,
                      plan_Parts = parts\<rparr>)
      else finish (flt ''commit preparation'') d d (Inl (StorageError ''commit preparation''))
        (Inr \<lparr>plan_Session = session, plan_Parts = parts\<rparr>))"

definition pg_Complete ::
    "mime \<Rightarrow> faults \<Rightarrow> string \<Rightarrow> Owner \<Rightarrow> SHA256 \<Rightarrow> instant \<Rightarrow> 'z upload_db_scheme \<Rightarrow>
      (upload_err + UploadSession) \<times> 'z upload_db_scheme" where
  "pg_Complete m flt uploadID owner digest observedAt d =
     (case validateOwnedOperation uploadID owner observedAt of Some err \<Rightarrow> (Inl err, d) | None \<Rightarrow>
      if stmt_fails flt ''begin completion'' then (Inl (StorageError ''begin completion''), d)
      else case lockOwnedSession m flt uploadID owner d of
        Inl err \<Rightarrow> (Inl err, d)
      | Inr session \<Rightarrow>
      if up_Status session = StatusCommitted
        then (if up_CommittedSHA256 session \<noteq> Some digest then (Inl (Sentinel UploadErrConflict), d)
          else finish (flt ''commit completion retry'') d d (Inl (StorageError ''commit completion retry''))
            (Inr session))
      else if \<not> observedAt < up_ExpiresAt session then (Inl (Sentinel UploadErrExpired), d)
      else if up_Status session \<noteq> StatusCommitting then (Inl (Sentinel UploadErrInvalidState), d)
      else if observedAt < up_CreatedAt session
        then (Inl (ErrText ''upload completion observation precedes session creation''), d)
      else let completedAt = maxTime observedAt (up_UpdatedAt session) in
        case update_upload flt ''complete'' uploadID (set_committed digest (pg_time completedAt)) (upload_session d) of
          None \<Rightarrow> (Inl (StorageError ''complete''), d)
        | Some sessions \<Rightarrow>
            finish (flt ''commit completion'') d (d\<lparr>upload_session := sessions\<rparr>)
              (Inl (StorageError ''commit completion''))
              (Inr (session\<lparr>up_Status := StatusCommitted, up_CommittedSHA256 := Some digest,
                 up_CommittedAt := Some completedAt, up_UpdatedAt := completedAt\<rparr>)))"

definition pg_Abort ::
    "mime \<Rightarrow> faults \<Rightarrow> string \<Rightarrow> Owner \<Rightarrow> instant \<Rightarrow> 'z upload_db_scheme \<Rightarrow>
      (upload_err + UploadSession) \<times> 'z upload_db_scheme" where
  "pg_Abort m flt uploadID owner observedAt d =
     (case validateOwnedOperation uploadID owner observedAt of Some err \<Rightarrow> (Inl err, d) | None \<Rightarrow>
      if stmt_fails flt ''begin abort'' then (Inl (StorageError ''begin abort''), d)
      else case lockOwnedSession m flt uploadID owner d of
        Inl err \<Rightarrow> (Inl err, d)
      | Inr session \<Rightarrow>
      if up_Status session = StatusAborted \<or> up_Status session = StatusExpired
        then finish (flt ''commit abort retry'') d d (Inl (StorageError ''commit abort retry'')) (Inr session)
      else if up_Status session = StatusUploading \<or> up_Status session = StatusCommitting
        then (if observedAt < up_CreatedAt session
            then (Inl (ErrText ''upload abort observation precedes session creation''), d)
          else let updatedAt = maxTime observedAt (up_UpdatedAt session) in
            case update_upload flt ''abort'' uploadID (set_aborted (pg_time updatedAt)) (upload_session d) of
              None \<Rightarrow> (Inl (StorageError ''abort''), d)
            | Some sessions \<Rightarrow>
                finish (flt ''commit abort'') d (d\<lparr>upload_session := sessions\<rparr>)
                  (Inl (StorageError ''commit abort''))
                  (Inr (session\<lparr>up_Status := StatusAborted, up_UpdatedAt := updatedAt\<rparr>)))
      else (Inl (Sentinel UploadErrInvalidState), d))"

subsection \<open>What a stored row means\<close>

definition stored_digest :: "string \<Rightarrow> SHA256" where
  "stored_digest v = (case ParseSHA256 v :: upload_err + SHA256 of Inl err \<Rightarrow> [] | Inr digest \<Rightarrow> digest)"

definition view :: "upload_row \<Rightarrow> UploadSession" where
  "view r = upload_of_row r (map_option stored_digest (us_committed_sha256 r))"

lemma view_simps [simp]:
  "up_ID (view r) = us_id r" "up_Owner (view r) = scan_owner (us_owner r)"
  "up_OriginalFilename (view r) = us_original_filename r" "up_ContentType (view r) = us_content_type r"
  "up_DeclaredSize (view r) = us_declared_size r" "up_ChunkSize (view r) = us_chunk_size r"
  "up_ExpectedChunks (view r) = us_expected_chunks r" "up_ReceivedChunks (view r) = us_received_chunks r"
  "up_ReceivedBytes (view r) = us_received_bytes r" "up_Status (view r) = us_status r"
  "up_ObjectKey (view r) = us_object_key r" "up_CreatedAt (view r) = us_created_at r"
  "up_UpdatedAt (view r) = us_updated_at r" "up_ExpiresAt (view r) = us_expires_at r"
  "up_CommittedAt (view r) = us_committed_at r"
  "up_CommittedSHA256 (view r) = map_option stored_digest (us_committed_sha256 r)"
  by (simp_all add: view_def upload_of_row_def)

lemma scan_upload_view:
  assumes "upload_scanSession m r = Inr s"
  shows "s = view r \<and> validateStoredSession m s = None"
  using assms by (auto simp: upload_scanSession_def view_def stored_digest_def split: option.splits sum.splits)

lemma sha256_text_digits: "sha256_text v \<Longrightarrow> \<exists>digest. ParseSHA256 v = (Inr digest :: upload_err + SHA256)"
proof -
  have dec: "list_all is_lower_hex v \<Longrightarrow> even (length v) \<Longrightarrow> hex_DecodeString v \<noteq> None" for v
  proof (induction v rule: hex_DecodeString.induct)
    case (3 c d s)
    have "\<exists>h. from_hex c = Some h" if "is_lower_hex c" for c
      using that by (auto simp: is_lower_hex_def from_hex_def Let_def)
    then obtain h l where "from_hex c = Some h" "from_hex d = Some l" using 3 by force
    with 3 show ?case by (auto split: option.splits)
  qed auto
  assume v: "sha256_text v"
  then have "map lower_ascii v = v"
    by (intro map_idI lower_ascii_digit) (auto simp: sha256_text_def list_all_iff)
  with v dec [of v] show ?thesis by (auto simp: sha256_text_def ParseSHA256_def)
qed

lemma stored_digest_String [simp]: "length digest = 32 \<Longrightarrow> stored_digest (SHA256_String digest) = digest"
  by (simp add: stored_digest_def)

lemma sha256_text_String [simp]: "sha256_text (SHA256_String digest) \<longleftrightarrow> length digest = 32"
  by (auto simp: sha256_text_def SHA256_String_def list_all_iff dest: lower_hex_Encode)

lemma scan_upload_checked:
  assumes "upload_row_check r" and "validateStoredSession m (view r) = None"
  shows "upload_scanSession m r = Inr (view r)"
proof -
  have "Owner_Validate (scan_owner (us_owner r)) = (None :: upload_sentinel check)"
    using assms(2) by (simp add: validateStoredSession_def split: if_splits option.splits)
  moreover have "(case us_committed_sha256 r of None \<Rightarrow> Inr None
      | Some v \<Rightarrow> (case ParseSHA256 v of Inl err \<Rightarrow> Inl err | Inr digest \<Rightarrow> Inr (Some digest)))
      = (Inr (map_option stored_digest (us_committed_sha256 r)) :: upload_err + SHA256 option)"
  proof (cases "us_committed_sha256 r")
    case (Some v)
    then obtain digest where "ParseSHA256 v = (Inr digest :: upload_err + SHA256)"
      using sha256_text_digits [of v] assms(1) by (auto simp: upload_row_check_def)
    with Some show ?thesis by (simp add: stored_digest_def)
  qed simp
  ultimately show ?thesis
    using assms(2) unfolding upload_scanSession_def view_def by simp
qed

subsection \<open>The invariant of the tables\<close>

definition parts_of :: "string \<Rightarrow> part_row list \<Rightarrow> part_row list" where
  "parts_of uploadID t = filter (\<lambda>p. pt_upload_id p = uploadID) t"

definition upload_row_good :: "mime \<Rightarrow> upload_row \<Rightarrow> bool" where
  "upload_row_good m r \<longleftrightarrow> upload_row_check r \<and> validateStoredSession m (view r) = None \<and>
     0 < us_created_at r \<and> us_declared_size r \<le> MaxInt64 \<and>
     pg_aligned (us_created_at r) \<and> pg_aligned (us_updated_at r) \<and> pg_aligned (us_expires_at r)"

definition progress_good :: "upload_row \<Rightarrow> part_row list \<Rightarrow> bool" where
  "progress_good r ps \<longleftrightarrow>
     int (length ps) = us_received_chunks r \<and>
     us_received_bytes r = bytes_upto (view r) (us_received_chunks r) \<and>
     (\<forall>k < length ps. part_row_check (ps ! k) \<and> TrimSpace (pt_backend_part_id (ps ! k)) \<noteq> [] \<and>
        pt_part_index (ps ! k) = int k \<and> pt_byte_size (ps ! k) = size_at (view r) (int k)) \<and>
     (us_status r = StatusCommitting \<or> us_status r = StatusCommitted \<longrightarrow>
        us_received_chunks r = us_expected_chunks r)"

definition uploads_good :: "mime \<Rightarrow> 'z upload_db_scheme \<Rightarrow> bool" where
  "uploads_good m d \<longleftrightarrow>
     distinct (map us_id (upload_session d)) \<and> distinct (map us_object_key (upload_session d)) \<and>
     (\<forall>r \<in> set (upload_session d). upload_row_good m r \<and> progress_good r (parts_of (us_id r) (upload_part d))) \<and>
     (\<forall>p \<in> set (upload_part d). pt_upload_id p \<in> us_id ` set (upload_session d))"

lemma guard_None: "(if c then Some x else y) = None \<longleftrightarrow> \<not> c \<and> y = None"
  by simp

definition stored_fields_ok :: "mime \<Rightarrow> UploadSession \<Rightarrow> bool" where
  "stored_fields_ok m s \<longleftrightarrow>
     is_normal (SanitizeFilename (up_OriginalFilename s) :: upload_err + string) (up_OriginalFilename s) \<and>
     is_normal (normalizeContentType m (up_ContentType s) :: upload_err + string) (up_ContentType s) \<and>
     0 < up_DeclaredSize s \<and> 0 < up_ChunkSize s \<and> up_ChunkSize s \<le> MaxInt32 \<and>
     expected_chunks (up_DeclaredSize s) (up_ChunkSize s) \<le> MaxInt32 \<and>
     up_ExpectedChunks s = int32 (expected_chunks (up_DeclaredSize s) (up_ChunkSize s)) \<and>
     0 \<le> up_ReceivedChunks s \<and> up_ReceivedChunks s \<le> up_ExpectedChunks s \<and>
     0 \<le> up_ReceivedBytes s \<and> up_ReceivedBytes s \<le> up_DeclaredSize s \<and>
     known_status (up_Status s) \<and> TrimSpace (up_ObjectKey s) \<noteq> [] \<and>
     length (up_ObjectKey s) \<le> maxObjectKeyBytes \<and> length (up_MultipartUploadID s) \<le> maxBackendIDBytes \<and>
     \<not> upload_times_invalid s \<and>
     (if up_Status s = StatusCommitted then up_CommittedSHA256 s \<noteq> None \<and> up_CommittedAt s \<noteq> None
      else up_CommittedSHA256 s = None \<and> up_CommittedAt s = None)"

lemma validateStoredSession_owner_ok:
  assumes "Owner_Validate (up_Owner s) = (None :: upload_sentinel check)"
    and "known_status (up_Status s) \<longleftrightarrow> \<not> (case up_Status s of UploadStatusOther v \<Rightarrow> True | _ \<Rightarrow> False)"
  shows "validateStoredSession m s = None \<longleftrightarrow> validUUID (up_ID s) \<and> stored_fields_ok m s"
  unfolding validateStoredSession_def stored_fields_ok_def Let_def
  apply (simp only: assms option.case guard_None de_Morgan_disj not_not not_less not_le conj_assoc simp_thms)
  apply (cases "up_Status s = StatusCommitted")
   apply (simp_all only: guard_None de_Morgan_disj not_not conj_assoc simp_thms if_True if_False)
  done

lemma validateStoredSession_None:
  "validateStoredSession m s = None \<longleftrightarrow>
     validUUID (up_ID s) \<and> valid_owner (up_Owner s) \<and> stored_fields_ok m s"
proof (cases "valid_owner (up_Owner s)")
  case True
  show ?thesis
    using validateStoredSession_owner_ok [of s m] True
    by (simp add: Owner_Validate_None [where 's = upload_sentinel] known_status_def split: UploadStatus.split)
next
  case False
  then have "Owner_Validate (up_Owner s) \<noteq> (None :: upload_sentinel check)"
    by (simp add: Owner_Validate_None [where 's = upload_sentinel])
  then obtain err where "Owner_Validate (up_Owner s) = Some (err :: upload_err)" by blast
  with False show ?thesis by (simp add: validateStoredSession_def)
qed

lemma stored_geometry: "upload_row_good m r \<Longrightarrow> geometry (view r)"
proof -
  assume g: "upload_row_good m r"
  let ?n = "us_declared_size r" and ?c = "us_chunk_size r"
  have b: "0 < ?n" "?n \<le> MaxInt64" "0 < ?c" "?c \<le> MaxInt32" "expected_chunks ?n ?c \<le> MaxInt32"
      "us_expected_chunks r = int32 (expected_chunks ?n ?c)"
    using g by (simp_all add: upload_row_good_def validateStoredSession_None stored_fields_ok_def)
  have "0 \<le> (?n - 1) div ?c" using b by (simp add: pos_imp_zdiv_nonneg_iff)
  with b show ?thesis by (simp add: geometry_def expected_chunks_div)
qed

subsection \<open>The changes of the tables\<close>

text \<open>
  The specification of the store: the only ways in which its operations may change the two
  tables. Each operation is shown below to change nothing or to make one of these steps.
\<close>

inductive upload_change :: "mime \<Rightarrow> 'z upload_db_scheme \<Rightarrow> 'z upload_db_scheme \<Rightarrow> bool" for m where
  created:
    "\<lbrakk>validateUploadForCreate m s = None; row = insert_upload_row s; upload_row_check row;
      0 < us_created_at row; us_declared_size row \<le> MaxInt64;
      list_all (\<lambda>r. us_id r \<noteq> us_id row \<and> us_object_key r \<noteq> us_object_key row) (upload_session d)\<rbrakk>
     \<Longrightarrow> upload_change m d (d\<lparr>upload_session := upload_session d @ [row]\<rparr>)"
| recorded:
    "\<lbrakk>r \<in> set (upload_session d); us_status r = StatusUploading; pt_upload_id p = us_id r;
      pt_part_index p = us_received_chunks r; us_received_chunks r < us_expected_chunks r;
      pt_byte_size p = size_at (view r) (us_received_chunks r); part_row_check p;
      TrimSpace (pt_backend_part_id p) \<noteq> []; pg_aligned at; us_updated_at r \<le> at;
      upload_row_check (set_progress (pt_byte_size p) at r)\<rbrakk>
     \<Longrightarrow> upload_change m d (d\<lparr>upload_session := sql_update (\<lambda>q. us_id q = us_id r)
          (set_progress (pt_byte_size p) at) (upload_session d), upload_part := upload_part d @ [p]\<rparr>)"
| frozen:
    "\<lbrakk>r \<in> set (upload_session d); us_status r = StatusUploading;
      us_received_chunks r = us_expected_chunks r; pg_aligned at; us_updated_at r \<le> at;
      upload_row_check (set_committing at r)\<rbrakk>
     \<Longrightarrow> upload_change m d (d\<lparr>upload_session := sql_update (\<lambda>q. us_id q = us_id r)
          (set_committing at) (upload_session d)\<rparr>)"
| completed:
    "\<lbrakk>r \<in> set (upload_session d); us_status r = StatusCommitting; length digest = 32;
      pg_aligned at; us_updated_at r \<le> at; upload_row_check (set_committed digest at r)\<rbrakk>
     \<Longrightarrow> upload_change m d (d\<lparr>upload_session := sql_update (\<lambda>q. us_id q = us_id r)
          (set_committed digest at) (upload_session d)\<rparr>)"
| abandoned:
    "\<lbrakk>r \<in> set (upload_session d); us_status r = StatusUploading \<or> us_status r = StatusCommitting;
      pg_aligned at; us_updated_at r \<le> at; upload_row_check (set_aborted at r)\<rbrakk>
     \<Longrightarrow> upload_change m d (d\<lparr>upload_session := sql_update (\<lambda>q. us_id q = us_id r)
          (set_aborted at) (upload_session d)\<rparr>)"

inductive_cases upload_changeE: "upload_change m d d'"

lemma lockOwnedSession_ok:
  assumes "lockOwnedSession m flt uploadID owner d = Inr s"
  obtains r where "r \<in> set (upload_session d)" "us_id r = uploadID" "us_owner r = owner_columns owner"
    "s = view r" "find (owned_row uploadID owner) (upload_session d) = Some r"
  using assms
  by (auto simp: lockOwnedSession_def Let_def split: if_splits option.splits sum.splits
      dest!: scan_upload_view find_Some_in)

lemma update_upload_ok:
  assumes "update_upload flt op uploadID f t = Some t'" and "r \<in> set t" and "us_id r = uploadID"
  shows "t' = sql_update (\<lambda>q. us_id q = us_id r) f t \<and> upload_row_check (f r)"
  using assms by (auto simp: update_upload_def sql_checked_update_def list_all_iff split: if_splits)

lemma max_time_good:
  "pg_aligned u \<Longrightarrow> pg_aligned (pg_time (maxTime t u)) \<and> u \<le> pg_time (maxTime t u)"
  by (auto simp: maxTime_def pg_time_ge_iff)

lemma pg_time_pos: "Microsecond \<le> t \<Longrightarrow> 0 < pg_time t"
  using pg_time_bounds [of t] by (auto simp: pg_time_div)

lemma pg_upload_Create_change:
  assumes "Microsecond \<le> up_CreatedAt s" and "up_DeclaredSize s \<le> MaxInt64"
    and "pg_upload_Create m flt s d = (res, d')" and "d' \<noteq> d \<or> \<not> isl res"
  shows "upload_change m d d' \<and> d' = d\<lparr>upload_session := upload_session d @ [insert_upload_row s]\<rparr> \<and>
    validateUploadForCreate m s = None \<and> (\<forall>s'. res = Inr s' \<longrightarrow> s' = view (insert_upload_row s))"
proof -
  let ?row = "insert_upload_row s"
  have "validateUploadForCreate m s = None \<and> upload_row_check ?row \<and>
      list_all (\<lambda>r. us_id r \<noteq> us_id ?row \<and> us_object_key r \<noteq> us_object_key ?row) (upload_session d) \<and>
      d' = d\<lparr>upload_session := upload_session d @ [?row]\<rparr> \<and>
      (\<forall>s'. res = Inr s' \<longrightarrow> upload_scanSession m ?row = Inr s')"
    using assms(3,4)
    by (auto simp: pg_upload_Create_def Let_def finish_def list_ex_iff list_all_iff
        split: option.splits if_splits dbcall.splits sum.splits)
  then show ?thesis
    using created [of m s ?row d] scan_upload_view [of m ?row] assms(1,2)
    by (auto simp: insert_upload_row_def pg_time_pos)
qed

lemma pg_RecordPart_path:
  assumes "pg_RecordPart m flt w d = (res, d')" and "d' \<noteq> d"
  shows "\<exists>s parts sessions size. validatePartWrite w = None \<and> lockOwnedSession m flt (pw_UploadID w) (pw_Owner w) d = Inr s \<and>
    pw_ObservedAt w < up_ExpiresAt s \<and> up_Status s = StatusUploading \<and>
    pw_Index w = up_ReceivedChunks s \<and> pw_Index w < up_ExpectedChunks s \<and>
    (expectedPartSize s (pw_Index w) :: upload_err + int) = Inr size \<and> pw_ByteSize w = size \<and>
    insert_part flt (insert_part_row w) (upload_part d) = Some parts \<and>
    update_upload flt ''update progress'' (pw_UploadID w)
          (set_progress (pw_ByteSize w) (pg_time (maxTime (pw_ObservedAt w) (up_UpdatedAt s))))
          (upload_session d) = Some sessions \<and>
    d' = d\<lparr>upload_session := sessions, upload_part := parts\<rparr> \<and>
    (\<forall>receipt. res = Inr receipt \<longrightarrow> \<not> rcpt_AlreadyPresent receipt)"
  using assms unfolding pg_RecordPart_def Let_def
  by (auto simp: finish_def split: option.splits sum.splits if_splits dbcall.splits)

lemma uploads_good_row:
  assumes "uploads_good m d" and "r \<in> set (upload_session d)"
  shows "upload_row_good m r" and "progress_good r (parts_of (us_id r) (upload_part d))"
  using assms by (auto simp: uploads_good_def)

lemma insert_part_ok:
  assumes "insert_part flt p t = Some t'"
  shows "t' = t @ [p] \<and> part_row_check p \<and>
    list_all (\<lambda>q. \<not> (pt_upload_id q = pt_upload_id p \<and> pt_part_index q = pt_part_index p)) t"
  using assms by (auto simp: insert_part_def list_ex_iff list_all_iff split: if_splits)

lemma write_part_valid:
  "validatePartWrite w = None \<Longrightarrow> 0 \<le> pw_Index w \<and> 0 < pw_ByteSize w \<and> pw_ByteSize w \<le> MaxInt32 \<and>
    TrimSpace (pw_BackendPartID w) \<noteq> []"
  by (auto simp: validatePartWrite_def split: option.splits if_splits)

lemma pg_RecordPart_change:
  assumes good: "uploads_good m d" and "pg_RecordPart m flt w d = (res, d')" and "d' \<noteq> d"
  shows "\<exists>r at. r \<in> set (upload_session d) \<and> us_id r = pw_UploadID w \<and> us_owner r = owner_columns (pw_Owner w) \<and>
    d' = d\<lparr>upload_session := sql_update (\<lambda>q. us_id q = us_id r) (set_progress (pw_ByteSize w) at) (upload_session d),
      upload_part := upload_part d @ [insert_part_row w]\<rparr> \<and> upload_change m d d'"
proof -
  from pg_RecordPart_path [OF assms(2,3)] obtain s parts sessions size
    where v: "validatePartWrite w = None"
      and lock: "lockOwnedSession m flt (pw_UploadID w) (pw_Owner w) d = Inr s"
      and st: "up_Status s = StatusUploading" "pw_Index w = up_ReceivedChunks s" "pw_Index w < up_ExpectedChunks s"
      and sz: "(expectedPartSize s (pw_Index w) :: upload_err + int) = Inr size" "pw_ByteSize w = size"
      and ip: "insert_part flt (insert_part_row w) (upload_part d) = Some parts"
      and us: "update_upload flt ''update progress'' (pw_UploadID w)
          (set_progress (pw_ByteSize w) (pg_time (maxTime (pw_ObservedAt w) (up_UpdatedAt s))))
          (upload_session d) = Some sessions"
      and d': "d' = d\<lparr>upload_session := sessions, upload_part := parts\<rparr>"
    by blast
  from lock obtain r where r: "r \<in> set (upload_session d)" "us_id r = pw_UploadID w"
      "us_owner r = owner_columns (pw_Owner w)" "s = view r"
    by (rule lockOwnedSession_ok)
  note W = write_part_valid [OF v] and G = uploads_good_row [OF good r(1)]
  note U = update_upload_ok [OF us r(1,2)] and I = insert_part_ok [OF ip]
  have al: "pg_aligned (us_updated_at r)" using G by (simp add: upload_row_good_def)
  have size: "pw_ByteSize w = size_at (view r) (us_received_chunks r)"
    using expectedPartSize_at [OF stored_geometry [OF G(1)], of "pw_Index w", where 'a = upload_sentinel] sz st W r
    by simp
  have p: "pt_upload_id (insert_part_row w) = us_id r" "pt_part_index (insert_part_row w) = us_received_chunks r"
      "pt_byte_size (insert_part_row w) = pw_ByteSize w" "pt_backend_part_id (insert_part_row w) = pw_BackendPartID w"
    using st r W by (simp_all add: insert_part_row_def)
  let ?at = "pg_time (maxTime (pw_ObservedAt w) (us_updated_at r))"
  note A = max_time_good [OF al, of "pw_ObservedAt w"]
  have e: "d' = d\<lparr>upload_session := sql_update (\<lambda>q. us_id q = us_id r)
      (set_progress (pt_byte_size (insert_part_row w)) ?at) (upload_session d),
      upload_part := upload_part d @ [insert_part_row w]\<rparr>"
    using U I r by (simp add: d' p)
  have "upload_change m d d'"
    unfolding e by (rule recorded) (use r st W U I A size p in simp_all)
  with e r p show ?thesis by (intro exI [of _ r] exI [of _ ?at]) simp
qed

lemma pg_BeginCommit_path:
  assumes "pg_BeginCommit m flt uploadID owner t d = (res, d')" and "d' \<noteq> d \<or> \<not> isl res"
  shows "\<exists>s parts. lockOwnedSession m flt uploadID owner d = Inr s \<and> t < up_ExpiresAt s \<and>
    (up_Status s = StatusUploading \<or> up_Status s = StatusCommitting) \<and>
    readAllParts flt uploadID d = Inr parts \<and> validateCompleteParts s parts = None \<and>
    (\<forall>plan. res = Inr plan \<longrightarrow> plan_Parts plan = parts \<and> up_Status (plan_Session plan) = StatusCommitting \<and>
       up_ID (plan_Session plan) = up_ID s \<and> up_DeclaredSize (plan_Session plan) = up_DeclaredSize s \<and>
       up_ExpectedChunks (plan_Session plan) = up_ExpectedChunks s) \<and>
    (if up_Status s = StatusUploading
     then \<exists>sessions. update_upload flt ''freeze parts'' uploadID
        (set_committing (pg_time (maxTime t (up_UpdatedAt s)))) (upload_session d) = Some sessions \<and>
        d' = d\<lparr>upload_session := sessions\<rparr>
     else d' = d)"
  using assms unfolding pg_BeginCommit_def Let_def
  by (auto simp: finish_def isl_def split: option.splits sum.splits if_splits dbcall.splits)

lemma pg_BeginCommit_change:
  assumes good: "uploads_good m d" and "pg_BeginCommit m flt uploadID owner t d = (res, d')" and "d' \<noteq> d"
  shows "\<exists>r at. r \<in> set (upload_session d) \<and> us_id r = uploadID \<and> us_owner r = owner_columns owner \<and>
    d' = d\<lparr>upload_session := sql_update (\<lambda>q. us_id q = us_id r) (set_committing at) (upload_session d)\<rparr> \<and>
    upload_change m d d'"
proof -
  from pg_BeginCommit_path [OF assms(2)] assms(3) obtain s parts sessions
    where lock: "lockOwnedSession m flt uploadID owner d = Inr s" and st: "up_Status s = StatusUploading"
      and v: "validateCompleteParts s parts = None"
      and us: "update_upload flt ''freeze parts'' uploadID
        (set_committing (pg_time (maxTime t (up_UpdatedAt s)))) (upload_session d) = Some sessions"
      and d': "d' = d\<lparr>upload_session := sessions\<rparr>"
    by (auto split: if_splits)
  from lock obtain r where r: "r \<in> set (upload_session d)" "us_id r = uploadID"
      "us_owner r = owner_columns owner" "s = view r"
    by (rule lockOwnedSession_ok)
  note G = uploads_good_row [OF good r(1)] and U = update_upload_ok [OF us r(1,2)]
  have al: "pg_aligned (us_updated_at r)" using G by (simp add: upload_row_good_def)
  let ?at = "pg_time (maxTime t (us_updated_at r))"
  note A = max_time_good [OF al, of t]
  have full: "us_received_chunks r = us_expected_chunks r"
    using v validateCompleteParts_iff [OF stored_geometry [OF G(1)]] r by simp
  have e: "d' = d\<lparr>upload_session := sql_update (\<lambda>q. us_id q = us_id r) (set_committing ?at) (upload_session d)\<rparr>"
    using U r by (simp add: d')
  have "upload_change m d d'"
    unfolding e by (rule frozen) (use r st U A full in simp_all)
  with e r show ?thesis by (intro exI [of _ r] exI [of _ ?at]) simp
qed

lemma pg_Complete_path:
  assumes "pg_Complete m flt uploadID owner digest t d = (res, d')" and "d' \<noteq> d \<or> \<not> isl res"
  shows "\<exists>s. lockOwnedSession m flt uploadID owner d = Inr s \<and>
    (if up_Status s = StatusCommitted then d' = d \<and> up_CommittedSHA256 s = Some digest
     else up_Status s = StatusCommitting \<and> t < up_ExpiresAt s \<and>
       (\<exists>sessions. update_upload flt ''complete'' uploadID
         (set_committed digest (pg_time (maxTime t (up_UpdatedAt s)))) (upload_session d) = Some sessions \<and>
        d' = d\<lparr>upload_session := sessions\<rparr>))"
  using assms unfolding pg_Complete_def Let_def
  by (cases "lockOwnedSession m flt uploadID owner d";
    auto simp: finish_def split: option.splits if_splits dbcall.splits; simp add: eq_commute [of "Inl _"])

lemma pg_Complete_change:
  assumes good: "uploads_good m d" and "pg_Complete m flt uploadID owner digest t d = (res, d')" and "d' \<noteq> d"
  shows "\<exists>r at. r \<in> set (upload_session d) \<and> us_id r = uploadID \<and> us_owner r = owner_columns owner \<and>
    d' = d\<lparr>upload_session := sql_update (\<lambda>q. us_id q = us_id r) (set_committed digest at) (upload_session d)\<rparr> \<and>
    upload_change m d d'"
proof -
  from pg_Complete_path [OF assms(2)] assms(3) obtain s sessions
    where lock: "lockOwnedSession m flt uploadID owner d = Inr s" and st: "up_Status s = StatusCommitting"
      and us: "update_upload flt ''complete'' uploadID
        (set_committed digest (pg_time (maxTime t (up_UpdatedAt s)))) (upload_session d) = Some sessions"
      and d': "d' = d\<lparr>upload_session := sessions\<rparr>"
    by (auto split: if_splits)
  from lock obtain r where r: "r \<in> set (upload_session d)" "us_id r = uploadID"
      "us_owner r = owner_columns owner" "s = view r"
    by (rule lockOwnedSession_ok)
  note G = uploads_good_row [OF good r(1)] and U = update_upload_ok [OF us r(1,2)]
  have al: "pg_aligned (us_updated_at r)" using G by (simp add: upload_row_good_def)
  let ?at = "pg_time (maxTime t (us_updated_at r))"
  note A = max_time_good [OF al, of t]
  have len: "length digest = 32" using U by (simp add: upload_row_check_def set_committed_def)
  have e: "d' = d\<lparr>upload_session := sql_update (\<lambda>q. us_id q = us_id r) (set_committed digest ?at) (upload_session d)\<rparr>"
    using U r by (simp add: d')
  have "upload_change m d d'"
    unfolding e by (rule completed) (use r st U A len in simp_all)
  with e r show ?thesis by (intro exI [of _ r] exI [of _ ?at]) simp
qed

lemma pg_Abort_path:
  assumes "pg_Abort m flt uploadID owner t d = (res, d')" and "d' \<noteq> d \<or> \<not> isl res"
  shows "\<exists>s. lockOwnedSession m flt uploadID owner d = Inr s \<and>
    (if up_Status s = StatusAborted \<or> up_Status s = StatusExpired then d' = d
     else (up_Status s = StatusUploading \<or> up_Status s = StatusCommitting) \<and>
       (\<exists>sessions. update_upload flt ''abort'' uploadID
         (set_aborted (pg_time (maxTime t (up_UpdatedAt s)))) (upload_session d) = Some sessions \<and>
        d' = d\<lparr>upload_session := sessions\<rparr>))"
  using assms unfolding pg_Abort_def Let_def
  by (cases "lockOwnedSession m flt uploadID owner d";
    auto simp: finish_def split: option.splits if_splits dbcall.splits; simp add: eq_commute [of "Inl _"])

lemma pg_Abort_change:
  assumes good: "uploads_good m d" and "pg_Abort m flt uploadID owner t d = (res, d')" and "d' \<noteq> d"
  shows "\<exists>r at. r \<in> set (upload_session d) \<and> us_id r = uploadID \<and> us_owner r = owner_columns owner \<and>
    d' = d\<lparr>upload_session := sql_update (\<lambda>q. us_id q = us_id r) (set_aborted at) (upload_session d)\<rparr> \<and>
    upload_change m d d'"
proof -
  from pg_Abort_path [OF assms(2)] assms(3) obtain s sessions
    where lock: "lockOwnedSession m flt uploadID owner d = Inr s"
      and st: "up_Status s = StatusUploading \<or> up_Status s = StatusCommitting"
      and us: "update_upload flt ''abort'' uploadID
        (set_aborted (pg_time (maxTime t (up_UpdatedAt s)))) (upload_session d) = Some sessions"
      and d': "d' = d\<lparr>upload_session := sessions\<rparr>"
    by (auto split: if_splits)
  from lock obtain r where r: "r \<in> set (upload_session d)" "us_id r = uploadID"
      "us_owner r = owner_columns owner" "s = view r"
    by (rule lockOwnedSession_ok)
  note G = uploads_good_row [OF good r(1)] and U = update_upload_ok [OF us r(1,2)]
  have al: "pg_aligned (us_updated_at r)" using G by (simp add: upload_row_good_def)
  let ?at = "pg_time (maxTime t (us_updated_at r))"
  note A = max_time_good [OF al, of t]
  have e: "d' = d\<lparr>upload_session := sql_update (\<lambda>q. us_id q = us_id r) (set_aborted ?at) (upload_session d)\<rparr>"
    using U r by (simp add: d')
  have "upload_change m d d'"
    unfolding e by (rule abandoned) (use r st U A in simp_all)
  with e r show ?thesis by (intro exI [of _ r] exI [of _ ?at]) simp
qed

subsection \<open>Every change keeps the invariant\<close>

lemma size_at_same:
  assumes "up_DeclaredSize s = up_DeclaredSize t" "up_ChunkSize s = up_ChunkSize t"
    "up_ExpectedChunks s = up_ExpectedChunks t"
  shows "size_at s i = size_at t i" and "bytes_upto s i = bytes_upto t i"
  using assms by (simp_all add: size_at_def bytes_upto_def)

definition same_metadata :: "upload_row \<Rightarrow> upload_row \<Rightarrow> bool" where
  "same_metadata r r' \<longleftrightarrow> us_id r' = us_id r \<and> us_owner r' = us_owner r \<and>
     us_original_filename r' = us_original_filename r \<and> us_content_type r' = us_content_type r \<and>
     us_declared_size r' = us_declared_size r \<and> us_chunk_size r' = us_chunk_size r \<and>
     us_expected_chunks r' = us_expected_chunks r \<and> us_object_key r' = us_object_key r \<and>
     us_multipart_upload_id r' = us_multipart_upload_id r \<and> us_created_at r' = us_created_at r \<and>
     us_expires_at r' = us_expires_at r"

lemma setters_keep [simp]:
  "same_metadata r r" "same_metadata r (set_progress n at r)" "same_metadata r (set_committing at r)"
  "same_metadata r (set_committed digest at r)" "same_metadata r (set_aborted at r)"
  by (simp_all add: same_metadata_def set_progress_def set_committing_def set_committed_def set_aborted_def)

lemma row_good_after:
  assumes good: "upload_row_good m r" and same: "same_metadata r r'" and chk: "upload_row_check r'"
    and "pg_aligned (us_updated_at r')"
  shows "upload_row_good m r'"
proof -
  have "0 < us_created_at r'" "us_created_at r' \<le> us_updated_at r'" "us_created_at r' < us_expires_at r'"
    using good same chk by (auto simp: upload_row_good_def same_metadata_def upload_row_check_def)
  then have times: "\<not> upload_times_invalid (view r')" by (simp add: upload_times_invalid_def IsZero_def)
  have mp: "up_MultipartUploadID (view r') = up_MultipartUploadID (view r)"
    using same by (simp add: view_def upload_of_row_def same_metadata_def)
  have "validateStoredSession m (view r) = None" using good by (simp add: upload_row_good_def)
  then have "validateStoredSession m (view r') = None"
    using same chk times mp
    unfolding validateStoredSession_None stored_fields_ok_def same_metadata_def upload_row_check_def
    by (simp split: if_splits)
  then show ?thesis using good same chk assms(4) by (simp add: upload_row_good_def same_metadata_def)
qed

lemma progress_after:
  assumes "progress_good r ps" and "same_metadata r r'"
    and "us_received_chunks r' = us_received_chunks r" "us_received_bytes r' = us_received_bytes r"
    and "us_status r' = StatusCommitting \<or> us_status r' = StatusCommitted \<Longrightarrow>
      us_received_chunks r = us_expected_chunks r"
  shows "progress_good r' ps"
  using assms size_at_same [of "view r'" "view r"] by (auto simp: progress_good_def same_metadata_def)

lemma set_progress_fields [simp]:
  "us_received_chunks (set_progress n at r) = us_received_chunks r + 1"
  "us_received_bytes (set_progress n at r) = us_received_bytes r + n"
  "us_status (set_progress n at r) = us_status r"
  "us_expected_chunks (set_progress n at r) = us_expected_chunks r"
  by (simp_all add: set_progress_def)

lemma progress_next:
  assumes g: "geometry (view r)" and p: "progress_good r ps" and "us_status r = StatusUploading"
    and "us_received_chunks r < us_expected_chunks r"
    and "part_row_check q" "TrimSpace (pt_backend_part_id q) \<noteq> []" "pt_part_index q = us_received_chunks r"
    and "pt_byte_size q = size_at (view r) (us_received_chunks r)"
  shows "progress_good (set_progress (pt_byte_size q) at r) (ps @ [q])"
proof -
  let ?r = "set_progress (pt_byte_size q) at r"
  have same: "size_at (view (set_progress n at r)) i = size_at (view r) i"
      "bytes_upto (view (set_progress n at r)) i = bytes_upto (view r) i" for n i
    by (rule size_at_same; simp add: set_progress_def)+
  have n: "0 \<le> us_received_chunks r" "int (length ps) = us_received_chunks r"
    using p by (auto simp: progress_good_def)
  have "bytes_upto (view r) (us_received_chunks r + 1) =
      bytes_upto (view r) (us_received_chunks r) + size_at (view r) (us_received_chunks r)"
    using bytes_upto_Suc [OF g n(1)] assms(4) by simp
  with assms n show ?thesis
    by (auto simp: progress_good_def same nth_append less_Suc_eq)
qed

lemma parts_of_append [simp]:
  "parts_of u (t @ [p]) = parts_of u t @ (if pt_upload_id p = u then [p] else [])"
  by (simp add: parts_of_def)

lemma the_row:
  "uploads_good m d \<Longrightarrow> r \<in> set (upload_session d) \<Longrightarrow> q \<in> set (upload_session d) \<Longrightarrow> us_id q = us_id r \<Longrightarrow> q = r"
  by (metis (mono_tags, lifting) uploads_good_def distinct_map inj_onD)

lemma update_good:
  assumes good: "uploads_good m d" and r: "r \<in> set (upload_session d)"
    and keep: "\<And>q. same_metadata q (f q)"
    and row: "upload_row_check (f r)" "pg_aligned (us_updated_at (f r))"
    and d': "upload_session d' = sql_update (\<lambda>q. us_id q = us_id r) f (upload_session d)"
    and parts: "upload_part d' = upload_part d \<or> (\<exists>p. upload_part d' = upload_part d @ [p] \<and> pt_upload_id p = us_id r)"
    and progress: "progress_good (f r) (parts_of (us_id r) (upload_part d'))"
  shows "uploads_good m d'"
proof -
  have f: "us_id (f q) = us_id q" "us_object_key (f q) = us_object_key q" for q
    using keep by (simp_all add: same_metadata_def)
  have fr: "upload_row_good m (f r)"
    by (rule row_good_after [OF uploads_good_row(1) [OF good r] keep row])
  have "upload_row_good m q' \<and> progress_good q' (parts_of (us_id q') (upload_part d'))"
    if "q' \<in> set (upload_session d')" for q'
  proof -
    from that obtain q where q: "q \<in> set (upload_session d)" "q' = (if us_id q = us_id r then f q else q)"
      by (auto simp: d' set_sql_update)
    show ?thesis
    proof (cases "us_id q = us_id r")
      case True
      then have "q = r" by (rule the_row [OF good r q(1)])
      with q fr progress f show ?thesis by simp
    next
      case False
      then have "parts_of (us_id q) (upload_part d') = parts_of (us_id q) (upload_part d)"
        using parts by auto
      with False q uploads_good_row [OF good q(1)] show ?thesis by simp
    qed
  qed
  then have "\<forall>q \<in> set (upload_session d'). upload_row_good m q \<and> progress_good q (parts_of (us_id q) (upload_part d'))"
    by blast
  moreover have "\<forall>p \<in> set (upload_part d'). pt_upload_id p \<in> us_id ` set (upload_session d')"
  proof -
    have "us_id ` set (upload_session d') = us_id ` set (upload_session d)"
      using sql_update_map [of "\<lambda>q. us_id q = us_id r" us_id f "upload_session d"] f
      by (simp add: d' flip: set_map)
    then show ?thesis using good parts r by (auto simp: uploads_good_def)
  qed
  ultimately show ?thesis
    using good f by (simp add: uploads_good_def d' sql_update_map)
qed

lemma new_upload_good:
  assumes v: "validateUploadForCreate m s = None" and row: "row = insert_upload_row s" "upload_row_check row"
      "0 < us_created_at row" "us_declared_size row \<le> MaxInt64"
  shows "upload_row_good m row \<and> progress_good row []"
proof -
  have O: "Owner_Validate (up_Owner s) = (None :: upload_sentinel check)"
    using v by (simp add: validateUploadForCreate_def split: if_splits option.splits)
  then have own: "valid_owner (up_Owner s)" by (simp add: Owner_Validate_None [where 's = upload_sentinel])
  have F: "validUUID (up_ID s)"
      "is_normal (SanitizeFilename (up_OriginalFilename s) :: upload_err + string) (up_OriginalFilename s)"
      "is_normal (normalizeContentType m (up_ContentType s) :: upload_err + string) (up_ContentType s)"
      "0 < up_DeclaredSize s" "0 < up_ChunkSize s" "up_ChunkSize s \<le> MaxInt32"
      "expected_chunks (up_DeclaredSize s) (up_ChunkSize s) \<le> MaxInt32"
      "up_ExpectedChunks s = int32 (expected_chunks (up_DeclaredSize s) (up_ChunkSize s))"
      "up_Status s = StatusUploading" "TrimSpace (up_ObjectKey s) \<noteq> []"
      "length (up_ObjectKey s) \<le> maxObjectKeyBytes" "length (up_MultipartUploadID s) \<le> maxBackendIDBytes"
    using v unfolding validateUploadForCreate_def Let_def
    by (simp_all add: O guard_None split del: if_split)
  have c32: "us_chunk_size row = up_ChunkSize s" using F(5,6) by (simp add: row(1) insert_upload_row_def)
  have fields: "us_id row = up_ID s" "us_owner row = owner_columns (up_Owner s)"
      "us_original_filename row = up_OriginalFilename s" "us_content_type row = up_ContentType s"
      "us_declared_size row = up_DeclaredSize s" "us_expected_chunks row = up_ExpectedChunks s"
      "us_received_chunks row = 0" "us_received_bytes row = 0" "us_status row = StatusUploading"
      "us_object_key row = up_ObjectKey s" "us_committed_sha256 row = None" "us_committed_at row = None"
      "up_MultipartUploadID (view row) = up_MultipartUploadID s"
      "pg_aligned (us_created_at row)" "pg_aligned (us_updated_at row)" "pg_aligned (us_expires_at row)"
    by (simp_all add: row(1) insert_upload_row_def F(9) view_def upload_of_row_def)
  have ch: "0 < us_expected_chunks row" "us_created_at row \<le> us_updated_at row" "us_created_at row < us_expires_at row"
    using row(2) by (simp_all add: upload_row_check_def)
  then have times: "\<not> upload_times_invalid (view row)"
    using row(3) by (simp add: upload_times_invalid_def IsZero_def)
  have "validateStoredSession m (view row) = None"
    using F ch own times by (simp add: validateStoredSession_None stored_fields_ok_def fields c32 known_status_def)
  then have good: "upload_row_good m row" using row(2-4) fields by (simp add: upload_row_good_def)
  then show ?thesis using bytes_upto_0 [OF stored_geometry] by (simp add: progress_good_def fields)
qed

text \<open>What a change does to the part list of the upload it is about, and to the others.\<close>

lemma change_keeps_invariant:
  assumes "upload_change m d d'" and good: "uploads_good m d"
  shows "uploads_good m d'"
  using assms(1)
proof cases
  case (created s row)
  have "parts_of (us_id row) (upload_part d) = []"
    using good created by (auto simp: uploads_good_def parts_of_def filter_empty_conv list_all_iff)
  with new_upload_good [OF created(2,3,4,5,6)] good created(1,7) show ?thesis
    by (auto simp: uploads_good_def list_all_iff)
next
  case (recorded r p at)
  note G = uploads_good_row [OF good recorded(2)]
  show ?thesis
  proof (rule update_good [OF good recorded(2), where f = "set_progress (pt_byte_size p) at"])
    show "progress_good (set_progress (pt_byte_size p) at r) (parts_of (us_id r) (upload_part d'))"
      using progress_next [OF stored_geometry [OF G(1)] G(2), of p at] recorded by simp
    show "pg_aligned (us_updated_at (set_progress (pt_byte_size p) at r))"
      using recorded by (simp add: set_progress_def)
  qed (use recorded in auto)
next
  case (frozen r at)
  note G = uploads_good_row [OF good frozen(2)]
  show ?thesis
  proof (rule update_good [OF good frozen(2), where f = "set_committing at"])
    show "progress_good (set_committing at r) (parts_of (us_id r) (upload_part d'))"
      by (rule progress_after [OF _ setters_keep(3)])
        (use frozen G(2) in \<open>simp_all add: set_committing_def\<close>)
    show "pg_aligned (us_updated_at (set_committing at r))" using frozen by (simp add: set_committing_def)
  qed (use frozen in auto)
next
  case (completed r digest at)
  note G = uploads_good_row [OF good completed(2)]
  show ?thesis
  proof (rule update_good [OF good completed(2), where f = "set_committed digest at"])
    show "progress_good (set_committed digest at r) (parts_of (us_id r) (upload_part d'))"
      by (rule progress_after [OF _ setters_keep(4)])
        (use completed G(2) in \<open>simp_all add: set_committed_def, simp add: progress_good_def\<close>)
    show "pg_aligned (us_updated_at (set_committed digest at r))" using completed by (simp add: set_committed_def)
  qed (use completed in auto)
next
  case (abandoned r at)
  note G = uploads_good_row [OF good abandoned(2)]
  show ?thesis
  proof (rule update_good [OF good abandoned(2), where f = "set_aborted at"])
    show "progress_good (set_aborted at r) (parts_of (us_id r) (upload_part d'))"
      by (rule progress_after [OF _ setters_keep(5)])
        (use abandoned G(2) in \<open>simp_all add: set_aborted_def\<close>)
    show "pg_aligned (us_updated_at (set_aborted at r))" using abandoned by (simp add: set_aborted_def)
  qed (use abandoned in auto)
qed

subsection \<open>The life of one upload\<close>

definition final_status :: "UploadStatus \<Rightarrow> bool" where
  "final_status status \<longleftrightarrow> status = StatusCommitted \<or> status = StatusAborted \<or> status = StatusExpired"

definition upload_edge :: "UploadStatus \<Rightarrow> UploadStatus \<Rightarrow> bool" where
  "upload_edge a b \<longleftrightarrow> a = b \<or> (a = StatusUploading \<and> b = StatusCommitting) \<or>
     (a = StatusCommitting \<and> b = StatusCommitted) \<or>
     ((a = StatusUploading \<or> a = StatusCommitting) \<and> b = StatusAborted)"

text \<open>
  A later state of an upload: the metadata given at creation is kept, the status moved
  along the lifecycle, parts were only appended and only while uploading, and a final row is kept as it is.
\<close>

definition evolves :: "upload_row \<Rightarrow> part_row list \<Rightarrow> upload_row \<Rightarrow> part_row list \<Rightarrow> bool" where
  "evolves r ps r' ps' \<longleftrightarrow>
     same_metadata r r' \<and> upload_edge\<^sup>*\<^sup>* (us_status r) (us_status r') \<and>
     us_received_chunks r \<le> us_received_chunks r' \<and> us_updated_at r \<le> us_updated_at r' \<and>
     (\<exists>qs. ps' = ps @ qs) \<and> (us_status r \<noteq> StatusUploading \<longrightarrow> ps' = ps) \<and>
     (final_status (us_status r) \<longrightarrow> r' = r)"

lemma edge_from_uploading: "upload_edge\<^sup>*\<^sup>* a b \<Longrightarrow> b = StatusUploading \<Longrightarrow> a = StatusUploading"
  by (induction rule: converse_rtranclp_induct) (auto simp: upload_edge_def)

lemma evolves_refl: "evolves r ps r ps"
  by (simp add: evolves_def same_metadata_def)

lemma evolves_trans:
  assumes "evolves a ps b qs" and "evolves b qs c rs"
  shows "evolves a ps c rs"
proof -
  have "us_status a \<noteq> StatusUploading \<Longrightarrow> us_status b \<noteq> StatusUploading"
    using assms(1) edge_from_uploading by (auto simp: evolves_def)
  with assms show ?thesis
    by (auto simp: evolves_def same_metadata_def intro: rtranclp_trans)
qed

lemma set_evolves:
  assumes "same_metadata r (f r)" "upload_edge (us_status r) (us_status (f r))"
    and "us_received_chunks r \<le> us_received_chunks (f r)" "us_updated_at r \<le> us_updated_at (f r)"
    and "\<not> final_status (us_status r)" and "ps' = ps @ qs" and "us_status r \<noteq> StatusUploading \<Longrightarrow> qs = []"
  shows "evolves r ps (f r) ps'"
  using assms by (auto simp: evolves_def)

lemma update_evolves:
  assumes good: "uploads_good m d" and r: "r \<in> set (upload_session d)" and q: "q \<in> set (upload_session d)"
    and d': "upload_session d' = sql_update (\<lambda>q. us_id q = us_id r) f (upload_session d)"
    and parts: "upload_part d' = upload_part d \<or> (\<exists>p. upload_part d' = upload_part d @ [p] \<and> pt_upload_id p = us_id r)"
    and step: "evolves r (parts_of (us_id r) (upload_part d)) (f r) (parts_of (us_id r) (upload_part d'))"
  shows "\<exists>q' \<in> set (upload_session d'). evolves q (parts_of (us_id q) (upload_part d)) q' (parts_of (us_id q) (upload_part d'))"
proof (cases "us_id q = us_id r")
  case True
  then have "q = r" by (rule the_row [OF good r q])
  moreover have "f r \<in> set (upload_session d')" using r by (auto simp: d' set_sql_update)
  ultimately show ?thesis using step by blast
next
  case False
  then have "parts_of (us_id q) (upload_part d') = parts_of (us_id q) (upload_part d)"
    using parts by auto
  moreover have "q \<in> set (upload_session d')" using q False by (auto simp: d' set_sql_update)
  ultimately show ?thesis using evolves_refl by metis
qed

lemma change_evolves:
  assumes "upload_change m d d'" and good: "uploads_good m d" and q: "q \<in> set (upload_session d)"
  shows "\<exists>q' \<in> set (upload_session d'). evolves q (parts_of (us_id q) (upload_part d)) q' (parts_of (us_id q) (upload_part d'))"
  using assms(1)
proof cases
  case (created s row)
  with q show ?thesis by (intro bexI [of _ q]) (simp_all add: evolves_refl)
next
  case (recorded r p at)
  show ?thesis
    by (rule update_evolves [OF good recorded(2) q, where f = "set_progress (pt_byte_size p) at"])
      (use recorded in \<open>auto intro!: set_evolves [where qs = "[p]"] simp: upload_edge_def final_status_def set_progress_def same_metadata_def\<close>)
next
  case (frozen r at)
  show ?thesis
    by (rule update_evolves [OF good frozen(2) q, where f = "set_committing at"])
      (use frozen in \<open>auto intro!: set_evolves [where qs = "[]"] simp: upload_edge_def final_status_def set_committing_def same_metadata_def\<close>)
next
  case (completed r digest at)
  show ?thesis
    by (rule update_evolves [OF good completed(2) q, where f = "set_committed digest at"])
      (use completed in \<open>auto intro!: set_evolves [where qs = "[]"] simp: upload_edge_def final_status_def set_committed_def same_metadata_def\<close>)
next
  case (abandoned r at)
  show ?thesis
    by (rule update_evolves [OF good abandoned(2) q, where f = "set_aborted at"])
      (use abandoned in \<open>auto intro!: set_evolves [where qs = "[]"] simp: upload_edge_def final_status_def set_aborted_def same_metadata_def\<close>)
qed

end
