(* ===== verification/Job.thy ===== *)
theory Job
  imports Upload
begin

text \<open>
  PDF jobs without a database: the lifecycle of \<open>internal/job/status.go\<close>, the types and
  validations of \<open>internal/job/job.go\<close> and those of the worker queue in
  \<open>internal/job/queue.go\<close>. The owner and digest types are those of the theory \<open>Identity\<close>.
\<close>

subsection \<open>The lifecycle\<close>

text \<open>\<open>type Status string\<close>: the exported constants, and any other value of the type.\<close>

datatype JobStatus =
    StatusQueued | StatusAnalyzing | StatusOptimizing | StatusValidating | StatusCompleted
  | StatusFailed | StatusCancelled | StatusJobExpired | JobStatusOther string

definition transitions :: "JobStatus \<rightharpoonup> JobStatus list" where
  "transitions s =
     (case s of
        StatusQueued \<Rightarrow> Some [StatusAnalyzing, StatusFailed, StatusCancelled]
      | StatusAnalyzing \<Rightarrow> Some [StatusQueued, StatusOptimizing, StatusCompleted, StatusFailed, StatusCancelled]
      | StatusOptimizing \<Rightarrow> Some [StatusQueued, StatusValidating, StatusFailed, StatusCancelled]
      | StatusValidating \<Rightarrow> Some [StatusQueued, StatusOptimizing, StatusCompleted, StatusFailed, StatusCancelled]
      | StatusCompleted \<Rightarrow> Some [StatusJobExpired]
      | StatusFailed \<Rightarrow> Some [StatusJobExpired]
      | StatusCancelled \<Rightarrow> Some [StatusJobExpired]
      | StatusJobExpired \<Rightarrow> Some []
      | JobStatusOther v \<Rightarrow> None)"

definition Status_Valid :: "JobStatus \<Rightarrow> bool" where
  "Status_Valid s \<longleftrightarrow> transitions s \<noteq> None"

definition Status_Terminal :: "JobStatus \<Rightarrow> bool" where
  "Status_Terminal s \<longleftrightarrow>
     s = StatusCompleted \<or> s = StatusFailed \<or> s = StatusCancelled \<or> s = StatusJobExpired"

definition CanTransitionTo :: "JobStatus \<Rightarrow> JobStatus \<Rightarrow> bool" where
  "CanTransitionTo s next_status \<longleftrightarrow>
     list_ex (\<lambda>candidate. candidate = next_status) (case transitions s of None \<Rightarrow> [] | Some l \<Rightarrow> l)"

datatype job_sentinel =
    JobErrNotFound | JobErrConflict | ErrNoJobAvailable | ErrLeaseLost | ErrCancellationRequested

type_synonym job_err = "job_sentinel err"

definition ValidateTransition :: "JobStatus \<Rightarrow> JobStatus \<Rightarrow> job_sentinel check" where
  "ValidateTransition current next_status =
     (if \<not> Status_Valid current then Some (ErrText ''invalid current job status %q'')
      else if \<not> Status_Valid next_status then Some (ErrText ''invalid next job status %q'')
      else if \<not> CanTransitionTo current next_status
        then Some (ErrText ''job status cannot transition from %q to %q'')
      else None)"

text \<open>The statuses of a job that a worker holds, \<open>status IN ('analyzing', 'optimizing', 'validating')\<close>.\<close>

definition active_status :: "JobStatus \<Rightarrow> bool" where
  "active_status s \<longleftrightarrow> s = StatusAnalyzing \<or> s = StatusOptimizing \<or> s = StatusValidating"

subsection \<open>Types\<close>

definition maxIdentityTextBytes :: nat where "maxIdentityTextBytes = 255"
definition maxEmailBytes :: nat where "maxEmailBytes = 320"
definition maxProgressBytes :: nat where "maxProgressBytes = 512"
definition maxErrorCodeBytes :: nat where "maxErrorCodeBytes = 128"
definition maxErrorMessageBytes :: nat where "maxErrorMessageBytes = 1024"

record Creator =
  ExternalID :: int
  Login :: string
  Name :: string
  Email :: string

definition no_creator :: Creator where
  "no_creator = \<lparr>ExternalID = 0, Login = [], Name = [], Email = []\<rparr>"

record Job =
  job_ID :: string
  job_UploadID :: string
  job_Owner :: Owner
  job_Creator :: Creator
  job_OriginalFilename :: string
  job_InputObjectKey :: string
  job_InputSHA256 :: SHA256
  job_InputBytes :: int
  job_OutputObjectKey :: string
  job_OutputSHA256 :: "SHA256 option"
  job_OutputBytes :: "int option"
  job_PageCount :: "int option"
  job_SelectedProfile :: string
  job_TargetBytes :: int
  job_TargetMet :: "bool option"
  job_Status :: JobStatus
  job_ProgressPercent :: int
  job_ProgressMessage :: string
  job_AttemptCount :: int
  job_MaxAttempts :: int
  job_AvailableAt :: instant
  job_LeaseOwner :: string
  job_LeaseExpiresAt :: "instant option"
  job_HeartbeatAt :: "instant option"
  job_CancelRequestedAt :: "instant option"
  job_ErrorCode :: string
  job_ErrorMessage :: string
  job_CreatedAt :: instant
  job_UpdatedAt :: instant
  job_StartedAt :: "instant option"
  job_CompletedAt :: "instant option"
  job_ExpiresAt :: instant
  job_DeletionRequestedAt :: "instant option"
  job_Version :: int

record CreateRequest =
  cr_UploadID :: string
  cr_Owner :: Owner
  cr_Creator :: Creator

record Transition =
  tr_JobID :: string
  tr_WorkerID :: string
  tr_ExpectedStatus :: JobStatus
  tr_NextStatus :: JobStatus
  tr_ProgressPercent :: int
  tr_ProgressMessage :: string
  tr_ErrorCode :: string
  tr_ErrorMessage :: string
  tr_ObservedAt :: instant
  tr_LeaseExpiresAt :: instant

record RecoveryRequest =
  rr_ObservedAt :: instant
  rr_RetryAt :: instant
  rr_Limit :: int

record RecoveryResult =
  Requeued :: int
  Cancelled :: int
  Failed :: int

text \<open>The zero value of the digest array, \<open>SHA256{}\<close>.\<close>

definition no_digest :: SHA256 where
  "no_digest = replicate 32 0"

subsection \<open>Validation\<close>

definition validBoundedText :: "string \<Rightarrow> nat \<Rightarrow> bool" where
  "validBoundedText v maximum \<longleftrightarrow> TrimSpace v \<noteq> [] \<and> length v \<le> maximum"

definition validWorkerID :: "string \<Rightarrow> bool" where
  "validWorkerID workerID \<longleftrightarrow> TrimSpace workerID = workerID \<and> validBoundedText workerID maxIdentityTextBytes"

text \<open>
  The owner type of this package repeats that of \<open>upload.go\<close> with its own messages.
\<close>

definition job_Owner_Validate :: "Owner \<Rightarrow> job_sentinel check" where
  "job_Owner_Validate owner =
     (case Kind owner of
        OwnerAuthenticated \<Rightarrow>
          if UserID owner \<le> 0 \<or> AnonymousSessionID owner \<noteq> []
            then Some (ErrText ''authenticated job owner requires only a positive user ID'') else None
      | OwnerAnonymous \<Rightarrow>
          if UserID owner \<noteq> 0 \<or> \<not> validUUID (AnonymousSessionID owner)
            then Some (ErrText ''anonymous job owner requires only a session UUID'') else None
      | OwnerOther k \<Rightarrow> Some (ErrText ''job owner kind is invalid''))"

lemma job_Owner_Validate_None: "job_Owner_Validate owner = None \<longleftrightarrow> valid_owner owner"
  by (auto simp: job_Owner_Validate_def Owner_Validate_def split: OwnerKind.splits if_splits)

definition job_NewAuthenticatedOwner :: "int \<Rightarrow> Owner \<times> job_sentinel check" where
  "job_NewAuthenticatedOwner userID =
     (let owner = \<lparr>Kind = OwnerAuthenticated, UserID = userID, AnonymousSessionID = []\<rparr>
      in (owner, job_Owner_Validate owner))"

definition job_NewAnonymousOwner :: "string \<Rightarrow> Owner \<times> job_sentinel check" where
  "job_NewAnonymousOwner sessionID =
     (let owner = \<lparr>Kind = OwnerAnonymous, UserID = 0, AnonymousSessionID = sessionID\<rparr>
      in (owner, job_Owner_Validate owner))"

definition validateCreator :: "Owner \<Rightarrow> Creator \<Rightarrow> job_sentinel check" where
  "validateCreator owner creator =
     (case job_Owner_Validate owner of Some err \<Rightarrow> Some err | None \<Rightarrow>
      if Kind owner = OwnerAnonymous
        then (if creator \<noteq> no_creator
          then Some (ErrText ''anonymous job cannot contain an identity snapshot'') else None)
      else if ExternalID creator \<le> 0 then Some (ErrText ''authenticated job requires a positive external ID'')
      else if \<not> validBoundedText (Login creator) maxIdentityTextBytes
        then Some (ErrText ''authenticated job login is invalid'')
      else if \<not> validBoundedText (Name creator) maxIdentityTextBytes
        then Some (ErrText ''authenticated job name is invalid'')
      else if Email creator \<noteq> [] \<and> \<not> validBoundedText (Email creator) maxEmailBytes
        then Some (ErrText ''authenticated job email is invalid'')
      else None)"

definition job_times_invalid :: "Job \<Rightarrow> bool" where
  "job_times_invalid job \<longleftrightarrow>
     IsZero (job_CreatedAt job) \<or> IsZero (job_UpdatedAt job) \<or> IsZero (job_AvailableAt job) \<or>
     IsZero (job_ExpiresAt job) \<or> job_UpdatedAt job < job_CreatedAt job \<or>
     job_AvailableAt job < job_CreatedAt job"

definition validateJobSeed :: "Job \<Rightarrow> job_sentinel check" where
  "validateJobSeed job =
     (if \<not> validUUID (job_ID job) \<or> \<not> validUUID (job_UploadID job)
        then Some (ErrText ''job and upload IDs must be UUIDs'')
      else case validateCreator (job_Owner job) (job_Creator job) of Some err \<Rightarrow> Some err | None \<Rightarrow>
      if job_OriginalFilename job \<noteq> [] \<or> job_InputObjectKey job \<noteq> []
          \<or> job_InputSHA256 job \<noteq> no_digest \<or> job_InputBytes job \<noteq> 0
        then Some (ErrText ''new job input metadata must come from the committed upload'')
      else if job_Status job \<noteq> StatusQueued \<or> job_ProgressPercent job \<noteq> 0
          \<or> job_ProgressMessage job \<noteq> [] \<or> job_AttemptCount job \<noteq> 0
        then Some (ErrText ''new job must have empty queued progress'')
      else if job_TargetBytes job \<le> 0 \<or> job_MaxAttempts job \<le> 0 \<or> job_Version job \<noteq> 1
        then Some (ErrText ''new job processing policy is invalid'')
      else if job_times_invalid job \<or> \<not> job_CreatedAt job < job_ExpiresAt job
        then Some (ErrText ''new job timestamps are invalid'')
      else None)"

definition validateStoredJob :: "Job \<Rightarrow> job_sentinel check" where
  "validateStoredJob job =
     (if \<not> validUUID (job_ID job) \<or> \<not> validUUID (job_UploadID job)
        then Some (ErrText ''stored job identity is invalid'')
      else case validateCreator (job_Owner job) (job_Creator job) of Some err \<Rightarrow> Some err | None \<Rightarrow>
      if \<not> validBoundedText (job_OriginalFilename job) maxFilenameBytes
          \<or> \<not> validBoundedText (job_InputObjectKey job) maxObjectKeyBytes \<or> job_InputBytes job \<le> 0
        then Some (ErrText ''stored job input metadata is invalid'')
      else if \<not> Status_Valid (job_Status job) \<or> job_ProgressPercent job < 0 \<or> job_ProgressPercent job > 100
          \<or> length (job_ProgressMessage job) > maxProgressBytes \<or> job_AttemptCount job < 0
          \<or> job_MaxAttempts job \<le> 0 \<or> job_AttemptCount job > job_MaxAttempts job \<or> job_TargetBytes job \<le> 0
        then Some (ErrText ''stored job processing state is invalid'')
      else if job_OutputObjectKey job \<noteq> [] \<and> \<not> validBoundedText (job_OutputObjectKey job) maxObjectKeyBytes
        then Some (ErrText ''stored job output object key is invalid'')
      else if (case job_OutputBytes job of None \<Rightarrow> False | Some n \<Rightarrow> n \<le> 0)
        then Some (ErrText ''stored job output size is invalid'')
      else if (case job_PageCount job of None \<Rightarrow> False | Some n \<Rightarrow> n \<le> 0)
        then Some (ErrText ''stored job page count is invalid'')
      else if job_SelectedProfile job \<notin> {[], ''original'', ''ebook'', ''screen''}
        then Some (ErrText ''stored job selected profile is invalid'')
      else if length (job_LeaseOwner job) > maxIdentityTextBytes \<or> length (job_ErrorCode job) > maxErrorCodeBytes
          \<or> length (job_ErrorMessage job) > maxErrorMessageBytes
        then Some (ErrText ''stored job operational metadata is too long'')
      else if job_times_invalid job \<or> job_Version job \<le> 0
        then Some (ErrText ''stored job timestamps or version are invalid'')
      else if list_ex (\<lambda>optional. case optional of None \<Rightarrow> False | Some t \<Rightarrow> t < job_CreatedAt job)
          [job_LeaseExpiresAt job, job_HeartbeatAt job, job_CancelRequestedAt job, job_StartedAt job,
           job_CompletedAt job, job_DeletionRequestedAt job]
        then Some (ErrText ''stored job event precedes creation'')
      else None)"

definition validateClaim :: "string \<Rightarrow> instant \<Rightarrow> instant \<Rightarrow> job_sentinel check" where
  "validateClaim workerID observedAt leaseExpiresAt =
     (if \<not> validWorkerID workerID then Some (ErrText ''job worker ID is invalid'')
      else if IsZero observedAt \<or> \<not> observedAt < leaseExpiresAt
        then Some (ErrText ''job claim lease timestamps are invalid'')
      else None)"

definition validateHeartbeat :: "string \<Rightarrow> string \<Rightarrow> instant \<Rightarrow> instant \<Rightarrow> job_sentinel check" where
  "validateHeartbeat jobID workerID observedAt leaseExpiresAt =
     (if \<not> validUUID jobID then Some (Sentinel ErrLeaseLost)
      else validateClaim workerID observedAt leaseExpiresAt)"

definition validateTransition :: "Transition \<Rightarrow> job_sentinel check" where
  "validateTransition t =
     (if \<not> validUUID (tr_JobID t) then Some (Sentinel ErrLeaseLost)
      else if \<not> validWorkerID (tr_WorkerID t) then Some (ErrText ''job worker ID is invalid'')
      else case ValidateTransition (tr_ExpectedStatus t) (tr_NextStatus t) of Some err \<Rightarrow> Some err | None \<Rightarrow>
      if tr_ExpectedStatus t = StatusQueued \<or> Status_Terminal (tr_ExpectedStatus t)
          \<or> tr_NextStatus t = StatusQueued \<or> tr_NextStatus t = StatusJobExpired
        then Some (ErrText ''job worker transition must start from an active lease and cannot expire data'')
      else if tr_ProgressPercent t < 0 \<or> tr_ProgressPercent t > 100
        then Some (ErrText ''job transition progress must be between zero and one hundred'')
      else if length (tr_ProgressMessage t) > maxProgressBytes
        then Some (ErrText ''job progress message exceeds %d bytes'')
      else if tr_NextStatus t = StatusCompleted \<and> tr_ProgressPercent t \<noteq> 100
        then Some (ErrText ''completed job transition requires 100 percent progress'')
      else if tr_NextStatus t = StatusFailed \<and>
          (\<not> validBoundedText (tr_ErrorCode t) maxErrorCodeBytes \<or>
           \<not> validBoundedText (tr_ErrorMessage t) maxErrorMessageBytes)
        then Some (ErrText ''failed job transition requires bounded error details'')
      else if tr_NextStatus t \<noteq> StatusFailed \<and> (tr_ErrorCode t \<noteq> [] \<or> tr_ErrorMessage t \<noteq> [])
        then Some (ErrText ''non-failed job transition cannot contain error details'')
      else if IsZero (tr_ObservedAt t) \<or> \<not> tr_ObservedAt t < tr_LeaseExpiresAt t
        then Some (ErrText ''job transition lease timestamps are invalid'')
      else None)"

definition validateRecovery :: "RecoveryRequest \<Rightarrow> job_sentinel check" where
  "validateRecovery r =
     (if IsZero (rr_ObservedAt r) \<or> rr_RetryAt r < rr_ObservedAt r
        then Some (ErrText ''job recovery timestamps are invalid'')
      else if rr_Limit r \<le> 0 \<or> rr_Limit r > 1000
        then Some (ErrText ''job recovery limit must be between 1 and 1000'')
      else None)"

end
