(* ===== verification/Job_Store.thy ===== *)
theory Job_Store
  imports Upload_Store Job
begin

text \<open>
  The owner-facing store of jobs, \<open>internal/job/storage_postgres.go\<close>: the table \<open>pdf_job\<close>
  with the constraints of its two migrations, the reading of a row, and \<open>Create\<close>, \<open>Get\<close>,
  \<open>Cancel\<close> and \<open>Delete\<close>, each one SQL statement. The worker-facing statements are in the
  theory \<open>Job_Queue\<close>.
\<close>

subsection \<open>The table\<close>

record job_row =
  jr_id :: string
  jr_upload_id :: string
  jr_owner :: owner_cols
  jr_external_id :: "int option"
  jr_login :: "string option"
  jr_name :: "string option"
  jr_email :: "string option"
  jr_original_filename :: string
  jr_input_object_key :: string
  jr_input_sha256 :: string
  jr_input_bytes :: int
  jr_output_object_key :: "string option"
  jr_output_sha256 :: "string option"
  jr_output_bytes :: "int option"
  jr_page_count :: "int option"
  jr_selected_profile :: "string option"
  jr_target_bytes :: int
  jr_target_met :: "bool option"
  jr_status :: JobStatus
  jr_progress_percent :: int
  jr_progress_message :: string
  jr_attempt_count :: int
  jr_max_attempts :: int
  jr_available_at :: instant
  jr_lease_owner :: "string option"
  jr_lease_expires_at :: "instant option"
  jr_heartbeat_at :: "instant option"
  jr_cancel_requested_at :: "instant option"
  jr_error_code :: "string option"
  jr_error_message :: "string option"
  jr_created_at :: instant
  jr_updated_at :: instant
  jr_started_at :: "instant option"
  jr_completed_at :: "instant option"
  jr_expires_at :: instant
  jr_deletion_requested_at :: "instant option"
  jr_version :: int

record job_db = upload_db +
  pdf_job :: "job_row list"

text \<open>A condition on a nullable column that \<open>NULL\<close> satisfies, and the value of a column that is set once.\<close>

definition null_or :: "('a \<Rightarrow> bool) \<Rightarrow> 'a option \<Rightarrow> bool" where
  "null_or P v \<longleftrightarrow> (case v of None \<Rightarrow> True | Some x \<Rightarrow> P x)"

definition coalesce :: "'a option \<Rightarrow> 'a \<Rightarrow> 'a option" where
  "coalesce v x = (case v of None \<Rightarrow> Some x | Some y \<Rightarrow> Some y)"

lemma null_or_simps [simp]: "null_or P None" "null_or P (Some x) \<longleftrightarrow> P x"
  by (simp_all add: null_or_def)

lemma coalesce_simps [simp]: "coalesce None x = Some x" "coalesce (Some y) x = Some y" "coalesce v x \<noteq> None" "\<exists>y. coalesce v x = Some y"
  by (simp_all add: coalesce_def split: option.split)

definition pdf_job_creator_snapshot_consistency :: "job_row \<Rightarrow> bool" where
  "pdf_job_creator_snapshot_consistency r \<longleftrightarrow>
     (fst (jr_owner r) = OwnerAnonymous \<and> jr_external_id r = None \<and> jr_login r = None \<and>
        jr_name r = None \<and> jr_email r = None) \<or>
     (fst (jr_owner r) = OwnerAuthenticated \<and>
        (case jr_external_id r of None \<Rightarrow> False | Some n \<Rightarrow> 0 < n) \<and>
        (case jr_login r of None \<Rightarrow> False | Some v \<Rightarrow> \<not> only_blanks v \<and> length v \<le> 255) \<and>
        (case jr_name r of None \<Rightarrow> False | Some v \<Rightarrow> \<not> only_blanks v \<and> length v \<le> 255) \<and>
        null_or (\<lambda>v. \<not> only_blanks v \<and> length v \<le> 320) (jr_email r))"

definition pdf_job_input_metadata_valid :: "job_row \<Rightarrow> bool" where
  "pdf_job_input_metadata_valid r \<longleftrightarrow>
     \<not> only_blanks (jr_original_filename r) \<and> length (jr_original_filename r) \<le> 255 \<and>
     \<not> only_blanks (jr_input_object_key r) \<and> length (jr_input_object_key r) \<le> 1024 \<and>
     sha256_text (jr_input_sha256 r)"

definition pdf_job_output_metadata_valid :: "job_row \<Rightarrow> bool" where
  "pdf_job_output_metadata_valid r \<longleftrightarrow>
     null_or (\<lambda>v. \<not> only_blanks v \<and> length v \<le> 1024) (jr_output_object_key r) \<and>
     null_or sha256_text (jr_output_sha256 r)"

definition pdf_job_text_metadata_bounded :: "job_row \<Rightarrow> bool" where
  "pdf_job_text_metadata_bounded r \<longleftrightarrow>
     length (jr_progress_message r) \<le> 512 \<and> null_or (\<lambda>v. length v \<le> 255) (jr_lease_owner r) \<and>
     null_or (\<lambda>v. length v \<le> 128) (jr_error_code r) \<and> null_or (\<lambda>v. length v \<le> 1024) (jr_error_message r)"

definition pdf_job_timestamp_order :: "job_row \<Rightarrow> bool" where
  "pdf_job_timestamp_order r \<longleftrightarrow>
     jr_created_at r \<le> jr_updated_at r \<and> jr_created_at r \<le> jr_available_at r \<and>
     jr_created_at r < jr_expires_at r \<and>
     null_or (\<lambda>t. jr_created_at r \<le> t) (jr_started_at r) \<and>
     null_or (\<lambda>t. jr_created_at r \<le> t) (jr_completed_at r) \<and>
     null_or (\<lambda>t. jr_created_at r \<le> t) (jr_heartbeat_at r) \<and>
     null_or (\<lambda>t. jr_created_at r \<le> t) (jr_cancel_requested_at r) \<and>
     null_or (\<lambda>t. jr_created_at r \<le> t) (jr_deletion_requested_at r)"

text \<open>The checks of single columns; a value outside its integer type aborts a statement as well.\<close>

definition pdf_job_columns :: "job_row \<Rightarrow> bool" where
  "pdf_job_columns r \<longleftrightarrow>
     0 < jr_input_bytes r \<and> null_or (\<lambda>n. 0 < n) (jr_output_bytes r) \<and> null_or (\<lambda>n. 0 < n) (jr_page_count r) \<and>
     null_or (\<lambda>v. v \<in> {''original'', ''ebook'', ''screen''}) (jr_selected_profile r) \<and>
     0 < jr_target_bytes r \<and> (case jr_status r of JobStatusOther v \<Rightarrow> False | _ \<Rightarrow> True) \<and>
     0 \<le> jr_progress_percent r \<and> jr_progress_percent r \<le> 100 \<and>
     0 \<le> jr_attempt_count r \<and> jr_attempt_count r \<le> MaxInt32 \<and> 0 < jr_max_attempts r \<and>
     jr_max_attempts r \<le> MaxInt32 \<and>
     0 < jr_version r \<and> jr_version r \<le> MaxInt64"

definition job_row_check :: "job_row \<Rightarrow> bool" where
  "job_row_check r \<longleftrightarrow>
     owner_cols_check (jr_owner r) \<and> null_or (\<lambda>u. 0 < u) (fst (snd (jr_owner r))) \<and>
     pdf_job_creator_snapshot_consistency r \<and> pdf_job_input_metadata_valid r \<and>
     pdf_job_output_metadata_valid r \<and> pdf_job_text_metadata_bounded r \<and>
     pdf_job_timestamp_order r \<and> pdf_job_columns r"

subsection \<open>Reading a row\<close>

definition text_or_empty :: "string option \<Rightarrow> string" where
  "text_or_empty v = (case v of None \<Rightarrow> [] | Some s \<Rightarrow> s)"

lemma text_or_empty_simps [simp]: "text_or_empty None = []" "text_or_empty (Some s) = s"
  by (simp_all add: text_or_empty_def)

definition creator_of_row :: "job_row \<Rightarrow> Creator" where
  "creator_of_row r =
     \<lparr>ExternalID = (case jr_external_id r of None \<Rightarrow> 0 | Some n \<Rightarrow> n),
      Login = text_or_empty (jr_login r), Name = text_or_empty (jr_name r), Email = text_or_empty (jr_email r)\<rparr>"

definition job_of_row :: "job_row \<Rightarrow> SHA256 \<Rightarrow> SHA256 option \<Rightarrow> Job" where
  "job_of_row r inputDigest outputDigest =
     \<lparr>job_ID = jr_id r, job_UploadID = jr_upload_id r, job_Owner = scan_owner (jr_owner r),
      job_Creator = creator_of_row r, job_OriginalFilename = jr_original_filename r,
      job_InputObjectKey = jr_input_object_key r, job_InputSHA256 = inputDigest,
      job_InputBytes = jr_input_bytes r, job_OutputObjectKey = text_or_empty (jr_output_object_key r),
      job_OutputSHA256 = outputDigest, job_OutputBytes = jr_output_bytes r, job_PageCount = jr_page_count r,
      job_SelectedProfile = text_or_empty (jr_selected_profile r), job_TargetBytes = jr_target_bytes r,
      job_TargetMet = jr_target_met r, job_Status = jr_status r,
      job_ProgressPercent = jr_progress_percent r, job_ProgressMessage = jr_progress_message r,
      job_AttemptCount = jr_attempt_count r, job_MaxAttempts = jr_max_attempts r,
      job_AvailableAt = jr_available_at r, job_LeaseOwner = text_or_empty (jr_lease_owner r),
      job_LeaseExpiresAt = jr_lease_expires_at r, job_HeartbeatAt = jr_heartbeat_at r,
      job_CancelRequestedAt = jr_cancel_requested_at r, job_ErrorCode = text_or_empty (jr_error_code r),
      job_ErrorMessage = text_or_empty (jr_error_message r), job_CreatedAt = jr_created_at r,
      job_UpdatedAt = jr_updated_at r, job_StartedAt = jr_started_at r, job_CompletedAt = jr_completed_at r,
      job_ExpiresAt = jr_expires_at r, job_DeletionRequestedAt = jr_deletion_requested_at r,
      job_Version = jr_version r\<rparr>"

definition scanJob :: "job_row \<Rightarrow> job_err + Job" where
  "scanJob r =
     (case ParseSHA256 (jr_input_sha256 r) of Inl err \<Rightarrow> Inl err | Inr inputSHA256 \<Rightarrow>
      (case (case jr_output_sha256 r of None \<Rightarrow> Inr None
             | Some v \<Rightarrow> (case ParseSHA256 v of Inl err \<Rightarrow> Inl err | Inr digest \<Rightarrow> Inr (Some digest))) of
         Inl err \<Rightarrow> Inl err
       | Inr outputSHA256 \<Rightarrow>
           (case validateStoredJob (job_of_row r inputSHA256 outputSHA256) of
              Some err \<Rightarrow> Inl err
            | None \<Rightarrow> Inr (job_of_row r inputSHA256 outputSHA256))))"

subsection \<open>Creation\<close>

definition nullableString :: "string \<Rightarrow> string option" where
  "nullableString v = (if v = [] then None else Some v)"

definition creatorDatabaseValues ::
    "Owner \<Rightarrow> Creator \<Rightarrow> int option \<times> string option \<times> string option \<times> string option" where
  "creatorDatabaseValues owner creator =
     (if Kind owner = OwnerAnonymous then (None, None, None, None)
      else (Some (ExternalID creator), Some (Login creator), Some (Name creator),
            if Email creator \<noteq> [] then Some (Email creator) else None))"

text \<open>The committed upload that the query \<open>source\<close> selects, and the row inserted from it.\<close>

definition committed_source :: "string \<Rightarrow> Owner \<Rightarrow> upload_row \<Rightarrow> bool" where
  "committed_source uploadID owner u \<longleftrightarrow>
     us_id u = uploadID \<and> us_owner u = owner_columns owner \<and> us_status u = StatusCommitted \<and>
     us_committed_sha256 u \<noteq> None \<and> us_committed_at u \<noteq> None \<and> us_received_bytes u = us_declared_size u"

definition insert_job_row :: "Job \<Rightarrow> upload_row \<Rightarrow> job_row" where
  "insert_job_row seed source =
     (case creatorDatabaseValues (job_Owner seed) (job_Creator seed) of (externalID, login, name, email) \<Rightarrow>
      \<lparr>jr_id = job_ID seed, jr_upload_id = job_UploadID seed, jr_owner = owner_columns (job_Owner seed),
       jr_external_id = externalID, jr_login = login, jr_name = name, jr_email = email,
       jr_original_filename = us_original_filename source, jr_input_object_key = us_object_key source,
       jr_input_sha256 = text_or_empty (us_committed_sha256 source),
       jr_input_bytes = us_declared_size source,
       jr_output_object_key = None, jr_output_sha256 = None, jr_output_bytes = None, jr_page_count = None,
       jr_selected_profile = None, jr_target_bytes = job_TargetBytes seed, jr_target_met = None,
       jr_status = StatusQueued, jr_progress_percent = 0, jr_progress_message = [],
       jr_attempt_count = 0, jr_max_attempts = job_MaxAttempts seed,
       jr_available_at = pg_time (job_AvailableAt seed), jr_lease_owner = None, jr_lease_expires_at = None,
       jr_heartbeat_at = None, jr_cancel_requested_at = None, jr_error_code = None, jr_error_message = None,
       jr_created_at = pg_time (job_CreatedAt seed), jr_updated_at = pg_time (job_UpdatedAt seed),
       jr_started_at = None, jr_completed_at = None, jr_expires_at = pg_time (job_ExpiresAt seed),
       jr_deletion_requested_at = None, jr_version = 1\<rparr>)"

text \<open>The text parameters that reach the server: ill-formed ones fail the statement.\<close>

definition creator_texts :: "Creator \<Rightarrow> bool" where
  "creator_texts creator \<longleftrightarrow> pg_text (Login creator) \<and> pg_text (Name creator) \<and> pg_text (Email creator)"

text \<open>The part of \<open>Create\<close> after the statement has returned a row.\<close>

definition created_job :: "job_row \<Rightarrow> job_err + Job" where
  "created_job r =
     (case scanJob r of
        Inl err \<Rightarrow> Inl (StorageError ''create'')
      | Inr created \<Rightarrow>
          (if job_DeletionRequestedAt created \<noteq> None then Inl (Sentinel JobErrConflict) else Inr created))"

definition pg_job_Create ::
    "faults \<Rightarrow> Job \<Rightarrow> 'z job_db_scheme \<Rightarrow> (job_err + Job) \<times> 'z job_db_scheme" where
  "pg_job_Create flt seed d =
     (case validateJobSeed seed of Some err \<Rightarrow> (Inl err, d) | None \<Rightarrow>
      let failed = Inl (StorageError ''create'') in
      if flt ''create'' = Call_Failed \<or> \<not> creator_texts (job_Creator seed) then (failed, d)
      else case find (committed_source (job_UploadID seed) (job_Owner seed)) (upload_session d) of
        None \<Rightarrow> finish (flt ''create'') d d failed (Inl (Sentinel JobErrNotFound))
      | Some source \<Rightarrow>
      let row = insert_job_row seed source in
      if \<not> job_row_check row then (failed, d)
      else case find (\<lambda>r. jr_upload_id r = job_UploadID seed) (pdf_job d) of
        Some r \<Rightarrow>
          (if jr_owner r = jr_owner row
             then finish (flt ''create'') d d failed (created_job r)
           else finish (flt ''create'') d d failed (Inl (Sentinel JobErrNotFound)))
      | None \<Rightarrow>
      if list_ex (\<lambda>r. jr_id r = jr_id row \<or> jr_input_object_key r = jr_input_object_key row) (pdf_job d)
        then (if flt ''create'' = Call_Ok then Inl (Sentinel JobErrConflict) else failed, d)
      else if \<not> owner_exists (jr_owner row) d then (failed, d)
      else finish (flt ''create'') d (d\<lparr>pdf_job := pdf_job d @ [row]\<rparr>) failed (created_job row))"

subsection \<open>Reading, cancelling and deleting\<close>

text \<open>
  An \<open>UPDATE \<dots> WHERE P RETURNING\<close> read with \<open>QueryRow\<close>: it fails when a parameter cannot be
  sent or a rewritten row violates a constraint; its effect is durable even when the
  returned row cannot be decoded.
\<close>

definition update_returning ::
    "faults \<Rightarrow> string \<Rightarrow> bool \<Rightarrow> (job_row \<Rightarrow> bool) \<Rightarrow> (job_row \<Rightarrow> job_row) \<Rightarrow> job_sentinel \<Rightarrow>
      'z job_db_scheme \<Rightarrow> (job_err + Job) \<times> 'z job_db_scheme" where
  "update_returning flt op sendable P f missing d =
     (let failed = Inl (StorageError op) in
      if \<not> sendable then (failed, d)
      else case sql_checked_update job_row_check P f (pdf_job d) of
        None \<Rightarrow> (failed, d)
      | Some rows \<Rightarrow>
          finish (flt op) d (d\<lparr>pdf_job := rows\<rparr>) failed
            (case find P (pdf_job d) of
               None \<Rightarrow> Inl (Sentinel missing)
             | Some r \<Rightarrow> (case scanJob (f r) of Inl err \<Rightarrow> failed | Inr stored \<Rightarrow> Inr stored)))"

abbreviation owned_job :: "string \<Rightarrow> Owner \<Rightarrow> job_row \<Rightarrow> bool" where
  "owned_job jobID owner r \<equiv> jr_id r = jobID \<and> jr_owner r = owner_columns owner"

definition pg_job_Get ::
    "faults \<Rightarrow> string \<Rightarrow> Owner \<Rightarrow> 'z job_db_scheme \<Rightarrow> (job_err + Job) \<times> 'z job_db_scheme" where
  "pg_job_Get flt jobID owner d =
     (if \<not> validUUID jobID \<or> job_Owner_Validate owner \<noteq> None
        then (Inl (Sentinel JobErrNotFound), d)
      else let failed = Inl (StorageError ''get'')
        in finish (flt ''get'') d d failed
          (case find (\<lambda>r. owned_job jobID owner r \<and> jr_deletion_requested_at r = None) (pdf_job d) of
             None \<Rightarrow> Inl (Sentinel JobErrNotFound)
           | Some row \<Rightarrow> (case scanJob row of Inl err \<Rightarrow> failed | Inr stored \<Rightarrow> Inr stored)))"

text \<open>The new values of \<open>Cancel\<close> and \<open>Delete\<close>, computed from the old row.\<close>

definition open_for_cancel :: "job_row \<Rightarrow> bool" where
  "open_for_cancel r \<longleftrightarrow> jr_status r = StatusQueued \<or>
     (active_status (jr_status r) \<and> jr_cancel_requested_at r = None)"

definition set_cancel :: "instant \<Rightarrow> job_row \<Rightarrow> job_row" where
  "set_cancel at r = r
     \<lparr>jr_status := (if jr_status r = StatusQueued then StatusCancelled else jr_status r),
      jr_cancel_requested_at :=
        (if jr_status r = StatusQueued \<or> active_status (jr_status r)
           then coalesce (jr_cancel_requested_at r) (max at (jr_created_at r)) else jr_cancel_requested_at r),
      jr_completed_at :=
        (if jr_status r = StatusQueued then coalesce (jr_completed_at r) (max at (jr_created_at r))
         else jr_completed_at r),
      jr_updated_at := (if open_for_cancel r then max (jr_updated_at r) at else jr_updated_at r),
      jr_version := jr_version r + (if open_for_cancel r then 1 else 0)\<rparr>"

definition set_deleted :: "instant \<Rightarrow> job_row \<Rightarrow> job_row" where
  "set_deleted at r = r
     \<lparr>jr_status := (if jr_status r = StatusQueued then StatusCancelled else jr_status r),
      jr_cancel_requested_at :=
        (if jr_status r = StatusQueued \<or> active_status (jr_status r)
           then coalesce (jr_cancel_requested_at r) (max at (jr_created_at r)) else jr_cancel_requested_at r),
      jr_completed_at :=
        (if jr_status r = StatusQueued then coalesce (jr_completed_at r) (max at (jr_created_at r))
         else jr_completed_at r),
      jr_deletion_requested_at := coalesce (jr_deletion_requested_at r) (max at (jr_created_at r)),
      jr_expires_at := min (jr_expires_at r) (max at (jr_created_at r + Microsecond)),
      jr_updated_at := (if jr_deletion_requested_at r = None \<or> open_for_cancel r
        then max (jr_updated_at r) at else jr_updated_at r),
      jr_version := jr_version r + (if jr_deletion_requested_at r = None \<or> open_for_cancel r then 1 else 0)\<rparr>"

definition pg_job_Cancel ::
    "faults \<Rightarrow> string \<Rightarrow> Owner \<Rightarrow> instant \<Rightarrow> 'z job_db_scheme \<Rightarrow> (job_err + Job) \<times> 'z job_db_scheme" where
  "pg_job_Cancel flt jobID owner observedAt d =
     (if \<not> validUUID jobID \<or> job_Owner_Validate owner \<noteq> None
        then (Inl (Sentinel JobErrNotFound), d)
      else if IsZero observedAt then (Inl (ErrText ''job cancellation time is required''), d)
      else update_returning flt ''cancel'' True
        (\<lambda>r. owned_job jobID owner r \<and> jr_deletion_requested_at r = None)
        (set_cancel (pg_time observedAt)) JobErrNotFound d)"

definition pg_job_Delete ::
    "faults \<Rightarrow> string \<Rightarrow> Owner \<Rightarrow> instant \<Rightarrow> 'z job_db_scheme \<Rightarrow> job_sentinel check \<times> 'z job_db_scheme" where
  "pg_job_Delete flt jobID owner observedAt d =
     (if \<not> validUUID jobID then (None, d)
      else if job_Owner_Validate owner \<noteq> None then (Some (Sentinel JobErrNotFound), d)
      else if IsZero observedAt then (Some (ErrText ''job deletion time is required''), d)
      else let failed = Some (StorageError ''delete'') in
        case sql_checked_update job_row_check (owned_job jobID owner) (set_deleted (pg_time observedAt)) (pdf_job d) of
          None \<Rightarrow> (failed, d)
        | Some rows \<Rightarrow> finish (flt ''delete'') d (d\<lparr>pdf_job := rows\<rparr>) failed None)"

end
