(* ===== verification/Job_Queue.thy ===== *)
theory Job_Queue
  imports Job_Store
begin

text \<open>
  The worker-facing store of jobs, \<open>internal/job/storage_postgres_queue.go\<close>: \<open>Claim\<close>,
  \<open>Heartbeat\<close>, \<open>Transition\<close> and \<open>RecoverExpired\<close>, and the specification of the whole table
  as a relation between its states. \<open>FOR UPDATE SKIP LOCKED\<close> passes over the rows that other
  transactions hold; which rows these are is the argument \<open>locked\<close>.
\<close>

subsection \<open>Claiming\<close>

definition claimable :: "instant \<Rightarrow> job_row \<Rightarrow> bool" where
  "claimable at r \<longleftrightarrow> jr_status r = StatusQueued \<and> jr_available_at r \<le> at \<and> at < jr_expires_at r \<and>
     jr_attempt_count r < jr_max_attempts r \<and> jr_cancel_requested_at r = None \<and>
     jr_deletion_requested_at r = None"

definition claim_order :: "job_row \<Rightarrow> instant \<times> instant \<times> string" where
  "claim_order r = (jr_available_at r, jr_created_at r, jr_id r)"

definition set_claimed :: "string \<Rightarrow> instant \<Rightarrow> instant \<Rightarrow> job_row \<Rightarrow> job_row" where
  "set_claimed workerID at lease r = r
     \<lparr>jr_status := StatusAnalyzing, jr_attempt_count := jr_attempt_count r + 1,
      jr_lease_owner := Some workerID, jr_lease_expires_at := Some lease, jr_heartbeat_at := Some at,
      jr_started_at := coalesce (jr_started_at r) (max at (jr_created_at r)),
      jr_updated_at := max (jr_updated_at r) at, jr_version := jr_version r + 1\<rparr>"

definition pg_Claim ::
    "faults \<Rightarrow> string list \<Rightarrow> string \<Rightarrow> instant \<Rightarrow> instant \<Rightarrow> 'z job_db_scheme \<Rightarrow>
      (job_err + Job) \<times> 'z job_db_scheme" where
  "pg_Claim flt locked workerID observedAt leaseExpiresAt d =
     (case validateClaim workerID observedAt leaseExpiresAt of Some err \<Rightarrow> (Inl err, d) | None \<Rightarrow>
      let failed = Inl (StorageError ''claim''); at = pg_time observedAt in
      if \<not> pg_text workerID then (failed, d)
      else case sort_key claim_order
          (filter (\<lambda>r. claimable at r \<and> jr_id r \<notin> set locked) (pdf_job d)) of
        [] \<Rightarrow> finish (flt ''claim'') d d failed (Inl (Sentinel ErrNoJobAvailable))
      | candidate # rest \<Rightarrow>
          let f = set_claimed workerID at (pg_time leaseExpiresAt) in
          (case sql_checked_update job_row_check (\<lambda>r. jr_id r = jr_id candidate) f (pdf_job d) of
             None \<Rightarrow> (failed, d)
           | Some rows \<Rightarrow>
               finish (flt ''claim'') d (d\<lparr>pdf_job := rows\<rparr>) failed
                 (case scanJob (f candidate) of Inl err \<Rightarrow> failed | Inr claimed \<Rightarrow> Inr claimed)))"

subsection \<open>Work under a lease\<close>

text \<open>The lease of a worker on an active job that has not run out at an instant.\<close>

definition holds_lease :: "string \<Rightarrow> string \<Rightarrow> instant \<Rightarrow> job_row \<Rightarrow> bool" where
  "holds_lease jobID workerID at r \<longleftrightarrow> jr_id r = jobID \<and> jr_lease_owner r = Some workerID \<and>
     active_status (jr_status r) \<and> (case jr_lease_expires_at r of None \<Rightarrow> False | Some e \<Rightarrow> at < e)"

definition stop_requested :: "job_row \<Rightarrow> bool" where
  "stop_requested r \<longleftrightarrow> jr_cancel_requested_at r \<noteq> None \<or> jr_deletion_requested_at r \<noteq> None"

definition set_renewed :: "instant \<Rightarrow> instant \<Rightarrow> job_row \<Rightarrow> job_row" where
  "set_renewed at lease r = (if stop_requested r then r else r
     \<lparr>jr_lease_expires_at := Some lease, jr_heartbeat_at := Some at,
      jr_updated_at := max (jr_updated_at r) at, jr_version := jr_version r + 1\<rparr>)"

text \<open>\<open>Heartbeat\<close> returns the job together with \<open>ErrCancellationRequested\<close>.\<close>

definition pg_Heartbeat ::
    "faults \<Rightarrow> string \<Rightarrow> string \<Rightarrow> instant \<Rightarrow> instant \<Rightarrow> 'z job_db_scheme \<Rightarrow>
      (Job option \<times> job_sentinel check) \<times> 'z job_db_scheme" where
  "pg_Heartbeat flt jobID workerID observedAt leaseExpiresAt d =
     (case validateHeartbeat jobID workerID observedAt leaseExpiresAt of
        Some err \<Rightarrow> ((None, Some err), d)
      | None \<Rightarrow>
          (case update_returning flt ''heartbeat'' (pg_text workerID)
              (holds_lease jobID workerID (pg_time observedAt))
              (set_renewed (pg_time observedAt) (pg_time leaseExpiresAt)) ErrLeaseLost d of
             (Inl err, d') \<Rightarrow> ((None, Some err), d')
           | (Inr stored, d') \<Rightarrow>
               (if job_CancelRequestedAt stored \<noteq> None \<or> job_DeletionRequestedAt stored \<noteq> None
                  then ((Some stored, Some (Sentinel ErrCancellationRequested)), d')
                else ((Some stored, None), d'))))"

definition set_moved :: "Transition \<Rightarrow> job_row \<Rightarrow> job_row" where
  "set_moved t r =
     (let terminal = Status_Terminal (tr_NextStatus t); at = pg_time (tr_ObservedAt t);
          failed = (tr_NextStatus t = StatusFailed)
      in r
     \<lparr>jr_status := tr_NextStatus t, jr_progress_percent := tr_ProgressPercent t,
      jr_progress_message := tr_ProgressMessage t,
      jr_error_code := (if failed then nullableString (tr_ErrorCode t) else jr_error_code r),
      jr_error_message := (if failed then nullableString (tr_ErrorMessage t) else jr_error_message r),
      jr_lease_owner := (if terminal then None else jr_lease_owner r),
      jr_lease_expires_at := (if terminal then None else Some (pg_time (tr_LeaseExpiresAt t))),
      jr_heartbeat_at := (if terminal then None else Some at),
      jr_completed_at := (if terminal then coalesce (jr_completed_at r) (max at (jr_created_at r))
        else jr_completed_at r),
      jr_updated_at := max (jr_updated_at r) at, jr_version := jr_version r + 1\<rparr>)"

definition movable :: "Transition \<Rightarrow> job_row \<Rightarrow> bool" where
  "movable t r \<longleftrightarrow> holds_lease (tr_JobID t) (tr_WorkerID t) (pg_time (tr_ObservedAt t)) r \<and>
     jr_status r = tr_ExpectedStatus t \<and> jr_progress_percent r \<le> tr_ProgressPercent t \<and>
     (if tr_NextStatus t = StatusCancelled then stop_requested r else \<not> stop_requested r)"

definition pg_Transition ::
    "faults \<Rightarrow> Transition \<Rightarrow> 'z job_db_scheme \<Rightarrow> (job_err + Job) \<times> 'z job_db_scheme" where
  "pg_Transition flt t d =
     (case validateTransition t of Some err \<Rightarrow> (Inl err, d) | None \<Rightarrow>
      update_returning flt ''transition''
        (pg_text (tr_WorkerID t) \<and> pg_text (tr_ProgressMessage t) \<and>
         pg_text (tr_ErrorCode t) \<and> pg_text (tr_ErrorMessage t))
        (movable t) (set_moved t) ErrLeaseLost d)"

subsection \<open>Recovering expired leases\<close>

definition lease_expired :: "instant \<Rightarrow> job_row \<Rightarrow> bool" where
  "lease_expired at r \<longleftrightarrow> active_status (jr_status r) \<and>
     (case jr_lease_expires_at r of None \<Rightarrow> False | Some e \<Rightarrow> e \<le> at)"

definition recovery_order :: "job_row \<Rightarrow> instant \<times> string" where
  "recovery_order r = (case jr_lease_expires_at r of None \<Rightarrow> 0 | Some e \<Rightarrow> e, jr_id r)"

definition retryable :: "job_row \<Rightarrow> bool" where
  "retryable r \<longleftrightarrow> \<not> stop_requested r \<and> jr_attempt_count r < jr_max_attempts r"

definition exhausted :: "job_row \<Rightarrow> bool" where
  "exhausted r \<longleftrightarrow> \<not> stop_requested r \<and> jr_max_attempts r \<le> jr_attempt_count r"

definition set_recovered :: "instant \<Rightarrow> instant \<Rightarrow> job_row \<Rightarrow> job_row" where
  "set_recovered at retryAt r = r
     \<lparr>jr_status := (if stop_requested r then StatusCancelled
        else if jr_max_attempts r \<le> jr_attempt_count r then StatusFailed else StatusQueued),
      jr_progress_percent := (if retryable r then 0 else jr_progress_percent r),
      jr_progress_message := (if retryable r then [] else jr_progress_message r),
      jr_available_at := (if retryable r then retryAt else jr_available_at r),
      jr_lease_owner := None, jr_lease_expires_at := None, jr_heartbeat_at := None,
      jr_error_code := (if exhausted r then Some ''lease_attempts_exhausted'' else jr_error_code r),
      jr_error_message := (if exhausted r
        then Some ''Processing stopped after repeated worker interruption.'' else jr_error_message r),
      jr_completed_at := (if stop_requested r \<or> jr_max_attempts r \<le> jr_attempt_count r
        then coalesce (jr_completed_at r) (max at (jr_created_at r)) else jr_completed_at r),
      jr_updated_at := max (jr_updated_at r) at, jr_version := jr_version r + 1\<rparr>"

definition expired_batch :: "string list \<Rightarrow> instant \<Rightarrow> int \<Rightarrow> job_row list \<Rightarrow> job_row list" where
  "expired_batch locked at limit t =
     take (nat limit) (sort_key recovery_order (filter (\<lambda>r. lease_expired at r \<and> jr_id r \<notin> set locked) t))"

definition count_status :: "JobStatus \<Rightarrow> job_row list \<Rightarrow> int" where
  "count_status status recovered = int (length (filter (\<lambda>r. jr_status r = status) recovered))"

definition pg_RecoverExpired ::
    "faults \<Rightarrow> string list \<Rightarrow> RecoveryRequest \<Rightarrow> 'z job_db_scheme \<Rightarrow>
      (job_err + RecoveryResult) \<times> 'z job_db_scheme" where
  "pg_RecoverExpired flt locked request d =
     (case validateRecovery request of Some err \<Rightarrow> (Inl err, d) | None \<Rightarrow>
      let failed = Inl (StorageError ''recover expired leases'');
          at = pg_time (rr_ObservedAt request);
          f = set_recovered at (pg_time (rr_RetryAt request));
          expired = expired_batch locked at (rr_Limit request) (pdf_job d)
      in case sql_checked_update job_row_check (\<lambda>r. jr_id r \<in> set (map jr_id expired)) f (pdf_job d) of
           None \<Rightarrow> (failed, d)
         | Some rows \<Rightarrow>
             let recovered = map f expired in
             finish (flt ''recover expired leases'') d (d\<lparr>pdf_job := rows\<rparr>) failed
               (Inr \<lparr>Requeued = count_status StatusQueued recovered,
                  Cancelled = count_status StatusCancelled recovered,
                  Failed = count_status StatusFailed recovered\<rparr>))"

end
