(* ===== verification/Job_Changes.thy ===== *)
theory Job_Changes
  imports Job_Queue
begin

text \<open>
  The specification of the job table: what a stored row means, the invariant of the table, the
  moves of one row as an inductive relation, and the refinement lemmas that every statement
  of the store changes the table by such moves only.
\<close>

subsection \<open>What a stored row means\<close>

definition job_view :: "job_row \<Rightarrow> Job" where
  "job_view r = job_of_row r (stored_digest (jr_input_sha256 r)) (map_option stored_digest (jr_output_sha256 r))"

lemma job_view_simps [simp]:
  "job_ID (job_view r) = jr_id r" "job_UploadID (job_view r) = jr_upload_id r"
  "job_Owner (job_view r) = scan_owner (jr_owner r)" "job_Creator (job_view r) = creator_of_row r"
  "job_OriginalFilename (job_view r) = jr_original_filename r"
  "job_InputObjectKey (job_view r) = jr_input_object_key r"
  "job_InputSHA256 (job_view r) = stored_digest (jr_input_sha256 r)"
  "job_InputBytes (job_view r) = jr_input_bytes r"
  "job_OutputObjectKey (job_view r) = text_or_empty (jr_output_object_key r)"
  "job_OutputBytes (job_view r) = jr_output_bytes r" "job_PageCount (job_view r) = jr_page_count r"
  "job_SelectedProfile (job_view r) = text_or_empty (jr_selected_profile r)"
  "job_TargetBytes (job_view r) = jr_target_bytes r" "job_Status (job_view r) = jr_status r"
  "job_ProgressPercent (job_view r) = jr_progress_percent r"
  "job_ProgressMessage (job_view r) = jr_progress_message r"
  "job_AttemptCount (job_view r) = jr_attempt_count r" "job_MaxAttempts (job_view r) = jr_max_attempts r"
  "job_AvailableAt (job_view r) = jr_available_at r"
  "job_LeaseOwner (job_view r) = text_or_empty (jr_lease_owner r)"
  "job_LeaseExpiresAt (job_view r) = jr_lease_expires_at r" "job_HeartbeatAt (job_view r) = jr_heartbeat_at r"
  "job_CancelRequestedAt (job_view r) = jr_cancel_requested_at r"
  "job_ErrorCode (job_view r) = text_or_empty (jr_error_code r)"
  "job_ErrorMessage (job_view r) = text_or_empty (jr_error_message r)"
  "job_CreatedAt (job_view r) = jr_created_at r" "job_UpdatedAt (job_view r) = jr_updated_at r"
  "job_StartedAt (job_view r) = jr_started_at r" "job_CompletedAt (job_view r) = jr_completed_at r"
  "job_ExpiresAt (job_view r) = jr_expires_at r"
  "job_DeletionRequestedAt (job_view r) = jr_deletion_requested_at r" "job_Version (job_view r) = jr_version r"
  by (simp_all add: job_view_def job_of_row_def)

text \<open>
  The identity of a job, which no statement changes after creation, and what it satisfies
  beyond the constraints of the table: white space is any Unicode space here.
\<close>

definition same_identity :: "job_row \<Rightarrow> job_row \<Rightarrow> bool" where
  "same_identity r r' \<longleftrightarrow> jr_id r' = jr_id r \<and> jr_upload_id r' = jr_upload_id r \<and> jr_owner r' = jr_owner r \<and>
     creator_of_row r' = creator_of_row r \<and> jr_original_filename r' = jr_original_filename r \<and>
     jr_input_object_key r' = jr_input_object_key r \<and> jr_input_sha256 r' = jr_input_sha256 r \<and>
     jr_input_bytes r' = jr_input_bytes r \<and> jr_target_bytes r' = jr_target_bytes r \<and>
     jr_max_attempts r' = jr_max_attempts r \<and> jr_created_at r' = jr_created_at r"

definition identity_good :: "job_row \<Rightarrow> bool" where
  "identity_good r \<longleftrightarrow> validUUID (jr_id r) \<and> validUUID (jr_upload_id r) \<and>
     validateCreator (scan_owner (jr_owner r)) (creator_of_row r) = None \<and>
     TrimSpace (jr_original_filename r) \<noteq> [] \<and> TrimSpace (jr_input_object_key r) \<noteq> [] \<and>
     0 < jr_created_at r \<and> pg_aligned (jr_created_at r)"

lemma same_identity_good: "same_identity r r' \<Longrightarrow> identity_good r \<Longrightarrow> identity_good r'"
  by (simp add: same_identity_def identity_good_def)

text \<open>The lifecycle facts of a row: which columns its status allows and requires.\<close>

definition lease_good :: "job_row \<Rightarrow> bool" where
  "lease_good r \<longleftrightarrow>
     (if active_status (jr_status r)
      then \<exists>w e h. jr_lease_owner r = Some w \<and> jr_lease_expires_at r = Some e \<and> jr_heartbeat_at r = Some h \<and>
        h \<le> e \<and> pg_aligned e
      else jr_lease_owner r = None \<and> jr_lease_expires_at r = None \<and> jr_heartbeat_at r = None)"

lemma lease_good_code [code]:
  "lease_good r \<longleftrightarrow>
     (case (jr_lease_owner r, jr_lease_expires_at r, jr_heartbeat_at r) of
        (Some w, Some e, Some h) \<Rightarrow> active_status (jr_status r) \<and> h \<le> e \<and> pg_aligned e
      | (None, None, None) \<Rightarrow> \<not> active_status (jr_status r)
      | _ \<Rightarrow> False)"
  by (auto simp: lease_good_def split: option.split)

definition attempts_good :: "job_row \<Rightarrow> bool" where
  "attempts_good r \<longleftrightarrow> jr_attempt_count r \<le> jr_max_attempts r \<and>
     (jr_started_at r = None \<longleftrightarrow> jr_attempt_count r = 0) \<and>
     (active_status (jr_status r) \<or> jr_status r = StatusCompleted \<or> jr_status r = StatusFailed
       \<longrightarrow> 0 < jr_attempt_count r)"

definition outcome_good :: "job_row \<Rightarrow> bool" where
  "outcome_good r \<longleftrightarrow> Status_Valid (jr_status r) \<and> jr_status r \<noteq> StatusJobExpired \<and>
     (jr_completed_at r \<noteq> None \<longleftrightarrow> Status_Terminal (jr_status r)) \<and>
     (jr_error_code r \<noteq> None \<longleftrightarrow> jr_status r = StatusFailed) \<and>
     (jr_error_message r \<noteq> None \<longleftrightarrow> jr_status r = StatusFailed) \<and>
     (jr_status r = StatusCompleted \<longrightarrow> jr_progress_percent r = 100) \<and>
     (jr_status r = StatusQueued \<longrightarrow> jr_progress_percent r = 0 \<and> jr_progress_message r = [])"

definition intent_good :: "job_row \<Rightarrow> bool" where
  "intent_good r \<longleftrightarrow>
     (jr_status r = StatusCancelled \<longrightarrow> jr_cancel_requested_at r \<noteq> None) \<and>
     (jr_cancel_requested_at r \<noteq> None \<longrightarrow> jr_status r = StatusCancelled \<or> active_status (jr_status r)) \<and>
     (jr_deletion_requested_at r \<noteq> None \<longrightarrow> Status_Terminal (jr_status r) \<or> jr_cancel_requested_at r \<noteq> None)"

definition state_good :: "job_row \<Rightarrow> bool" where
  "state_good r \<longleftrightarrow> lease_good r \<and> attempts_good r \<and> outcome_good r \<and> intent_good r \<and>
     jr_output_object_key r = None \<and> pg_aligned (jr_updated_at r) \<and> pg_aligned (jr_available_at r) \<and>
     pg_aligned (jr_expires_at r)"

definition job_row_good :: "job_row \<Rightarrow> bool" where
  "job_row_good r \<longleftrightarrow> job_row_check r \<and> identity_good r \<and> state_good r"

lemmas job_check_defs = job_row_check_def pdf_job_creator_snapshot_consistency_def
  pdf_job_input_metadata_valid_def pdf_job_output_metadata_valid_def pdf_job_text_metadata_bounded_def
  pdf_job_timestamp_order_def pdf_job_columns_def

text \<open>A good row passes \<open>validateStoredJob\<close>: what is read from the table can be decoded.\<close>

lemma option_le: "(case v of None \<Rightarrow> False | Some t \<Rightarrow> t < (c :: instant)) \<longleftrightarrow> \<not> null_or (\<lambda>t. c \<le> t) v"
  by (auto split: option.split)

lemma option_pos: "(case v of None \<Rightarrow> False | Some n \<Rightarrow> n \<le> 0) \<longleftrightarrow> \<not> null_or (\<lambda>n. (0::int) < n) v"
  by (auto split: option.split)

lemma lease_after_creation:
  assumes "job_row_good r"
  shows "null_or (\<lambda>t. jr_created_at r \<le> t) (jr_lease_expires_at r)"
proof -
  have "null_or (\<lambda>t. jr_created_at r \<le> t) (jr_heartbeat_at r)" "lease_good r"
    using assms by (simp_all add: job_row_good_def state_good_def job_row_check_def pdf_job_timestamp_order_def)
  then show ?thesis by (auto simp: lease_good_def split: if_splits)
qed

lemma good_row_valid:
  assumes "job_row_good r"
  shows "validateStoredJob (job_view r) = None"
proof -
  have I: "identity_good r" and S: "state_good r" and C: "job_row_check r"
    using assms by (simp_all add: job_row_good_def)
  have "null_or (\<lambda>v. v \<in> {''original'', ''ebook'', ''screen''}) (jr_selected_profile r)"
    using C by (simp add: job_row_check_def pdf_job_columns_def)
  then have profile: "text_or_empty (jr_selected_profile r) \<in> {[], ''original'', ''ebook'', ''screen''}"
    by (cases "jr_selected_profile r") simp_all
  have texts: "null_or (\<lambda>v. length v \<le> 255) (jr_lease_owner r)" "null_or (\<lambda>v. length v \<le> 128) (jr_error_code r)"
      "null_or (\<lambda>v. length v \<le> 1024) (jr_error_message r)"
    using C by (simp_all add: job_row_check_def pdf_job_text_metadata_bounded_def)
  have len: "length (text_or_empty v) \<le> n" if "null_or (\<lambda>v. length v \<le> n) v" for v n
    using that by (cases v) simp_all
  have times: "\<not> job_times_invalid (job_view r)"
    using C I by (auto simp: job_times_invalid_def IsZero_def identity_good_def job_row_check_def pdf_job_timestamp_order_def)
  have events: "\<not> list_ex (\<lambda>optional. case optional of None \<Rightarrow> False | Some t \<Rightarrow> t < jr_created_at r)
      [jr_lease_expires_at r, jr_heartbeat_at r, jr_cancel_requested_at r, jr_started_at r,
       jr_completed_at r, jr_deletion_requested_at r]"
    using C lease_after_creation [OF assms]
    by (simp add: option_le job_row_check_def pdf_job_timestamp_order_def)
  have out: "text_or_empty (jr_output_object_key r) = []" "Status_Valid (jr_status r)"
      "jr_attempt_count r \<le> jr_max_attempts r"
    using S by (simp_all add: state_good_def outcome_good_def attempts_good_def)
  show ?thesis
    unfolding validateStoredJob_def job_view_simps option_pos
    using I out profile times events len [OF texts(1)] len [OF texts(2)] len [OF texts(3)] C
    by (simp add: identity_good_def validBoundedText_def maxFilenameBytes_def maxObjectKeyBytes_def
        maxProgressBytes_def maxIdentityTextBytes_def maxErrorCodeBytes_def maxErrorMessageBytes_def
        job_row_check_def pdf_job_input_metadata_valid_def pdf_job_columns_def pdf_job_text_metadata_bounded_def)
qed

lemma scan_stored_job:
  assumes "job_row_good r"
  shows "scanJob r = Inr (job_view r)"
proof -
  have C: "sha256_text (jr_input_sha256 r)" "null_or sha256_text (jr_output_sha256 r)"
    using assms by (simp_all add: job_row_good_def job_check_defs)
  have parse: "ParseSHA256 v = (Inr (stored_digest v) :: job_err + SHA256)" if "sha256_text v" for v
    using sha256_text_digits [OF that] by (auto simp: stored_digest_def ParseSHA256_def split: if_splits option.splits)
  have out: "(case jr_output_sha256 r of None \<Rightarrow> Inr None
      | Some v \<Rightarrow> (case ParseSHA256 v of Inl err \<Rightarrow> Inl err | Inr digest \<Rightarrow> Inr (Some digest)))
      = (Inr (map_option stored_digest (jr_output_sha256 r)) :: job_err + SHA256 option)"
    using C(2) parse by (cases "jr_output_sha256 r") simp_all
  show ?thesis
    unfolding scanJob_def out using parse [OF C(1)] good_row_valid [OF assms] by (simp add: job_view_def)
qed

lemma scanned_is_view: "scanJob r = Inr job \<Longrightarrow> job = job_view r"
  by (auto simp: scanJob_def job_view_def stored_digest_def ParseSHA256_def split: sum.splits option.splits if_splits)

subsection \<open>The moves of a row\<close>

text \<open>
  One constructor per statement; each demands the guards of its \<open>WHERE\<close> clause and that
  the new row satisfies the constraints of the table.
\<close>

inductive job_move :: "job_row \<Rightarrow> job_row \<Rightarrow> bool" where
  claimed:
    "\<lbrakk>claimable at r; pg_aligned at; pg_aligned lease; at \<le> lease;
      job_row_check (set_claimed workerID at lease r)\<rbrakk>
     \<Longrightarrow> job_move r (set_claimed workerID at lease r)"
| renewed:
    "\<lbrakk>active_status (jr_status r); \<not> stop_requested r; pg_aligned at; pg_aligned lease; at \<le> lease;
      job_row_check (set_renewed at lease r)\<rbrakk>
     \<Longrightarrow> job_move r (set_renewed at lease r)"
| moved:
    "\<lbrakk>validateTransition t = None; movable t r; job_row_check (set_moved t r)\<rbrakk>
     \<Longrightarrow> job_move r (set_moved t r)"
| recovered:
    "\<lbrakk>lease_expired at r; pg_aligned at; pg_aligned retryAt; job_row_check (set_recovered at retryAt r)\<rbrakk>
     \<Longrightarrow> job_move r (set_recovered at retryAt r)"
| cancelled:
    "\<lbrakk>pg_aligned at; jr_deletion_requested_at r = None; job_row_check (set_cancel at r)\<rbrakk>
     \<Longrightarrow> job_move r (set_cancel at r)"
| deleted:
    "\<lbrakk>pg_aligned at; job_row_check (set_deleted at r)\<rbrakk>
     \<Longrightarrow> job_move r (set_deleted at r)"

inductive_cases job_moveE: "job_move r r'"

lemmas job_setters = set_claimed_def set_renewed_def set_moved_def set_recovered_def set_cancel_def
  set_deleted_def

lemma set_identity:
  "same_identity r (set_claimed workerID at lease r)" "same_identity r (set_renewed at lease r)"
  "same_identity r (set_moved t r)" "same_identity r (set_recovered at retryAt r)"
  "same_identity r (set_cancel at r)" "same_identity r (set_deleted at r)"
  by (simp_all add: same_identity_def job_setters creator_of_row_def Let_def)

lemma move_identity: "job_move r r' \<Longrightarrow> same_identity r r'"
  by (induction rule: job_move.induct) (simp_all add: set_identity)

lemma transition_bounds:
  assumes "validateTransition t = None"
  shows "active_status (tr_ExpectedStatus t)" and "CanTransitionTo (tr_ExpectedStatus t) (tr_NextStatus t)"
    and "Status_Valid (tr_NextStatus t)" and "tr_NextStatus t \<noteq> StatusQueued" and "tr_NextStatus t \<noteq> StatusJobExpired"
    and "tr_NextStatus t = StatusCompleted \<Longrightarrow> tr_ProgressPercent t = 100"
    and "tr_NextStatus t = StatusFailed \<Longrightarrow> tr_ErrorCode t \<noteq> [] \<and> tr_ErrorMessage t \<noteq> []"
    and "tr_ObservedAt t < tr_LeaseExpiresAt t" and "validUUID (tr_JobID t)"
proof -
  have V: "ValidateTransition (tr_ExpectedStatus t) (tr_NextStatus t) = None"
    using assms by (simp add: validateTransition_def split: if_splits option.splits)
  show "CanTransitionTo (tr_ExpectedStatus t) (tr_NextStatus t)" "Status_Valid (tr_NextStatus t)"
    using V by (simp_all add: ValidateTransition_def split: if_splits)
  have "Status_Valid (tr_ExpectedStatus t)" using V by (simp add: ValidateTransition_def split: if_splits)
  moreover have "tr_ExpectedStatus t \<noteq> StatusQueued" "\<not> Status_Terminal (tr_ExpectedStatus t)"
    using assms V by (simp_all add: validateTransition_def split: if_splits)
  ultimately show "active_status (tr_ExpectedStatus t)"
    by (cases "tr_ExpectedStatus t")
      (simp_all add: active_status_def Status_Terminal_def Status_Valid_def transitions_def)
  show "tr_NextStatus t \<noteq> StatusQueued" "tr_NextStatus t \<noteq> StatusJobExpired"
    "tr_NextStatus t = StatusCompleted \<Longrightarrow> tr_ProgressPercent t = 100"
    "tr_ObservedAt t < tr_LeaseExpiresAt t" "validUUID (tr_JobID t)"
    using assms V by (simp_all add: validateTransition_def split: if_splits)
  show "tr_NextStatus t = StatusFailed \<Longrightarrow> tr_ErrorCode t \<noteq> [] \<and> tr_ErrorMessage t \<noteq> []"
    using assms V by (auto simp: validateTransition_def validBoundedText_def split: if_splits)
qed

lemma status_cases:
  "Status_Valid s \<Longrightarrow> s \<noteq> StatusJobExpired \<Longrightarrow> \<not> Status_Terminal s \<Longrightarrow> s \<noteq> StatusQueued \<Longrightarrow> active_status s"
  by (cases s) (simp_all add: active_status_def Status_Terminal_def Status_Valid_def transitions_def)

lemma active_simps [simp]:
  "active_status StatusAnalyzing" "active_status StatusOptimizing" "active_status StatusValidating"
  "\<not> active_status StatusQueued" "\<not> active_status StatusCompleted" "\<not> active_status StatusFailed"
  "\<not> active_status StatusCancelled"
  by (simp_all add: active_status_def)

lemma terminal_simps [simp]:
  "Status_Terminal StatusCompleted" "Status_Terminal StatusFailed" "Status_Terminal StatusCancelled"
  "\<not> Status_Terminal StatusQueued" "\<not> Status_Terminal StatusAnalyzing" "Status_Terminal StatusJobExpired"
  "\<not> Status_Terminal StatusOptimizing" "\<not> Status_Terminal StatusValidating"
  by (simp_all add: Status_Terminal_def)

lemma valid_simps [simp]:
  "Status_Valid StatusQueued" "Status_Valid StatusAnalyzing" "Status_Valid StatusFailed" "Status_Valid StatusCancelled"
  by (simp_all add: Status_Valid_def transitions_def)

lemma active_not_terminal: "active_status s \<Longrightarrow> \<not> Status_Terminal s \<and> s \<noteq> StatusQueued"
  by (auto simp: active_status_def)

lemmas state_defs = state_good_def lease_good_def attempts_good_def outcome_good_def intent_good_def

lemma claim_state:
  assumes "state_good r" and "claimable at r" and "pg_aligned at" "pg_aligned lease" "at \<le> lease"
    and "0 \<le> jr_attempt_count r"
  shows "state_good (set_claimed workerID at lease r)"
  using assms by (auto simp: state_defs set_claimed_def claimable_def)

lemma renew_state:
  assumes "state_good r" and "active_status (jr_status r)" "\<not> stop_requested r"
    and "pg_aligned at" "pg_aligned lease" "at \<le> lease"
  shows "state_good (set_renewed at lease r)"
  using assms by (auto simp: state_defs set_renewed_def)

lemma moved_state:
  assumes "state_good r" and v: "validateTransition t = None" and m: "movable t r"
  shows "state_good (set_moved t r)"
proof -
  note T = transition_bounds [OF v]
  have act: "active_status (jr_status r)" using m unfolding movable_def holds_lease_def by blast
  note N = active_not_terminal [OF act]
  have S: "state_good r" by fact
  have next_active: "active_status (tr_NextStatus t) \<longleftrightarrow> \<not> Status_Terminal (tr_NextStatus t)"
    using status_cases [of "tr_NextStatus t"] T(3-5) active_not_terminal by blast
  have lease: "pg_time (tr_ObservedAt t) \<le> pg_time (tr_LeaseExpiresAt t)"
    using T(8) by (simp add: pg_time_mono)
  have 1: "lease_good (set_moved t r)"
    using S act next_active lease by (auto simp: state_good_def lease_good_def set_moved_def Let_def)
  have 2: "attempts_good (set_moved t r)"
    using S act by (auto simp: state_good_def attempts_good_def set_moved_def Let_def)
  have 3: "outcome_good (set_moved t r)"
    using S act N T(3-7) by (auto simp: state_good_def outcome_good_def set_moved_def Let_def nullableString_def)
  have 4: "intent_good (set_moved t r)"
    using S act N m next_active by (auto simp: state_good_def intent_good_def set_moved_def Let_def movable_def stop_requested_def split: if_splits)
  show ?thesis
    using 1 2 3 4 S by (auto simp: state_good_def set_moved_def Let_def)
qed

lemma recover_state:
  assumes S: "state_good r" and "lease_expired at r" and "pg_aligned at" "pg_aligned retryAt"
  shows "state_good (set_recovered at retryAt r)"
proof -
  let ?r = "set_recovered at retryAt r"
  have act: "active_status (jr_status r)" using assms by (simp add: lease_expired_def)
  note N = active_not_terminal [OF act]
  have 1: "lease_good ?r" by (simp add: lease_good_def set_recovered_def)
  have 2: "attempts_good ?r"
    using S act by (auto simp: state_good_def attempts_good_def set_recovered_def)
  have 3: "outcome_good ?r"
    using S act N by (auto simp: state_good_def outcome_good_def set_recovered_def retryable_def exhausted_def)
  have 4: "intent_good ?r"
    using S act N by (auto simp: state_good_def intent_good_def set_recovered_def stop_requested_def)
  show ?thesis
    using 1 2 3 4 S assms by (auto simp: state_good_def set_recovered_def)
qed

lemma lease_unchanged:
  "lease_good r \<Longrightarrow> jr_status r' = jr_status r \<Longrightarrow> jr_lease_owner r' = jr_lease_owner r \<Longrightarrow>
    jr_lease_expires_at r' = jr_lease_expires_at r \<Longrightarrow> jr_heartbeat_at r' = jr_heartbeat_at r \<Longrightarrow> lease_good r'"
  by (simp only: lease_good_def)

lemma cancel_state:
  assumes S: "state_good r" and "pg_aligned at"
  shows "state_good (set_cancel at r)"
proof (cases "jr_status r = StatusQueued")
  case True
  with assms show ?thesis by (simp add: state_defs set_cancel_def pg_aligned_max)
next
  case False
  with S have "lease_good (set_cancel at r)" "attempts_good (set_cancel at r)" "outcome_good (set_cancel at r)"
    using lease_unchanged [of r "set_cancel at r"]
    by (simp_all add: state_good_def attempts_good_def outcome_good_def set_cancel_def)
  moreover have "intent_good (set_cancel at r)"
    using S False by (auto simp: state_good_def intent_good_def set_cancel_def)
  ultimately show ?thesis 
    using assms by (simp add: state_good_def set_cancel_def pg_aligned_max)
qed

lemma delete_state:
  assumes S: "state_good r" and "pg_aligned at" and "pg_aligned (jr_created_at r)"
  shows "state_good (set_deleted at r)"
proof -
  have exp: "pg_aligned (min (jr_expires_at r) (max at (jr_created_at r + Microsecond)))"
    using assms by (intro pg_aligned_min pg_aligned_max pg_aligned_add_us) (simp_all add: state_good_def)
  show ?thesis
  proof (cases "jr_status r = StatusQueued")
    case True
    with assms exp show ?thesis by (simp add: state_defs set_deleted_def pg_aligned_max)
  next
    case False
    then have dead: "Status_Terminal (jr_status r) \<or> active_status (jr_status r)"
      using S status_cases by (auto simp: state_good_def outcome_good_def)
    with S False have "lease_good (set_deleted at r)" "attempts_good (set_deleted at r)" "outcome_good (set_deleted at r)"
      using lease_unchanged [of r "set_deleted at r"]
      by (simp_all add: state_good_def attempts_good_def outcome_good_def set_deleted_def)
    moreover have "intent_good (set_deleted at r)"
      using S False dead by (auto simp: state_good_def intent_good_def set_deleted_def)
    ultimately show ?thesis
      using assms exp by (simp add: state_good_def set_deleted_def pg_aligned_max)
  qed
qed

lemma move_state:
  "job_move r r' \<Longrightarrow> state_good r \<Longrightarrow> pg_aligned (jr_created_at r) \<Longrightarrow> 0 \<le> jr_attempt_count r \<Longrightarrow>
    state_good r' \<and> job_row_check r'"
  by (induction rule: job_move.induct)
    (simp_all add: claim_state renew_state moved_state recover_state cancel_state delete_state)

lemma move_keeps_good:
  assumes "job_move r r'" and "job_row_good r"
  shows "job_row_good r'"
  using assms same_identity_good [OF move_identity [OF assms(1)]] move_state [OF assms(1)]
  by (simp add: job_row_good_def identity_good_def job_row_check_def [of r] pdf_job_columns_def)

subsection \<open>The invariant of the table\<close>

text \<open>Each job belongs to the committed upload whose content it processes.\<close>

definition from_upload :: "upload_row \<Rightarrow> job_row \<Rightarrow> bool" where
  "from_upload u r \<longleftrightarrow> us_id u = jr_upload_id r \<and> us_status u = StatusCommitted \<and> us_owner u = jr_owner r \<and>
     us_original_filename u = jr_original_filename r \<and> us_object_key u = jr_input_object_key r \<and>
     us_committed_sha256 u = Some (jr_input_sha256 r) \<and> us_declared_size u = jr_input_bytes r"

definition jobs_good :: "mime \<Rightarrow> 'z job_db_scheme \<Rightarrow> bool" where
  "jobs_good m d \<longleftrightarrow> uploads_good m d \<and> distinct (map jr_id (pdf_job d)) \<and>
     distinct (map jr_upload_id (pdf_job d)) \<and>
     (\<forall>r \<in> set (pdf_job d). job_row_good r \<and> (\<exists>u \<in> set (upload_session d). from_upload u r))"

inductive job_change :: "'z job_db_scheme \<Rightarrow> 'z job_db_scheme \<Rightarrow> bool" where
  queued:
    "\<lbrakk>validateJobSeed s = None; u \<in> set (upload_session d); committed_source (job_UploadID s) (job_Owner s) u;
      row = insert_job_row s u; job_row_check row; 0 < jr_created_at row;
      list_all (\<lambda>r. jr_id r \<noteq> jr_id row \<and> jr_upload_id r \<noteq> jr_upload_id row) (pdf_job d)\<rbrakk>
     \<Longrightarrow> job_change d (d\<lparr>pdf_job := pdf_job d @ [row]\<rparr>)"
| worked:
    "list_all (\<lambda>r. f r = r \<or> job_move r (f r)) (pdf_job d)
     \<Longrightarrow> job_change d (d\<lparr>pdf_job := map f (pdf_job d)\<rparr>)"

lemma jobs_good_row:
  assumes "jobs_good m d" and "r \<in> set (pdf_job d)"
  shows "job_row_good r" and "\<exists>u \<in> set (upload_session d). from_upload u r"
  using assms by (simp_all add: jobs_good_def)

lemma seed_creator:
  assumes "validateCreator owner creator = None"
  shows "valid_owner owner \<and> creator_of_row (insert_job_row (s\<lparr>job_Owner := owner, job_Creator := creator\<rparr>) u) = creator"
proof -
  have own: "job_Owner_Validate owner = None"
    using assms by (simp add: validateCreator_def split: option.splits)
  then have "valid_owner owner" by (simp add: job_Owner_Validate_None)
  with assms own show ?thesis
    by (auto simp: validateCreator_def creator_of_row_def insert_job_row_def creatorDatabaseValues_def
        no_creator_def split: if_splits)
qed

lemma seed_facts:
  assumes "validateJobSeed s = None"
  shows "validateCreator (job_Owner s) (job_Creator s) = None" and "validUUID (job_ID s)" and "validUUID (job_UploadID s)"
    and "valid_owner (job_Owner s)" and "creator_of_row (insert_job_row s u) = job_Creator s"
proof -
  show c: "validateCreator (job_Owner s) (job_Creator s) = None" "validUUID (job_ID s)" "validUUID (job_UploadID s)"
    using assms by (simp_all add: validateJobSeed_def split: option.splits if_splits)
  have "s\<lparr>job_Owner := job_Owner s, job_Creator := job_Creator s\<rparr> = s" by simp
  with seed_creator [OF c(1), of s u]
  show "valid_owner (job_Owner s)" "creator_of_row (insert_job_row s u) = job_Creator s" by simp_all
qed

lemma inserted_fields [simp]:
  "jr_id (insert_job_row s u) = job_ID s" "jr_upload_id (insert_job_row s u) = job_UploadID s"
  "jr_owner (insert_job_row s u) = owner_columns (job_Owner s)"
  "jr_original_filename (insert_job_row s u) = us_original_filename u"
  "jr_input_object_key (insert_job_row s u) = us_object_key u"
  "jr_input_sha256 (insert_job_row s u) = text_or_empty (us_committed_sha256 u)"
  "jr_input_bytes (insert_job_row s u) = us_declared_size u" "jr_status (insert_job_row s u) = StatusQueued"
  "jr_created_at (insert_job_row s u) = pg_time (job_CreatedAt s)"
  "jr_deletion_requested_at (insert_job_row s u) = None" "jr_version (insert_job_row s u) = 1"
  "jr_attempt_count (insert_job_row s u) = 0"
  by (simp_all add: insert_job_row_def split: prod.split)

lemma source_texts:
  assumes "uploads_good m d" and "u \<in> set (upload_session d)"
  shows "TrimSpace (us_original_filename u) \<noteq> []" and "TrimSpace (us_object_key u) \<noteq> []"
proof -
  have v: "stored_fields_ok m (view u)"
    using uploads_good_row(1) [OF assms] by (simp add: upload_row_good_def validateStoredSession_None)
  then show "TrimSpace (us_object_key u) \<noteq> []" by (simp add: stored_fields_ok_def)
  have "is_normal (SanitizeFilename (us_original_filename u) :: upload_err + string) (us_original_filename u)"
    using v by (simp add: stored_fields_ok_def)
  then have "(SanitizeFilename (us_original_filename u) :: upload_err + string) = Inr (us_original_filename u)"
    by (simp add: is_normal_def split: sum.splits)
  from SanitizeFilename_Inr(2,11) [OF this] show "TrimSpace (us_original_filename u) \<noteq> []" by simp
qed

lemma seed_row_good:
  assumes good: "uploads_good m d" and u: "u \<in> set (upload_session d)"
    and v: "validateJobSeed s = None" and src: "committed_source (job_UploadID s) (job_Owner s) u"
    and chk: "job_row_check (insert_job_row s u)" "0 < jr_created_at (insert_job_row s u)"
  shows "job_row_good (insert_job_row s u) \<and> from_upload u (insert_job_row s u)"
proof -
  let ?row = "insert_job_row s u"
  note F = seed_facts [OF v]
  have "0 < job_MaxAttempts s" using v by (simp add: validateJobSeed_def split: option.splits if_splits)
  then have "state_good ?row"
    by (simp add: state_defs insert_job_row_def split: prod.split)
  moreover have "identity_good ?row"
    using F(1-4) F(5) [of u] source_texts [OF good u] chk(2) by (simp add: identity_good_def)
  moreover have "from_upload u ?row"
    using src by (auto simp: from_upload_def committed_source_def)
  ultimately show ?thesis using chk by (simp add: job_row_good_def)
qed

lemma move_or_same:
  assumes "f r = r \<or> job_move r (f r)" and "job_row_good r"
  shows "job_row_good (f r) \<and> same_identity r (f r)"
  using assms move_keeps_good move_identity by (metis same_identity_def)

lemma job_change_keeps_invariant:
  assumes "job_change d d'" and good: "jobs_good m d"
  shows "jobs_good m d'"
  using assms(1)
proof cases
  case (queued s u row)
  have "uploads_good m d" using good by (simp add: jobs_good_def)
  from seed_row_good [OF this queued(3,2,4)] queued good show ?thesis
    by (auto simp: jobs_good_def uploads_good_def list_all_iff)
next
  case (worked f)
  have each: "job_row_good (f r) \<and> same_identity r (f r)" if "r \<in> set (pdf_job d)" for r
    by (rule move_or_same) (use worked(2) that jobs_good_row(1) [OF good] in \<open>simp_all add: list_all_iff\<close>)
  then have "map (jr_id \<circ> f) (pdf_job d) = map jr_id (pdf_job d)"
      "map (jr_upload_id \<circ> f) (pdf_job d) = map jr_upload_id (pdf_job d)"
    by (simp_all add: same_identity_def)
  then have ids: "distinct (map (jr_id \<circ> f) (pdf_job d))" "distinct (map (jr_upload_id \<circ> f) (pdf_job d))"
    using good unfolding jobs_good_def by metis+
  have "\<exists>u \<in> set (upload_session d). from_upload u (f r)" if "r \<in> set (pdf_job d)" for r
    using jobs_good_row(2) [OF good that] each [OF that] by (auto simp: from_upload_def same_identity_def)
  with ids each good show ?thesis
    unfolding worked(1) jobs_good_def uploads_good_def by simp
qed

text \<open>The changes of the upload tables leave the jobs and their committed uploads in place.\<close>

lemma upload_change_jobs: "upload_change m d d' \<Longrightarrow> pdf_job d' = pdf_job d"
  by (induction rule: upload_change.induct) simp_all

lemma upload_change_keeps_jobs:
  assumes "upload_change m d d'" and good: "jobs_good m d"
  shows "jobs_good m d'"
proof -
  have U: "uploads_good m d" using good by (simp add: jobs_good_def)
  have "u \<in> set (upload_session d')" if "u \<in> set (upload_session d)" "us_status u = StatusCommitted" for u
    using change_evolves [OF assms(1) U that(1)] that(2) by (auto simp: evolves_def final_status_def)
  with good change_keeps_invariant [OF assms(1) U] show ?thesis
    unfolding jobs_good_def upload_change_jobs [OF assms(1)] from_upload_def by blast
qed

subsection \<open>Every statement makes such changes only\<close>

lemma seed_time: "validateJobSeed s = None \<Longrightarrow> job_CreatedAt s \<noteq> 0"
  by (auto simp: validateJobSeed_def job_times_invalid_def IsZero_def split: if_splits option.splits)

lemma created_job_Inr: "created_job r = Inr job \<Longrightarrow> job = job_view r \<and> jr_deletion_requested_at r = None"
  by (auto simp: created_job_def split: sum.splits if_splits dest!: scanned_is_view)

lemma pg_job_Create_change:
  assumes "pg_job_Create flt s d = (res, d')" and "d' \<noteq> d \<or> \<not> isl res"
  shows "\<exists>u \<in> set (upload_session d). committed_source (job_UploadID s) (job_Owner s) u \<and> validateJobSeed s = None \<and>
    job_row_check (insert_job_row s u) \<and>
    (\<exists>r. (find (\<lambda>r. jr_upload_id r = job_UploadID s) (pdf_job d) = Some r \<and> jr_owner r = owner_columns (job_Owner s) \<and> d' = d
       \<or> r = insert_job_row s u \<and> d' = d\<lparr>pdf_job := pdf_job d @ [r]\<rparr> \<and>
         (\<forall>q \<in> set (pdf_job d). jr_upload_id q \<noteq> job_UploadID s \<and> jr_id q \<noteq> job_ID s)) \<and>
       (\<forall>job. res = Inr job \<longrightarrow> job = job_view r \<and> jr_deletion_requested_at r = None))"
proof -
  obtain u where u: "find (committed_source (job_UploadID s) (job_Owner s)) (upload_session d) = Some u"
    using assms by (auto simp: pg_job_Create_def Let_def finish_def split: option.splits if_splits dbcall.splits)
  have src: "u \<in> set (upload_session d)" "committed_source (job_UploadID s) (job_Owner s) u"
    using find_Some_in [OF u] by auto
  have v: "validateJobSeed s = None" "job_row_check (insert_job_row s u)"
    using assms u by (auto simp: pg_job_Create_def Let_def finish_def split: option.splits if_splits dbcall.splits)
  show ?thesis
  proof (cases "find (\<lambda>r. jr_upload_id r = job_UploadID s) (pdf_job d)")
    case None
    let ?row = "insert_job_row s u" and ?failed = "Inl (StorageError ''create'')"
    have E: "(res, d') = (if flt ''create'' = Call_Failed \<or> \<not> creator_texts (job_Creator s) then (?failed, d)
        else if list_ex (\<lambda>r. jr_id r = jr_id ?row \<or> jr_input_object_key r = jr_input_object_key ?row) (pdf_job d)
          then (if flt ''create'' = Call_Ok then Inl (Sentinel JobErrConflict) else ?failed, d)
        else if \<not> owner_exists (jr_owner ?row) d then (?failed, d)
        else finish (flt ''create'') d (d\<lparr>pdf_job := pdf_job d @ [?row]\<rparr>) ?failed (created_job ?row))"
      using assms(1) u None v by (simp add: pg_job_Create_def Let_def cong: if_cong split del: if_split)
    have e: "d' = d\<lparr>pdf_job := pdf_job d @ [insert_job_row s u]\<rparr>" "\<forall>q \<in> set (pdf_job d). jr_id q \<noteq> job_ID s"
        "\<And>job. res = Inr job \<Longrightarrow> created_job (insert_job_row s u) = Inr job"
      using E assms(2) by (auto simp: finish_def list_ex_iff split: if_splits dbcall.splits)
    have n: "\<forall>q \<in> set (pdf_job d). jr_upload_id q \<noteq> job_UploadID s"
      using None by (simp add: find_None_iff_in)
    have R: "\<forall>job. res = Inr job \<longrightarrow> job = job_view (insert_job_row s u) \<and> jr_deletion_requested_at (insert_job_row s u) = None"
      using e(3) created_job_Inr by blast
    show ?thesis
      by (rule bexI [OF _ src(1)], intro conjI src(2) v exI [of _ "insert_job_row s u"] R)
        (use e n in simp)
  next
    case (Some r)
    have E: "(res, d') = (if flt ''create'' = Call_Failed \<or> \<not> creator_texts (job_Creator s)
          then (Inl (StorageError ''create''), d)
        else if jr_owner r = owner_columns (job_Owner s)
          then finish (flt ''create'') d d (Inl (StorageError ''create'')) (created_job r)
        else finish (flt ''create'') d d (Inl (StorageError ''create'')) (Inl (Sentinel JobErrNotFound)))"
      using assms(1) u Some v by (simp add: pg_job_Create_def Let_def cong: if_cong split del: if_split)
    have e: "d' = d" "jr_owner r = owner_columns (job_Owner s)"
      using E assms(2) by (auto simp: finish_def split: if_splits dbcall.splits)
    have "\<And>job. res = Inr job \<Longrightarrow> created_job r = Inr job"
      using E by (auto simp: finish_def split: if_splits dbcall.splits)
    then have R: "\<forall>job. res = Inr job \<longrightarrow> job = job_view r \<and> jr_deletion_requested_at r = None"
      using created_job_Inr by blast
    show ?thesis
      by (rule bexI [OF _ src(1)], intro conjI src(2) v exI [of _ r] R) (use e Some in simp)
  qed
qed

lemma create_refines:
  assumes good: "jobs_good m d" and "Microsecond \<le> job_CreatedAt s" and "pg_job_Create flt s d = (res, d')"
  shows "d' = d \<or> job_change d d'"
proof (rule disjCI)
  assume "\<not> job_change d d'"
  show "d' = d"
  proof (rule ccontr)
    assume "d' \<noteq> d"
    with pg_job_Create_change [OF assms(3)] obtain u where u: "u \<in> set (upload_session d)"
        "committed_source (job_UploadID s) (job_Owner s) u" "validateJobSeed s = None"
        "job_row_check (insert_job_row s u)" "d' = d\<lparr>pdf_job := pdf_job d @ [insert_job_row s u]\<rparr>"
        "\<forall>q \<in> set (pdf_job d). jr_upload_id q \<noteq> job_UploadID s \<and> jr_id q \<noteq> job_ID s"
      by auto
    have "job_change d d'"
      unfolding u(5) by (rule queued [OF u(3,1,2) refl u(4)])
        (use u(6) assms(2) pg_time_pos in \<open>simp_all add: list_all_iff\<close>)
    with \<open>\<not> job_change d d'\<close> show False ..
  qed
qed

lemma checked_update_change:
  assumes "sql_checked_update job_row_check P f (pdf_job d) = Some rows"
    and "\<And>r. r \<in> set (pdf_job d) \<Longrightarrow> P r \<Longrightarrow> job_row_check (f r) \<Longrightarrow> f r = r \<or> job_move r (f r)"
  shows "job_change d (d\<lparr>pdf_job := rows\<rparr>)"
proof -
  have "rows = map (\<lambda>r. if P r then f r else r) (pdf_job d)"
    and "\<forall>r \<in> set (pdf_job d). P r \<longrightarrow> job_row_check (f r)"
    using assms(1) by (auto simp: sql_checked_update_def sql_update_def list_all_iff split: if_splits)
  with assms(2) worked [of "\<lambda>r. if P r then f r else r" d] show ?thesis
    by (simp add: list_all_iff)
qed

lemma update_returning_change:
  assumes "update_returning flt op sendable P f missing d = (res, d')"
    and "\<And>r. r \<in> set (pdf_job d) \<Longrightarrow> P r \<Longrightarrow> job_row_check (f r) \<Longrightarrow> f r = r \<or> job_move r (f r)"
  shows "d' = d \<or> job_change d d'"
  using assms checked_update_change [of P f d]
  by (auto simp: update_returning_def Let_def finish_def split: if_splits option.splits dbcall.splits)

lemma update_returning_Inr:
  assumes "update_returning flt op sendable P f missing d = (Inr job, d')"
  obtains r where "find P (pdf_job d) = Some r" "r \<in> set (pdf_job d)" "P r" "job_row_check (f r)" "job = job_view (f r)"
    "d' = d\<lparr>pdf_job := sql_update P f (pdf_job d)\<rparr>"
proof -
  obtain rows where rows: "sql_checked_update job_row_check P f (pdf_job d) = Some rows"
    using assms by (auto simp: update_returning_def Let_def split: if_splits option.splits)
  have F: "finish (flt op) d (d\<lparr>pdf_job := rows\<rparr>) (Inl (StorageError op))
      (case find P (pdf_job d) of None \<Rightarrow> Inl (Sentinel missing)
       | Some r \<Rightarrow> (case scanJob (f r) of Inl err \<Rightarrow> Inl (StorageError op) | Inr stored \<Rightarrow> Inr stored)) = (Inr job, d')"
    using assms rows by (simp add: update_returning_def Let_def split: if_splits)
  then obtain r where r: "find P (pdf_job d) = Some r" "scanJob (f r) = Inr job" "d' = d\<lparr>pdf_job := rows\<rparr>"
    by (auto simp: finish_Inr_iff split: option.splits sum.splits)
  moreover have "rows = sql_update P f (pdf_job d)" "\<forall>r \<in> set (pdf_job d). P r \<longrightarrow> job_row_check (f r)"
    using rows by (auto simp: sql_checked_update_def list_all_iff split: if_splits)
  ultimately show ?thesis
    using that find_Some_in [OF r(1)] scanned_is_view [OF r(2)] by simp
qed

lemma cancel_refines:
  "pg_job_Cancel flt jobID owner t d = (res, d') \<Longrightarrow> d' = d \<or> job_change d d'"
  unfolding pg_job_Cancel_def
  by (auto split: if_splits elim!: update_returning_change intro: cancelled)

lemma delete_refines:
  "pg_job_Delete flt jobID owner t d = (res, d') \<Longrightarrow> d' = d \<or> job_change d d'"
  using checked_update_change [of "owned_job jobID owner" "set_deleted (pg_time t)" d] deleted [of "pg_time t"]
  by (auto simp: pg_job_Delete_def Let_def finish_def split: if_splits option.splits dbcall.splits)

lemma claim_candidate:
  assumes "sort_key claim_order (filter P t) = c # rest"
  shows "c \<in> set t \<and> P c \<and> (\<forall>r \<in> set t. P r \<longrightarrow> claim_order c \<le> claim_order r)"
proof -
  have "set (sort_key claim_order (filter P t)) = set (filter P t)" by simp
  then have "set (c # rest) = set (filter P t)" unfolding assms .
  moreover have "sorted (map claim_order (c # rest))"
    using sorted_sort_key [of claim_order "filter P t"] by (simp only: assms)
  ultimately show ?thesis by (auto simp: set_eq_iff)
qed

lemma claim_times:
  "validateClaim workerID t lease = None \<Longrightarrow> validWorkerID workerID \<and> t < lease \<and> pg_time t \<le> pg_time lease"
  by (auto simp: validateClaim_def pg_time_mono split: if_splits)

lemma the_job:
  "jobs_good m d \<Longrightarrow> r \<in> set (pdf_job d) \<Longrightarrow> q \<in> set (pdf_job d) \<Longrightarrow> jr_id q = jr_id r \<Longrightarrow> q = r"
  by (metis (mono_tags, lifting) jobs_good_def distinct_map inj_onD)

lemma claim_refines:
  assumes "jobs_good m d" and "pg_Claim flt locked workerID t lease d = (res, d')"
  shows "d' = d \<or> job_change d d'"
proof (cases "sort_key claim_order (filter (\<lambda>r. claimable (pg_time t) r \<and> jr_id r \<notin> set locked) (pdf_job d))")
  case Nil
  with assms(2) show ?thesis
    by (auto simp: pg_Claim_def Let_def finish_def split: option.splits if_splits dbcall.splits)
next
  case (Cons c rest)
  let ?f = "set_claimed workerID (pg_time t) (pg_time lease)"
  have c: "c \<in> set (pdf_job d)" "claimable (pg_time t) c" using claim_candidate [OF Cons] by auto
  have "job_change d (d\<lparr>pdf_job := rows\<rparr>)"
    if "sql_checked_update job_row_check (\<lambda>r. jr_id r = jr_id c) ?f (pdf_job d) = Some rows"
      and "validateClaim workerID t lease = None" for rows
    by (rule checked_update_change [OF that(1)])
      (use the_job [OF assms(1) c(1)] c(2) claim_times [OF that(2)] in \<open>auto intro!: claimed\<close>)
  with assms(2) Cons show ?thesis
    by (auto simp: pg_Claim_def Let_def finish_def split: option.splits if_splits dbcall.splits)
qed

lemma heartbeat_refines:
  assumes "pg_Heartbeat flt jobID workerID t lease d = (res, d')"
  shows "d' = d \<or> job_change d d'"
proof (cases "validateHeartbeat jobID workerID t lease")
  case None
  then have t: "pg_time t \<le> pg_time lease"
    by (auto simp: validateHeartbeat_def dest: claim_times split: if_splits)
  obtain res' where "update_returning flt ''heartbeat'' (pg_text workerID) (holds_lease jobID workerID (pg_time t))
      (set_renewed (pg_time t) (pg_time lease)) ErrLeaseLost d = (res', d')"
    using assms None by (auto simp: pg_Heartbeat_def split: prod.splits sum.splits if_splits)
  then show ?thesis
  proof (rule update_returning_change)
    fix r assume "holds_lease jobID workerID (pg_time t) r" "job_row_check (set_renewed (pg_time t) (pg_time lease) r)"
    then show "set_renewed (pg_time t) (pg_time lease) r = r \<or> job_move r (set_renewed (pg_time t) (pg_time lease) r)"
      using t renewed [of r "pg_time t" "pg_time lease"]
      by (cases "stop_requested r") (simp add: set_renewed_def, simp add: holds_lease_def)
  qed
qed (use assms in \<open>simp add: pg_Heartbeat_def\<close>)

lemma transition_refines:
  assumes "pg_Transition flt t d = (res, d')"
  shows "d' = d \<or> job_change d d'"
  using assms moved [of t]
  by (auto simp: pg_Transition_def split: option.splits elim!: update_returning_change)

lemma expired_batch_rows:
  "r \<in> set (expired_batch locked at limit t) \<Longrightarrow> r \<in> set t \<and> lease_expired at r \<and> jr_id r \<notin> set locked"
  by (auto simp: expired_batch_def dest!: in_set_takeD)

lemma recover_refines:
  assumes "jobs_good m d" and "pg_RecoverExpired flt locked request d = (res, d')"
  shows "d' = d \<or> job_change d d'"
proof -
  let ?at = "pg_time (rr_ObservedAt request)"
  let ?b = "expired_batch locked ?at (rr_Limit request) (pdf_job d)"
  have "job_change d (d\<lparr>pdf_job := rows\<rparr>)"
    if "sql_checked_update job_row_check (\<lambda>r. jr_id r \<in> set (map jr_id ?b))
      (set_recovered ?at (pg_time (rr_RetryAt request))) (pdf_job d) = Some rows" for rows
  proof (rule checked_update_change [OF that])
    fix r assume r: "r \<in> set (pdf_job d)" "jr_id r \<in> set (map jr_id ?b)"
      and chk: "job_row_check (set_recovered ?at (pg_time (rr_RetryAt request)) r)"
    then obtain q where "q \<in> set ?b" "jr_id q = jr_id r" by auto
    then have "lease_expired ?at r" using expired_batch_rows the_job [OF assms(1) r(1)] by metis
    with chk show "set_recovered ?at (pg_time (rr_RetryAt request)) r = r \<or>
        job_move r (set_recovered ?at (pg_time (rr_RetryAt request)) r)"
      by (simp add: recovered)
  qed
  with assms(2) show ?thesis
    by (auto simp: pg_RecoverExpired_def Let_def finish_def split: option.splits if_splits dbcall.splits)
qed

end
