(* ===== verification/Upload_Lifecycle.thy ===== *)
theory Upload_Lifecycle
  imports Upload_Store
begin

text \<open>
  The \<open>Store\<close> interface and the \<open>Manager\<close> of \<open>internal/upload/upload.go\<close>, and runs of the
  store under any failures of the database. The interface is the
  locale \<open>upload_store\<close>; \<open>responsive_upload_store\<close> extends it for a database that answers.
\<close>

subsection \<open>The interface and the manager\<close>

record 'd UploadStore =
  ust_Create :: "UploadSession \<Rightarrow> 'd \<Rightarrow> (upload_err + UploadSession) \<times> 'd"
  ust_Get :: "string \<Rightarrow> Owner \<Rightarrow> 'd \<Rightarrow> (upload_err + UploadSession) \<times> 'd"
  ust_RecordPart :: "PartWrite \<Rightarrow> 'd \<Rightarrow> (upload_err + PartReceipt) \<times> 'd"
  ust_BeginCommit :: "string \<Rightarrow> Owner \<Rightarrow> instant \<Rightarrow> 'd \<Rightarrow> (upload_err + CommitPlan) \<times> 'd"
  ust_Complete :: "string \<Rightarrow> Owner \<Rightarrow> SHA256 \<Rightarrow> instant \<Rightarrow> 'd \<Rightarrow> (upload_err + UploadSession) \<times> 'd"
  ust_Abort :: "string \<Rightarrow> Owner \<Rightarrow> instant \<Rightarrow> 'd \<Rightarrow> (upload_err + UploadSession) \<times> 'd"

definition PostgresUploadStore :: "mime \<Rightarrow> faults \<Rightarrow> 'z upload_db_scheme UploadStore" where
  "PostgresUploadStore m flt =
     \<lparr>ust_Create = pg_upload_Create m flt, ust_Get = pg_upload_Get m flt, ust_RecordPart = pg_RecordPart m flt,
      ust_BeginCommit = pg_BeginCommit m flt, ust_Complete = pg_Complete m flt, ust_Abort = pg_Abort m flt\<rparr>"

definition NewPostgresUploadStore :: "mime \<Rightarrow> faults option \<Rightarrow> upload_err + 'z upload_db_scheme UploadStore" where
  "NewPostgresUploadStore m database =
     (case database of None \<Rightarrow> Inl (ErrText ''upload database is required'')
      | Some flt \<Rightarrow> Inr (PostgresUploadStore m flt))"

record 'd UploadManager =
  um_store :: "'d UploadStore"
  um_maxBytes :: int
  um_chunkBytes :: int
  um_sessionTTL :: duration

definition NewUploadManager ::
    "'d UploadStore option \<Rightarrow> int \<Rightarrow> int \<Rightarrow> duration \<Rightarrow> upload_err + 'd UploadManager" where
  "NewUploadManager store maxBytes chunkBytes sessionTTL =
     (case store of None \<Rightarrow> Inl (ErrText ''upload store is required'')
      | Some store \<Rightarrow>
      if maxBytes \<le> 0 then Inl (ErrText ''maximum upload size must be positive'')
      else if chunkBytes \<le> 0 \<or> chunkBytes > maxBytes \<or> chunkBytes > MaxInt32
        then Inl (ErrText ''upload chunk size must be positive, fit int32, and not exceed maximum size'')
      else if sessionTTL \<le> 0 then Inl (ErrText ''upload session TTL must be positive'')
      else Inr \<lparr>um_store = store, um_maxBytes = maxBytes, um_chunkBytes = chunkBytes, um_sessionTTL = sessionTTL\<rparr>)"

definition new_upload :: "'d UploadManager \<Rightarrow> string \<Rightarrow> Owner \<Rightarrow> string \<Rightarrow> string \<Rightarrow> int \<Rightarrow> int \<Rightarrow> instant \<Rightarrow> UploadSession" where
  "new_upload manager uploadID owner filename contentType declaredSize expectedChunks now =
     \<lparr>up_ID = uploadID, up_Owner = owner, up_OriginalFilename = filename, up_ContentType = contentType,
      up_DeclaredSize = declaredSize, up_ChunkSize = um_chunkBytes manager,
      up_ExpectedChunks = int32 expectedChunks, up_ReceivedChunks = 0, up_ReceivedBytes = 0,
      up_Status = StatusUploading, up_ObjectKey = ''uploads/'' @ uploadID @ ''/source'',
      up_MultipartUploadID = [], up_CommittedSHA256 = None, up_CreatedAt = now, up_UpdatedAt = now,
      up_CommittedAt = None, up_ExpiresAt = now + um_sessionTTL manager\<rparr>"

definition um_Start ::
    "mime \<Rightarrow> bytes \<Rightarrow> instant \<Rightarrow> 'd UploadManager \<Rightarrow> Owner \<Rightarrow> string \<Rightarrow> string \<Rightarrow> int \<Rightarrow> 'd \<Rightarrow>
      (upload_err + UploadSession) \<times> 'd" where
  "um_Start m random now manager owner filename contentType declaredSize d =
     (case Owner_Validate owner of Some err \<Rightarrow> (Inl err, d) | None \<Rightarrow>
      if declaredSize \<le> 0 \<or> declaredSize > um_maxBytes manager
        then (Inl (ErrText ''declared upload size must be between 1 and %d bytes''), d)
      else case SanitizeFilename filename of Inl err \<Rightarrow> (Inl err, d) | Inr filename \<Rightarrow>
      (case normalizeContentType m contentType of Inl err \<Rightarrow> (Inl err, d) | Inr contentType \<Rightarrow>
      let expectedChunks = expected_chunks declaredSize (um_chunkBytes manager) in
      if expectedChunks > MaxInt32 then (Inl (ErrText ''upload requires too many chunks''), d)
      else case generateUUID random of None \<Rightarrow> (Inl (ErrText ''generate upload ID: %w''), d)
      | Some (uploadID, rest) \<Rightarrow>
          ust_Create (um_store manager)
            (new_upload manager uploadID owner filename contentType declaredSize expectedChunks now) d))"

definition um_RecordPart ::
    "instant \<Rightarrow> 'd UploadManager \<Rightarrow> Owner \<Rightarrow> string \<Rightarrow> int \<Rightarrow> int \<Rightarrow> SHA256 \<Rightarrow> string \<Rightarrow> 'd \<Rightarrow>
      (upload_err + PartReceipt) \<times> 'd" where
  "um_RecordPart now manager owner uploadID index byteSize digest backendPartID =
     ust_RecordPart (um_store manager)
       \<lparr>pw_UploadID = uploadID, pw_Owner = owner, pw_Index = index, pw_ByteSize = byteSize,
        pw_SHA256 = digest, pw_BackendPartID = backendPartID, pw_ObservedAt = now\<rparr>"

definition um_BeginCommit ::
    "instant \<Rightarrow> 'd UploadManager \<Rightarrow> Owner \<Rightarrow> string \<Rightarrow> 'd \<Rightarrow> (upload_err + CommitPlan) \<times> 'd" where
  "um_BeginCommit now manager owner uploadID = ust_BeginCommit (um_store manager) uploadID owner now"

definition um_Complete ::
    "instant \<Rightarrow> 'd UploadManager \<Rightarrow> Owner \<Rightarrow> string \<Rightarrow> SHA256 \<Rightarrow> 'd \<Rightarrow> (upload_err + UploadSession) \<times> 'd" where
  "um_Complete now manager owner uploadID digest = ust_Complete (um_store manager) uploadID owner digest now"

definition um_Abort ::
    "instant \<Rightarrow> 'd UploadManager \<Rightarrow> Owner \<Rightarrow> string \<Rightarrow> 'd \<Rightarrow> (upload_err + UploadSession) \<times> 'd" where
  "um_Abort now manager owner uploadID = ust_Abort (um_store manager) uploadID owner now"

subsection \<open>Runs\<close>

text \<open>
  A call of the store with the outcomes of its database calls. A transaction locks the row of
  its upload, so the calls of concurrent requests on one upload take effect one after the other.
\<close>

datatype upload_call =
    Upload_Create UploadSession
  | Upload_RecordPart PartWrite
  | Upload_BeginCommit string Owner instant
  | Upload_Complete string Owner SHA256 instant
  | Upload_Abort string Owner instant

fun upload_step :: "mime \<Rightarrow> faults \<times> upload_call \<Rightarrow> 'z upload_db_scheme \<Rightarrow> 'z upload_db_scheme" where
  "upload_step m (flt, Upload_Create s) d = snd (pg_upload_Create m flt s d)"
| "upload_step m (flt, Upload_RecordPart w) d = snd (pg_RecordPart m flt w d)"
| "upload_step m (flt, Upload_BeginCommit u owner t) d = snd (pg_BeginCommit m flt u owner t d)"
| "upload_step m (flt, Upload_Complete u owner digest t) d = snd (pg_Complete m flt u owner digest t d)"
| "upload_step m (flt, Upload_Abort u owner t) d = snd (pg_Abort m flt u owner t d)"

definition upload_run :: "mime \<Rightarrow> (faults \<times> upload_call) list \<Rightarrow> 'z upload_db_scheme \<Rightarrow> 'z upload_db_scheme" where
  "upload_run m = fold (upload_step m)"

text \<open>
  What the Go types and a sane clock guarantee of a call: a declared size is an \<open>int64\<close>, and
  uploads are created after the first microsecond of year 1.
\<close>

fun sane_call :: "upload_call \<Rightarrow> bool" where
  "sane_call (Upload_Create s) \<longleftrightarrow> up_DeclaredSize s \<le> MaxInt64 \<and> Microsecond \<le> up_CreatedAt s"
| "sane_call _ \<longleftrightarrow> True"

lemma upload_step_change:
  assumes "uploads_good m d" and "sane_call call"
  shows "upload_step m (flt, call) d = d \<or> upload_change m d (upload_step m (flt, call) d)"
proof (cases call)
  case (Upload_Create s)
  with assms show ?thesis
    using pg_upload_Create_change [of s m flt d] by (cases "pg_upload_Create m flt s d") auto
next
  case (Upload_RecordPart w)
  then show ?thesis
    using pg_RecordPart_change [OF assms(1), of flt w] by (cases "pg_RecordPart m flt w d") auto
next
  case (Upload_BeginCommit u owner t)
  then show ?thesis
    using pg_BeginCommit_change [OF assms(1), of flt u owner t] by (cases "pg_BeginCommit m flt u owner t d") auto
next
  case (Upload_Complete u owner digest t)
  then show ?thesis
    using pg_Complete_change [OF assms(1), of flt u owner digest t] by (cases "pg_Complete m flt u owner digest t d") auto
next
  case (Upload_Abort u owner t)
  then show ?thesis
    using pg_Abort_change [OF assms(1), of flt u owner t] by (cases "pg_Abort m flt u owner t d") auto
qed

text \<open>The tables refine the abstract steps: a run is a sequence of changes.\<close>

lemma upload_run_changes:
  assumes "uploads_good m d" and "\<forall>(flt, call) \<in> set calls. sane_call call"
  shows "(upload_change m)\<^sup>*\<^sup>* d (upload_run m calls d) \<and> uploads_good m (upload_run m calls d)"
  using assms
proof (induction calls arbitrary: d)
  case (Cons c calls)
  obtain flt call where c: "c = (flt, call)" by fastforce
  have step: "upload_step m c d = d \<or> upload_change m d (upload_step m c d)"
    using upload_step_change [OF Cons.prems(1)] Cons.prems(2) c by auto
  then have "uploads_good m (upload_step m c d)"
    using change_keeps_invariant Cons.prems(1) by metis
  then have "(upload_change m)\<^sup>*\<^sup>* (upload_step m c d) (upload_run m (c # calls) d)
      \<and> uploads_good m (upload_run m (c # calls) d)"
    using Cons.IH [of "upload_step m c d"] Cons.prems(2) by (simp add: upload_run_def)
  with step show ?case by (metis converse_rtranclp_into_rtranclp)
qed (simp add: upload_run_def)

lemma changes_evolve:
  assumes "(upload_change m)\<^sup>*\<^sup>* d d'" and "uploads_good m d" and "r \<in> set (upload_session d)"
  shows "\<exists>r' \<in> set (upload_session d'). us_id r' = us_id r \<and>
    evolves r (parts_of (us_id r) (upload_part d)) r' (parts_of (us_id r) (upload_part d'))"
  using assms
proof (induction arbitrary: r rule: converse_rtranclp_induct)
  case base
  then show ?case using evolves_refl by blast
next
  case (step d d1)
  obtain r1 where r1: "r1 \<in> set (upload_session d1)"
      "evolves r (parts_of (us_id r) (upload_part d)) r1 (parts_of (us_id r) (upload_part d1))"
    using change_evolves [OF step.hyps(1) step.prems] by blast
  then have "us_id r1 = us_id r" by (simp add: evolves_def same_metadata_def)
  with step.IH [OF change_keeps_invariant [OF step.hyps(1) step.prems(1)] r1(1)] r1(2)
  show ?case using evolves_trans by (metis (no_types, lifting))
qed

subsection \<open>Looking up rows and parts\<close>

lemma find_conj_filter: "find (\<lambda>x. P x \<and> Q x) t = find Q (filter P t)"
  by (induction t) auto

lemma find_owned:
  assumes good: "uploads_good m d" and r: "r \<in> set (upload_session d)" and "us_owner r = owner_columns owner"
  shows "find (owned_row (us_id r) owner) (upload_session d) = Some r"
proof (cases "find (owned_row (us_id r) owner) (upload_session d)")
  case None
  with assms show ?thesis by (auto simp: find_None_iff_in)
next
  case (Some q)
  then show ?thesis using the_row [OF good r] find_Some_in [OF Some] by auto
qed

lemma scan_stored:
  assumes "uploads_good m d" and "r \<in> set (upload_session d)"
  shows "upload_scanSession m r = Inr (view r)"
  using uploads_good_row(1) [OF assms] by (intro scan_upload_checked) (simp_all add: upload_row_good_def)

lemma lock_row:
  assumes "uploads_good m d" and "r \<in> set (upload_session d)" and "us_owner r = owner_columns owner"
    and "flt ''lock owned session'' = Call_Ok"
  shows "lockOwnedSession m flt (us_id r) owner d = Inr (view r)"
  using find_owned [OF assms(1-3)] scan_stored [OF assms(1,2)] assms(4)
  by (simp add: lockOwnedSession_def)

lemma lock_foreign:
  assumes good: "uploads_good m d" and r: "r \<in> set (upload_session d)" and "us_owner r \<noteq> owner_columns owner"
  shows "lockOwnedSession m flt (us_id r) owner d \<noteq> Inr s"
proof
  assume "lockOwnedSession m flt (us_id r) owner d = Inr s"
  then obtain q where "q \<in> set (upload_session d)" "us_id q = us_id r" "us_owner q = owner_columns owner"
    by (rule lockOwnedSession_ok)
  with the_row [OF good r] assms(3) show False by metis
qed

definition part_value :: "part_row \<Rightarrow> Part" where
  "part_value p = \<lparr>part_UploadID = pt_upload_id p, part_Index = pt_part_index p, part_ByteSize = pt_byte_size p,
     part_SHA256 = stored_digest (pt_sha256 p), part_BackendPartID = pt_backend_part_id p,
     part_CreatedAt = pt_created_at p\<rparr>"

lemma scan_part_checked: "part_row_check p \<Longrightarrow> scan_part p = Inr (part_value p)"
  using sha256_text_digits [of "pt_sha256 p"]
  by (auto simp: part_row_check_def scan_part_def part_value_def stored_digest_def)

lemma progress_parts:
  assumes "progress_good r ps" and "k < length ps"
  shows "part_row_check (ps ! k)" "TrimSpace (pt_backend_part_id (ps ! k)) \<noteq> []"
    "pt_part_index (ps ! k) = int k" "pt_byte_size (ps ! k) = size_at (view r) (int k)"
  using assms by (simp_all add: progress_good_def)

lemma progress_indices:
  assumes "progress_good r ps"
  shows "map pt_part_index ps = map int [0..<length ps]"
  using progress_parts(3) [OF assms] by (intro nth_equalityI) simp_all

lemma parts_ordered:
  assumes "progress_good r (parts_of (us_id r) (upload_part d))"
  shows "part_rows (us_id r) d = parts_of (us_id r) (upload_part d)"
proof -
  have "sorted (map pt_part_index (parts_of (us_id r) (upload_part d)))"
    unfolding progress_indices [OF assms] by (simp add: sorted_iff_nth_mono)
  then show ?thesis by (simp add: part_rows_def parts_of_def sort_key_id_if_sorted)
qed

lemma find_part:
  assumes p: "progress_good r (parts_of (us_id r) (upload_part d))"
  shows "find (\<lambda>q. pt_upload_id q = us_id r \<and> pt_part_index q = i) (upload_part d) =
    (if 0 \<le> i \<and> i < us_received_chunks r then Some (parts_of (us_id r) (upload_part d) ! nat i) else None)"
proof -
  let ?ps = "parts_of (us_id r) (upload_part d)"
  have n: "int (length ?ps) = us_received_chunks r" using p by (simp add: progress_good_def)
  have idx: "\<exists>k < length ?ps. pt_part_index q = int k" if "q \<in> set ?ps" for q
    using that progress_parts(3) [OF p] by (metis in_set_conv_nth)
  have dist: "distinct (map pt_part_index ?ps)"
    unfolding progress_indices [OF p] by (simp add: distinct_map)
  have "find (\<lambda>q. pt_part_index q = i) ?ps = (if 0 \<le> i \<and> i < us_received_chunks r then Some (?ps ! nat i) else None)"
  proof (cases "0 \<le> i \<and> i < us_received_chunks r")
    case True
    then have k: "nat i < length ?ps" "pt_part_index (?ps ! nat i) = i"
      using n progress_parts(3) [OF p, of "nat i"] by auto
    from find_distinct_key [OF dist nth_mem [OF k(1)]] k(2) True show ?thesis by simp
  next
    case False
    have "pt_part_index q \<noteq> i" if "q \<in> set ?ps" for q
      using idx [OF that] n False by auto
    with False show ?thesis by (auto simp: find_None_iff_in)
  qed
  then show ?thesis by (simp add: find_conj_filter parts_of_def)
qed

lemma scan_parts_checked: "\<forall>p \<in> set ps. part_row_check p \<Longrightarrow> scan_parts ps = Inr (map part_value ps)"
  by (induction ps) (simp_all add: scan_part_checked)

lemma read_all_stored:
  assumes "progress_good r (parts_of (us_id r) (upload_part d))" and "readAllParts flt (us_id r) d = Inr parts"
  shows "parts = map part_value (parts_of (us_id r) (upload_part d))"
proof -
  have "\<forall>p \<in> set (parts_of (us_id r) (upload_part d)). part_row_check p"
    using progress_parts(1) [OF assms(1)] by (metis in_set_conv_nth)
  from scan_parts_checked [OF this] assms show ?thesis
    by (auto simp: readAllParts_def parts_ordered split: if_splits)
qed

lemma stored_parts_sum:
  assumes good: "upload_row_good m r" and p: "progress_good r ps"
  shows "sum_list (map pt_byte_size ps) = us_received_bytes r"
proof -
  have n: "int (length ps) = us_received_chunks r" "us_received_bytes r = bytes_upto (view r) (int (length ps))"
    using p by (simp_all add: progress_good_def)
  have g: "geometry (view r)" by (rule stored_geometry [OF good])
  have le: "int (length ps) \<le> us_expected_chunks r"
    using good n by (simp add: upload_row_good_def upload_row_check_def)
  have "sum_list (map pt_byte_size (take k ps)) = bytes_upto (view r) (int k)"
    if "k \<le> length ps" for k
    using that
  proof (induction k)
    case (Suc k)
    then have "take (Suc k) ps = take k ps @ [ps ! k]" by (simp add: take_Suc_conv_app_nth)
    with Suc le bytes_upto_Suc [OF g, of "int k"] progress_parts(4) [OF p, of k] show ?case
      by (simp add: add.commute)
  qed (use g in simp)
  from this [of "length ps"] n show ?thesis by simp
qed

subsection \<open>A database that answers\<close>

abbreviation all_ok :: faults where
  "all_ok \<equiv> (\<lambda>_. Call_Ok)"

lemma only_blanks_trimmed: "only_blanks s \<Longrightarrow> TrimSpace s = []"
proof (rule ccontr)
  assume b: "only_blanks s" and "TrimSpace s \<noteq> []"
  then obtain c cs where t: "TrimSpace s = c # cs" by (cases "TrimSpace s") auto
  have "c = CHR '' ''" using b set_TrimSpace [of s] by (auto simp: t only_blanks_def list_all_iff)
  moreover have "take (length p) (c # cs) \<noteq> p" if "p \<in> set white_space" "p \<noteq> []" for p
    using TrimSpace_left_done [of s] that by (simp add: t cut_first_None_iff)
  from this [of "[CHR '' '']"] have "c \<noteq> CHR '' ''" by (simp add: white_space_def)
  ultimately show False by simp
qed

lemma update_upload_live:
  assumes good: "uploads_good m d" and r: "r \<in> set (upload_session d)" and "upload_row_check (f r)"
  shows "update_upload all_ok op (us_id r) f (upload_session d) =
    Some (sql_update (\<lambda>q. us_id q = us_id r) f (upload_session d))"
proof -
  have "upload_row_check (f q)" if "q \<in> set (upload_session d)" "us_id q = us_id r" for q
    using the_row [OF good r that] assms(3) by simp
  then show ?thesis by (simp add: update_upload_def sql_checked_update_def list_all_iff)
qed

lemma progress_row_check:
  assumes good: "upload_row_good m r" and p: "progress_good r ps" and "us_status r = StatusUploading"
    and "us_received_chunks r < us_expected_chunks r" and "us_updated_at r \<le> at"
  shows "upload_row_check (set_progress (size_at (view r) (us_received_chunks r)) at r)"
proof -
  have g: "geometry (view r)" by (rule stored_geometry [OF good])
  have n: "0 \<le> us_received_chunks r" "us_received_bytes r = bytes_upto (view r) (us_received_chunks r)"
    using p by (auto simp: progress_good_def)
  have "us_received_bytes r + size_at (view r) (us_received_chunks r) \<le> us_declared_size r"
    using bytes_upto_Suc [OF g n(1)] bytes_upto_bounds [OF g, of "us_received_chunks r + 1"] n assms(4) by simp
  moreover have "0 < size_at (view r) (us_received_chunks r)" using size_at_bounds [OF g] by simp
  ultimately show ?thesis
    using good assms(3-5) unfolding upload_row_good_def upload_row_check_def set_progress_def
    by simp
qed

lemma pg_RecordPart_live:
  assumes good: "uploads_good m d" and r: "r \<in> set (upload_session d)" and own: "us_owner r = owner_columns (pw_Owner w)"
    and v: "validatePartWrite w = None" and uid: "pw_UploadID w = us_id r" and st: "us_status r = StatusUploading"
    and idx: "pw_Index w = us_received_chunks r" "us_received_chunks r < us_expected_chunks r"
    and size: "pw_ByteSize w = size_at (view r) (us_received_chunks r)"
    and dig: "length (pw_SHA256 w) = 32" and bid: "pg_text (pw_BackendPartID w)"
    and t: "us_created_at r \<le> pw_ObservedAt w" "pw_ObservedAt w < us_expires_at r"
  defines "at \<equiv> pg_time (maxTime (pw_ObservedAt w) (us_updated_at r))"
  shows "\<exists>receipt. pg_RecordPart m all_ok w d = (Inr receipt,
      d\<lparr>upload_session := sql_update (\<lambda>q. us_id q = us_id r) (set_progress (pw_ByteSize w) at) (upload_session d),
        upload_part := upload_part d @ [insert_part_row w]\<rparr>) \<and>
    \<not> rcpt_AlreadyPresent receipt \<and> rcpt_ReceivedChunks receipt = us_received_chunks r + 1 \<and>
    rcpt_ReceivedBytes receipt = us_received_bytes r + pw_ByteSize w"
proof -
  note G = uploads_good_row [OF good r] and W = write_part_valid [OF v]
  have g: "geometry (view r)" by (rule stored_geometry [OF G(1)])
  have al: "us_updated_at r \<le> at"
    using max_time_good [of "us_updated_at r" "pw_ObservedAt w"] G(1) by (simp add: at_def upload_row_good_def)
  have lock: "lockOwnedSession m all_ok (pw_UploadID w) (pw_Owner w) d = Inr (view r)"
    using lock_row [OF good r own] uid by simp
  have rp: "readPart (pw_UploadID w) (pw_Index w) d = Inr None"
    using find_part [OF G(2), of "pw_Index w"] idx uid by (simp add: readPart_def)
  have fresh: "\<not> list_ex (\<lambda>q. pt_upload_id q = us_id r \<and> pt_part_index q = us_received_chunks r) (upload_part d)"
    using find_part [OF G(2), of "us_received_chunks r"] by (auto simp: list_ex_iff find_None_iff_in)
  have chk: "part_row_check (insert_part_row w)"
    using W dig v only_blanks_trimmed [of "pw_BackendPartID w"]
    by (auto simp: part_row_check_def insert_part_row_def validatePartWrite_def maxBackendIDBytes_def
        split: if_splits option.splits)
  have ins: "insert_part all_ok (insert_part_row w) (upload_part d) = Some (upload_part d @ [insert_part_row w])"
    using fresh chk bid uid idx by (simp add: insert_part_def) (simp add: insert_part_row_def)
  have sz: "(expectedPartSize (view r) (pw_Index w) :: upload_err + int) = Inr (pw_ByteSize w)"
    using expectedPartSize_at [OF g, of "pw_Index w", where 'a = upload_sentinel] idx W size by simp
  have upd: "update_upload all_ok ''update progress'' (pw_UploadID w) (set_progress (pw_ByteSize w) at) (upload_session d)
      = Some (sql_update (\<lambda>q. us_id q = us_id r) (set_progress (pw_ByteSize w) at) (upload_session d))"
    using update_upload_live [OF good r, of "set_progress (pw_ByteSize w) at"] progress_row_check [OF G st idx(2) al] size uid
    by simp
  have b: "us_received_chunks r + 1 \<le> MaxInt32" "0 \<le> us_received_chunks r"
    using idx W geometry_bounds [OF g] by auto
  have "us_received_bytes r + pw_ByteSize w \<le> us_declared_size r" "0 \<le> us_received_bytes r"
    using progress_row_check [OF G st idx(2) al] G(1)
    by (simp_all add: size upload_row_check_def set_progress_def upload_row_good_def)
  then have i64: "int64 (us_received_bytes r + pw_ByteSize w) = us_received_bytes r + pw_ByteSize w"
      "int32 (us_received_chunks r + 1) = us_received_chunks r + 1"
    using geometry_bounds [OF g] W b by simp_all
  show ?thesis
    using v st t idx(2)
    by (simp add: pg_RecordPart_def uid idx(1) lock [unfolded uid] rp [unfolded uid idx(1)] sz [unfolded idx(1)]
        ins upd [unfolded uid at_def] i64 at_def)
qed

lemma pg_BeginCommit_live:
  assumes good: "uploads_good m d" and r: "r \<in> set (upload_session d)" and own: "us_owner r = owner_columns owner"
    and v: "validateOwnedOperation (us_id r) owner t = None"
    and st: "us_status r = StatusUploading" and full: "us_received_chunks r = us_expected_chunks r"
    and t: "us_created_at r \<le> t" "t < us_expires_at r"
  defines "at \<equiv> pg_time (maxTime t (us_updated_at r))"
  shows "\<exists>plan. pg_BeginCommit m all_ok (us_id r) owner t d = (Inr plan,
      d\<lparr>upload_session := sql_update (\<lambda>q. us_id q = us_id r) (set_committing at) (upload_session d)\<rparr>) \<and>
    plan_Parts plan = map part_value (parts_of (us_id r) (upload_part d))"
proof -
  note G = uploads_good_row [OF good r]
  have g: "geometry (view r)" by (rule stored_geometry [OF G(1)])
  let ?ps = "parts_of (us_id r) (upload_part d)"
  have lock: "lockOwnedSession m all_ok (us_id r) owner d = Inr (view r)"
    using lock_row [OF good r own] by simp
  have "\<forall>p \<in> set ?ps. part_row_check p"
    using progress_parts(1) [OF G(2)] by (metis in_set_conv_nth)
  then have rd: "readAllParts all_ok (us_id r) d = Inr (map part_value ?ps)"
    by (simp add: readAllParts_def parts_ordered [OF G(2)] scan_parts_checked)
  have n: "int (length ?ps) = us_received_chunks r" "us_received_bytes r = bytes_upto (view r) (us_received_chunks r)"
    using G(2) by (simp_all add: progress_good_def)
  have id: "pt_upload_id (?ps ! k) = us_id r" if "k < length ?ps" for k
    using nth_mem [OF that] by (simp add: parts_of_def)
  have "validateCompleteParts (view r) (map part_value ?ps) = None"
    unfolding validateCompleteParts_iff [OF g]
    using progress_parts [OF G(2)] n full id
    by (simp add: part_fits_def part_value_def bytes_upto_def)
  moreover have "upload_row_check (set_committing at r)"
    using G(1) st max_time_good [of "us_updated_at r" t]
    unfolding upload_row_good_def upload_row_check_def set_committing_def at_def
    by (simp add: known_status_def)
  from update_upload_live [OF good r, of "set_committing at", OF this]
  have "update_upload all_ok ''freeze parts'' (us_id r) (set_committing at) (upload_session d) =
      Some (sql_update (\<lambda>q. us_id q = us_id r) (set_committing at) (upload_session d))" .
  ultimately show ?thesis
    using v st t by (simp add: pg_BeginCommit_def lock rd at_def Let_def)
qed

lemma pg_Complete_live:
  assumes good: "uploads_good m d" and r: "r \<in> set (upload_session d)" and own: "us_owner r = owner_columns owner"
    and v: "validateOwnedOperation (us_id r) owner t = None" and st: "us_status r = StatusCommitting"
    and dig: "length digest = 32" and t: "us_created_at r \<le> t" "t < us_expires_at r"
  defines "at \<equiv> pg_time (maxTime t (us_updated_at r))"
  shows "\<exists>s. pg_Complete m all_ok (us_id r) owner digest t d = (Inr s,
      d\<lparr>upload_session := sql_update (\<lambda>q. us_id q = us_id r) (set_committed digest at) (upload_session d)\<rparr>) \<and>
    up_Status s = StatusCommitted \<and> up_CommittedSHA256 s = Some digest"
proof -
  note G = uploads_good_row [OF good r]
  have lock: "lockOwnedSession m all_ok (us_id r) owner d = Inr (view r)"
    using lock_row [OF good r own] by simp
  have "upload_row_check (set_committed digest at r)"
    using G(1) st dig max_time_good [of "us_updated_at r" t]
    unfolding upload_row_good_def upload_row_check_def set_committed_def at_def
    by (simp add: known_status_def)
  from update_upload_live [OF good r, of "set_committed digest at", OF this]
  have "update_upload all_ok ''complete'' (us_id r) (set_committed digest at) (upload_session d) =
      Some (sql_update (\<lambda>q. us_id q = us_id r) (set_committed digest at) (upload_session d))" .
  then show ?thesis
    using v st t by (simp add: pg_Complete_def lock at_def Let_def)
qed

subsection \<open>The contract\<close>

text \<open>Are the metadata of a new upload what the store gives back, with rounded times?\<close>

definition stored_as :: "UploadSession \<Rightarrow> UploadSession \<Rightarrow> bool" where
  "stored_as s s' \<longleftrightarrow> s' = s\<lparr>up_CreatedAt := pg_time (up_CreatedAt s), up_UpdatedAt := pg_time (up_UpdatedAt s),
     up_ExpiresAt := pg_time (up_ExpiresAt s)\<rparr>"

locale upload_store =
  fixes store :: "'d UploadStore" and m :: mime
    and sessions :: "'d \<Rightarrow> string \<Rightarrow> UploadSession option" and good :: "'d \<Rightarrow> bool"
  assumes create_ok: "good d \<Longrightarrow> sane_call (Upload_Create s) \<Longrightarrow> ust_Create store s d = (Inr s', d') \<Longrightarrow>
      good d' \<and> validateUploadForCreate m s = None \<and> stored_as s s' \<and> sessions d (up_ID s) = None \<and>
      sessions d' = (sessions d)(up_ID s \<mapsto> s')"
    and get_ok: "good d \<Longrightarrow> ust_Get store u owner d = (Inr s, d') \<Longrightarrow>
      d' = d \<and> sessions d u = Some s \<and> up_Owner s = owner"
    and record_effect: "good d \<Longrightarrow> good (snd (ust_RecordPart store w d)) \<and> (snd (ust_RecordPart store w d) = d \<or>
      (\<exists>s at. sessions d (pw_UploadID w) = Some s \<and> up_Owner s = pw_Owner w \<and> up_Status s = StatusUploading \<and>
        pw_Index w = up_ReceivedChunks s \<and> pw_ByteSize w = size_at s (pw_Index w) \<and>
        sessions (snd (ust_RecordPart store w d)) = (sessions d)(pw_UploadID w \<mapsto> s
          \<lparr>up_ReceivedChunks := up_ReceivedChunks s + 1, up_ReceivedBytes := up_ReceivedBytes s + pw_ByteSize w,
           up_UpdatedAt := at\<rparr>)))"
    and begin_good: "good d \<Longrightarrow> good (snd (ust_BeginCommit store u owner t d))"
    and complete_good: "good d \<Longrightarrow> good (snd (ust_Complete store u owner digest t d))"
    and abort_good: "good d \<Longrightarrow> good (snd (ust_Abort store u owner t d))"
begin

text \<open>The manager creates uploads whose chunks cover the declared size exactly.\<close>

lemma start_geometry:
  assumes "good d" and "um_store manager = store" and "um_maxBytes manager \<le> MaxInt64"
    and "0 < um_chunkBytes manager" "um_chunkBytes manager \<le> MaxInt32" and "Microsecond \<le> now"
    and "um_Start m random now manager owner filename contentType declaredSize d = (Inr s, d')"
  shows "good d' \<and> sessions d' (up_ID s) = Some s \<and> geometry s \<and> up_Owner s = owner \<and>
    up_DeclaredSize s = declaredSize \<and> up_Status s = StatusUploading \<and> up_ReceivedChunks s = 0 \<and>
    up_CreatedAt s = pg_time now \<and> up_ExpiresAt s = pg_time (now + um_sessionTTL manager)"
proof -
  from assms(7,2) obtain name ct u rest
    where c: "ust_Create store (new_upload manager u owner name ct declaredSize
        (expected_chunks declaredSize (um_chunkBytes manager)) now) d = (Inr s, d')"
      and sz: "0 < declaredSize" "declaredSize \<le> um_maxBytes manager"
        "expected_chunks declaredSize (um_chunkBytes manager) \<le> MaxInt32"
    by (auto simp: um_Start_def Let_def split: option.splits sum.splits if_splits prod.splits)
  let ?s = "new_upload manager u owner name ct declaredSize (expected_chunks declaredSize (um_chunkBytes manager)) now"
  have sane: "sane_call (Upload_Create ?s)" using sz assms(3,6) by (simp add: new_upload_def)
  note C = create_ok [OF assms(1) sane c]
  have e: "expected_chunks declaredSize (um_chunkBytes manager) = (declaredSize - 1) div um_chunkBytes manager + 1"
    using sz assms(3,4) by (intro expected_chunks_div) auto
  have "0 \<le> (declaredSize - 1) div um_chunkBytes manager"
    using sz assms(4) by (simp add: pos_imp_zdiv_nonneg_iff)
  then have "geometry s"
    using C sz assms(3-5) e by (simp add: stored_as_def geometry_def new_upload_def)
  with C show ?thesis by (simp add: stored_as_def new_upload_def)
qed

end

locale responsive_upload_store = upload_store +
  assumes record_live: "good d \<Longrightarrow> sessions d (pw_UploadID w) = Some s \<Longrightarrow> up_Owner s = pw_Owner w \<Longrightarrow>
      validatePartWrite w = None \<Longrightarrow> up_Status s = StatusUploading \<Longrightarrow> pw_Index w = up_ReceivedChunks s \<Longrightarrow>
      up_ReceivedChunks s < up_ExpectedChunks s \<Longrightarrow> pw_ByteSize w = size_at s (up_ReceivedChunks s) \<Longrightarrow>
      length (pw_SHA256 w) = 32 \<Longrightarrow> pg_text (pw_BackendPartID w) \<Longrightarrow> up_CreatedAt s \<le> pw_ObservedAt w \<Longrightarrow>
      pw_ObservedAt w < up_ExpiresAt s \<Longrightarrow>
      \<exists>receipt at. fst (ust_RecordPart store w d) = Inr receipt \<and>
        sessions (snd (ust_RecordPart store w d)) = (sessions d)(pw_UploadID w \<mapsto> s
          \<lparr>up_ReceivedChunks := up_ReceivedChunks s + 1, up_ReceivedBytes := up_ReceivedBytes s + pw_ByteSize w,
           up_UpdatedAt := at\<rparr>)"
    and begin_live: "good d \<Longrightarrow> sessions d u = Some s \<Longrightarrow> up_Owner s = owner \<Longrightarrow>
      validateOwnedOperation u owner t = None \<Longrightarrow> up_Status s = StatusUploading \<Longrightarrow>
      up_ReceivedChunks s = up_ExpectedChunks s \<Longrightarrow> up_CreatedAt s \<le> t \<Longrightarrow> t < up_ExpiresAt s \<Longrightarrow>
      \<exists>plan at. fst (ust_BeginCommit store u owner t d) = Inr plan \<and>
        sessions (snd (ust_BeginCommit store u owner t d)) u = Some (s\<lparr>up_Status := StatusCommitting, up_UpdatedAt := at\<rparr>)"
    and complete_live: "good d \<Longrightarrow> sessions d u = Some s \<Longrightarrow> up_Owner s = owner \<Longrightarrow>
      validateOwnedOperation u owner t = None \<Longrightarrow> up_Status s = StatusCommitting \<Longrightarrow> length digest = 32 \<Longrightarrow>
      up_CreatedAt s \<le> t \<Longrightarrow> t < up_ExpiresAt s \<Longrightarrow>
      \<exists>s'. fst (ust_Complete store u owner digest t d) = Inr s' \<and> up_Status s' = StatusCommitted \<and>
        up_CommittedSHA256 s' = Some digest"

text \<open>A client that sends the chunks of an upload one after the other and stops at an error.\<close>

record chunk =
  ch_SHA256 :: SHA256
  ch_BackendPartID :: string
  ch_SentAt :: instant

primrec send_parts ::
    "'d UploadManager \<Rightarrow> Owner \<Rightarrow> UploadSession \<Rightarrow> int \<Rightarrow> chunk list \<Rightarrow> 'd \<Rightarrow> upload_sentinel check \<times> 'd" where
  "send_parts manager owner s i [] d = (None, d)"
| "send_parts manager owner s i (c # cs) d =
     (case um_RecordPart (ch_SentAt c) manager owner (up_ID s) i (size_at s i) (ch_SHA256 c) (ch_BackendPartID c) d of
        (Inl err, d') \<Rightarrow> (Some err, d')
      | (Inr receipt, d') \<Rightarrow> send_parts manager owner s (i + 1) cs d')"

definition chunk_ok :: "UploadSession \<Rightarrow> chunk \<Rightarrow> bool" where
  "chunk_ok s c \<longleftrightarrow> length (ch_SHA256 c) = 32 \<and> pg_text (ch_BackendPartID c) \<and>
     TrimSpace (ch_BackendPartID c) \<noteq> [] \<and> length (ch_BackendPartID c) \<le> maxBackendIDBytes \<and>
     \<not> IsZero (ch_SentAt c) \<and> up_CreatedAt s \<le> ch_SentAt c \<and> ch_SentAt c < up_ExpiresAt s"

context responsive_upload_store
begin

lemma send_parts_live:
  assumes "good d" and "um_store manager = store" and "geometry s0" and "validUUID (up_ID s0)" and "valid_owner owner"
    and "sessions d (up_ID s0) = Some s" and "up_Owner s = owner" and "up_Status s = StatusUploading"
    and "up_ReceivedChunks s = i" "0 \<le> i" "i + int (length cs) \<le> up_ExpectedChunks s0"
    and "\<forall>c \<in> set cs. chunk_ok s0 c"
    and same: "up_DeclaredSize s = up_DeclaredSize s0" "up_ChunkSize s = up_ChunkSize s0"
      "up_ExpectedChunks s = up_ExpectedChunks s0" "up_CreatedAt s = up_CreatedAt s0" "up_ExpiresAt s = up_ExpiresAt s0"
  shows "\<exists>d' s'. send_parts manager owner s0 i cs d = (None, d') \<and> good d' \<and> sessions d' (up_ID s0) = Some s' \<and>
    up_Owner s' = owner \<and> up_Status s' = StatusUploading \<and> up_ReceivedChunks s' = i + int (length cs) \<and>
    up_ExpectedChunks s' = up_ExpectedChunks s0 \<and> up_CreatedAt s' = up_CreatedAt s0 \<and> up_ExpiresAt s' = up_ExpiresAt s0"
  using assms
proof (induction cs arbitrary: d s i)
  case (Cons c cs)
  let ?w = "\<lparr>pw_UploadID = up_ID s0, pw_Owner = owner, pw_Index = i, pw_ByteSize = size_at s0 i,
        pw_SHA256 = ch_SHA256 c, pw_BackendPartID = ch_BackendPartID c, pw_ObservedAt = ch_SentAt c\<rparr>"
  have c: "chunk_ok s0 c" using Cons.prems(12) by simp
  have sz: "size_at s i = size_at s0 i" using Cons.prems(13-15) by (intro size_at_same) simp_all
  have own: "Owner_Validate owner = (None :: upload_sentinel check)"
    using Cons.prems(5) by (simp add: Owner_Validate_None [where 's = upload_sentinel])
  have v: "validatePartWrite ?w = None"
    using c own Cons.prems(4,10) size_at_bounds [OF Cons.prems(3), of i] geometry_bounds [OF Cons.prems(3)]
    by (simp add: validatePartWrite_def chunk_ok_def)
  obtain receipt at where R: "fst (ust_RecordPart store ?w d) = Inr receipt"
      "sessions (snd (ust_RecordPart store ?w d)) = (sessions d)(up_ID s0 \<mapsto> s
          \<lparr>up_ReceivedChunks := up_ReceivedChunks s + 1, up_ReceivedBytes := up_ReceivedBytes s + size_at s0 i,
           up_UpdatedAt := at\<rparr>)"
    using record_live [OF Cons.prems(1), of ?w s] Cons.prems c v sz by (auto simp: chunk_ok_def)
  obtain d1 where d1: "ust_RecordPart store ?w d = (Inr receipt, d1)" using R(1) by (metis prod.collapse)
  have "good d1" using record_effect [OF Cons.prems(1), of ?w] d1 by simp
  from Cons.IH [OF this Cons.prems(2-5), of _ "i + 1"] R(2) Cons.prems
  show ?case by (simp add: um_RecordPart_def d1 algebra_simps)
qed simp

lemma upload_completes:
  assumes "good d" and st: "um_store manager = store" and "um_maxBytes manager \<le> MaxInt64"
    and "0 < um_chunkBytes manager" "um_chunkBytes manager \<le> MaxInt32" and "Microsecond \<le> now"
    and start: "um_Start m random now manager owner filename contentType declaredSize d = (Inr s, d1)"
    and cs: "int (length cs) = up_ExpectedChunks s" "\<forall>c \<in> set cs. chunk_ok s c"
    and t: "up_CreatedAt s \<le> t" "t \<le> t'" "t' < up_ExpiresAt s" and "length digest = 32"
    and idv: "validUUID (up_ID s)" "valid_owner owner"
  shows "\<exists>d2 plan d3 s' d4. send_parts manager owner s 0 cs d1 = (None, d2) \<and>
    um_BeginCommit t manager owner (up_ID s) d2 = (Inr plan, d3) \<and>
    um_Complete t' manager owner (up_ID s) digest d3 = (Inr s', d4) \<and>
    up_Status s' = StatusCommitted \<and> up_CommittedSHA256 s' = Some digest"
proof -
  note S = start_geometry [OF assms(1-7)]
  have pos: "0 < up_CreatedAt s" using S pg_time_pos [OF assms(6)] by simp
  obtain d2 s2 where s2: "send_parts manager owner s 0 cs d1 = (None, d2)" "good d2"
      "sessions d2 (up_ID s) = Some s2" "up_Owner s2 = owner" "up_Status s2 = StatusUploading"
      "up_ReceivedChunks s2 = up_ExpectedChunks s2" "up_CreatedAt s2 = up_CreatedAt s" "up_ExpiresAt s2 = up_ExpiresAt s"
    using send_parts_live [of d1 manager s owner s 0 cs] S st idv cs by auto
  have owned: "Owner_Validate owner = (None :: upload_sentinel check)"
    using idv by (simp add: Owner_Validate_None [where 's = upload_sentinel])
  have v: "validateOwnedOperation (up_ID s) owner u = None" if "0 < u" for u
    using idv that owned by (simp add: validateOwnedOperation_def IsZero_def)
  obtain plan at where B: "fst (ust_BeginCommit store (up_ID s) owner t d2) = Inr plan"
      "sessions (snd (ust_BeginCommit store (up_ID s) owner t d2)) (up_ID s) =
        Some (s2\<lparr>up_Status := StatusCommitting, up_UpdatedAt := at\<rparr>)"
    using begin_live [OF s2(2,3,4) v [of t]] s2 t pos by auto
  obtain d3 where d3: "ust_BeginCommit store (up_ID s) owner t d2 = (Inr plan, d3)"
    using B(1) by (metis prod.collapse)
  have "good d3" using begin_good [OF s2(2), of "up_ID s" owner t] d3 by simp
  then obtain s' where C: "fst (ust_Complete store (up_ID s) owner digest t' d3) = Inr s'"
      "up_Status s' = StatusCommitted" "up_CommittedSHA256 s' = Some digest"
    using complete_live [of d3 "up_ID s" "s2\<lparr>up_Status := StatusCommitting, up_UpdatedAt := at\<rparr>" owner t' digest]
      v [of t'] B(2) d3 s2 t pos assms(13) by auto
  obtain d4 where "ust_Complete store (up_ID s) owner digest t' d3 = (Inr s', d4)"
    using C(1) by (metis prod.collapse)
  with s2(1) d3 C st show ?thesis by (auto simp: um_BeginCommit_def um_Complete_def)
qed

end

subsection \<open>The PostgreSQL store meets the contract\<close>

definition uploads :: "'z upload_db_scheme \<Rightarrow> string \<Rightarrow> UploadSession option" where
  "uploads d u = map_option view (find (\<lambda>r. us_id r = u) (upload_session d))"

lemma uploads_row:
  assumes "uploads_good m d" and "uploads d u = Some s"
  obtains r where "r \<in> set (upload_session d)" "us_id r = u" "s = view r"
  using assms(2) by (auto simp: uploads_def dest: find_Some_in)

lemma uploads_of_row:
  assumes "uploads_good m d" and "r \<in> set (upload_session d)"
  shows "uploads d (us_id r) = Some (view r)"
  using find_distinct_key [of us_id "upload_session d" r] assms by (simp add: uploads_def uploads_good_def)

lemma stored_owner:
  assumes "upload_row_good m r"
  shows "us_owner r = owner_columns (up_Owner (view r))"
proof -
  have "valid_owner (scan_owner (us_owner r))" "owner_cols_check (us_owner r)"
    using assms by (simp_all add: upload_row_good_def validateStoredSession_None upload_row_check_def)
  then show ?thesis
    by (cases "us_owner r")
      (auto simp: scan_owner_def owner_cols_check_def owner_columns_def ownerDatabaseValues_def)
qed

lemma uploads_update:
  assumes good: "uploads_good m d" and r: "r \<in> set (upload_session d)" and f: "\<And>q. us_id (f q) = us_id q"
    and d': "upload_session d' = sql_update (\<lambda>q. us_id q = us_id r) f (upload_session d)"
  shows "uploads d' = (uploads d)(us_id r \<mapsto> view (f r))"
proof
  fix u
  have look: "find (\<lambda>q. us_id q = u) (upload_session d') =
      map_option (\<lambda>q. if us_id q = us_id r then f q else q) (find (\<lambda>q. us_id q = u) (upload_session d))"
    unfolding d' by (rule find_sql_update) (rule f)
  have found: "find (\<lambda>q. us_id q = us_id r) (upload_session d) = Some r"
    using find_distinct_key [of us_id "upload_session d" r] good r by (simp add: uploads_good_def)
  show "uploads d' u = ((uploads d)(us_id r \<mapsto> view (f r))) u"
  proof (cases "find (\<lambda>q. us_id q = u) (upload_session d)")
    case None
    with found have "u \<noteq> us_id r" by auto
    with None look show ?thesis by (simp add: uploads_def)
  next
    case (Some q)
    then have q: "us_id q = u" using find_Some_in by fastforce
    show ?thesis
    proof (cases "u = us_id r")
      case True
      then have "q = r" using Some found by simp
      then show ?thesis using look Some True by (simp add: uploads_def)
    next
      case False
      then show ?thesis using look Some q by (simp add: uploads_def)
    qed
  qed
qed

lemma view_set_progress: "view (set_progress n at r) = (view r)
    \<lparr>up_ReceivedChunks := us_received_chunks r + 1, up_ReceivedBytes := us_received_bytes r + n, up_UpdatedAt := at\<rparr>"
  by (simp add: view_def upload_of_row_def set_progress_def)

lemma view_set_committing: "view (set_committing at r) = (view r)\<lparr>up_Status := StatusCommitting, up_UpdatedAt := at\<rparr>"
  by (simp add: view_def upload_of_row_def set_committing_def)

lemma setter_ids [simp]: "us_id (set_progress n at r) = us_id r" "us_id (set_committing at r) = us_id r"
    "us_id (set_committed digest at r) = us_id r" "us_id (set_aborted at r) = us_id r"
  by (simp_all add: set_progress_def set_committing_def set_committed_def set_aborted_def)

lemma create_valid:
  assumes "validateUploadForCreate m s = None"
  shows "valid_owner (up_Owner s)" "0 < up_ChunkSize s" "up_ChunkSize s \<le> MaxInt32"
    "up_ReceivedChunks s = 0" "up_ReceivedBytes s = 0" "up_Status s = StatusUploading"
    "up_CommittedSHA256 s = None" "up_CommittedAt s = None" "validUUID (up_ID s)"
proof -
  have O: "Owner_Validate (up_Owner s) = (None :: upload_sentinel check)"
    using assms by (simp add: validateUploadForCreate_def split: if_splits option.splits)
  then show "valid_owner (up_Owner s)" by (simp add: Owner_Validate_None [where 's = upload_sentinel])
  show "0 < up_ChunkSize s" "up_ChunkSize s \<le> MaxInt32" "up_ReceivedChunks s = 0" "up_ReceivedBytes s = 0"
    "up_Status s = StatusUploading" "up_CommittedSHA256 s = None" "up_CommittedAt s = None" "validUUID (up_ID s)"
    using assms unfolding validateUploadForCreate_def Let_def
    by (simp_all add: O guard_None split del: if_split)
qed

lemma view_inserted:
  assumes "validateUploadForCreate m s = None"
  shows "stored_as s (view (insert_upload_row s))"
  using create_valid [OF assms]
  by (cases s) (simp add: stored_as_def view_def upload_of_row_def insert_upload_row_def)

lemma pg_steps_good:
  assumes "uploads_good m d"
  shows "uploads_good m (snd (pg_RecordPart m flt w d))" "uploads_good m (snd (pg_BeginCommit m flt u owner t d))"
    "uploads_good m (snd (pg_Complete m flt u owner digest t d))" "uploads_good m (snd (pg_Abort m flt u owner t d))"
  using upload_step_change [OF assms, of "Upload_RecordPart w" flt]
    upload_step_change [OF assms, of "Upload_BeginCommit u owner t" flt]
    upload_step_change [OF assms, of "Upload_Complete u owner digest t" flt]
    upload_step_change [OF assms, of "Upload_Abort u owner t" flt] assms change_keeps_invariant
  by auto

interpretation pg_uploads: upload_store "PostgresUploadStore m flt" m uploads "uploads_good m"
proof
  fix d :: "'z upload_db_scheme" and s s' d'
  assume good: "uploads_good m d" and sane: "sane_call (Upload_Create s)"
    and "ust_Create (PostgresUploadStore m flt) s d = (Inr s', d')"
  then have c: "pg_upload_Create m flt s d = (Inr s', d')" by (simp add: PostgresUploadStore_def)
  note C = pg_upload_Create_change [of s m flt d "Inr s'" d'] and row = insert_upload_row_def [of s]
  have C: "upload_change m d d'" "d' = d\<lparr>upload_session := upload_session d @ [insert_upload_row s]\<rparr>"
      "validateUploadForCreate m s = None" "s' = view (insert_upload_row s)"
    using C sane c by auto
  have fresh: "find (\<lambda>r. us_id r = up_ID s) (upload_session d) = None"
    using c by (auto simp: pg_upload_Create_def Let_def find_None_iff_in list_ex_iff insert_upload_row_def
        split: option.splits if_splits)
  have "uploads d' = (uploads d)(up_ID s \<mapsto> s')"
    using fresh by (auto simp: uploads_def C(2,4) find_key_append row fun_eq_iff split: option.split)
  with C fresh view_inserted [OF C(3)] change_keeps_invariant [OF C(1) good]
  show "uploads_good m d' \<and> validateUploadForCreate m s = None \<and> stored_as s s' \<and> uploads d (up_ID s) = None \<and>
      uploads d' = (uploads d)(up_ID s \<mapsto> s')"
    by (simp add: uploads_def)
next
  fix d d' :: "'z upload_db_scheme" and u owner s
  assume good: "uploads_good m d" and "ust_Get (PostgresUploadStore m flt) u owner d = (Inr s, d')"
  then have g: "pg_upload_Get m flt u owner d = (Inr s, d')" by (simp add: PostgresUploadStore_def)
  then obtain r where r: "find (owned_row u owner) (upload_session d) = Some r" "upload_scanSession m r = Inr s"
      "d' = d" "Owner_Validate owner = (None :: upload_sentinel check)"
    by (auto simp: pg_upload_Get_def Let_def finish_Inr_iff split: if_splits option.splits sum.splits)
  note F = find_Some_in [OF r(1)]
  have "valid_owner owner" using r(4) by (simp add: Owner_Validate_None [where 's = upload_sentinel])
  then have "scan_owner (us_owner r) = owner" using F by simp
  with F r uploads_of_row [OF good, of r] scan_stored [OF good, of r]
  show "d' = d \<and> uploads d u = Some s \<and> up_Owner s = owner" by auto
next
  fix d :: "'z upload_db_scheme" and w
  assume good: "uploads_good m d"
  obtain res d' where c: "pg_RecordPart m flt w d = (res, d')" by fastforce
  have S: "snd (ust_RecordPart (PostgresUploadStore m flt) w d) = d'" by (simp add: PostgresUploadStore_def c)
  have "uploads_good m d'" using pg_steps_good(1) [OF good, of flt w] by (simp add: c)
  moreover have "\<exists>s at. uploads d (pw_UploadID w) = Some s \<and> up_Owner s = pw_Owner w \<and> up_Status s = StatusUploading \<and>
        pw_Index w = up_ReceivedChunks s \<and> pw_ByteSize w = size_at s (pw_Index w) \<and>
        uploads d' = (uploads d)(pw_UploadID w \<mapsto> s
          \<lparr>up_ReceivedChunks := up_ReceivedChunks s + 1, up_ReceivedBytes := up_ReceivedBytes s + pw_ByteSize w,
           up_UpdatedAt := at\<rparr>)" if ne: "d' \<noteq> d"
  proof -
    from pg_RecordPart_path [OF c ne] obtain s size where v: "validatePartWrite w = None"
        and lock: "lockOwnedSession m flt (pw_UploadID w) (pw_Owner w) d = Inr s"
        and st: "up_Status s = StatusUploading" "pw_Index w = up_ReceivedChunks s" "pw_Index w < up_ExpectedChunks s"
        and sz: "(expectedPartSize s (pw_Index w) :: upload_err + int) = Inr size" "pw_ByteSize w = size"
      by blast
    from lock obtain q where q: "q \<in> set (upload_session d)" "us_id q = pw_UploadID w"
        "us_owner q = owner_columns (pw_Owner w)" "s = view q" by (rule lockOwnedSession_ok)
    from pg_RecordPart_change [OF good c ne] obtain r at where r: "r \<in> set (upload_session d)" "us_id r = pw_UploadID w"
        and d': "d' = d\<lparr>upload_session := sql_update (\<lambda>q. us_id q = us_id r) (set_progress (pw_ByteSize w) at) (upload_session d),
          upload_part := upload_part d @ [insert_part_row w]\<rparr>"
      by blast
    have rq: "r = q" using the_row [OF good q(1) r(1)] r q by simp
    have own: "valid_owner (pw_Owner w)"
    proof -
      have "Owner_Validate (pw_Owner w) = (None :: upload_sentinel check)"
        using v by (simp add: validatePartWrite_def split: if_splits option.splits)
      then show ?thesis by (simp add: Owner_Validate_None [where 's = upload_sentinel])
    qed
    have up: "uploads d' = (uploads d)(us_id q \<mapsto> view (set_progress (pw_ByteSize w) at q))"
      by (rule uploads_update [OF good q(1)]) (simp_all add: d' rq)
    have "(expectedPartSize s (pw_Index w) :: upload_err + int) = Inr (size_at s (pw_Index w))"
      using expectedPartSize_at [OF stored_geometry [OF uploads_good_row(1) [OF good q(1)]], of "pw_Index w",
          where 'a = upload_sentinel] st q write_part_valid [OF v] by simp
    with sz have "pw_ByteSize w = size_at s (pw_Index w)" by simp
    with up st q own uploads_of_row [OF good q(1)] show ?thesis
      by (intro exI [of _ s] exI [of _ at]) (simp add: view_set_progress)
  qed
  ultimately show "uploads_good m (snd (ust_RecordPart (PostgresUploadStore m flt) w d)) \<and>
      (snd (ust_RecordPart (PostgresUploadStore m flt) w d) = d \<or>
      (\<exists>s at. uploads d (pw_UploadID w) = Some s \<and> up_Owner s = pw_Owner w \<and> up_Status s = StatusUploading \<and>
        pw_Index w = up_ReceivedChunks s \<and> pw_ByteSize w = size_at s (pw_Index w) \<and>
        uploads (snd (ust_RecordPart (PostgresUploadStore m flt) w d)) = (uploads d)(pw_UploadID w \<mapsto> s
          \<lparr>up_ReceivedChunks := up_ReceivedChunks s + 1, up_ReceivedBytes := up_ReceivedBytes s + pw_ByteSize w,
           up_UpdatedAt := at\<rparr>)))"
    unfolding S by blast
qed (simp_all add: PostgresUploadStore_def pg_steps_good)

lemma live_row:
  assumes "uploads_good m d" and "uploads d u = Some s" and "up_Owner s = owner"
  obtains r where "r \<in> set (upload_session d)" "us_id r = u" "s = view r" "us_owner r = owner_columns owner"
proof -
  from assms(1,2) obtain r where r: "r \<in> set (upload_session d)" "us_id r = u" "s = view r"
    by (rule uploads_row)
  moreover have "us_owner r = owner_columns owner"
    using stored_owner [OF uploads_good_row(1) [OF assms(1) r(1)]] assms(3) r(3) by simp
  ultimately show thesis by (rule that)
qed

interpretation pg_responsive_uploads: responsive_upload_store "PostgresUploadStore m all_ok" m uploads "uploads_good m"
proof (unfold_locales, goal_cases)
  case (1 d w s)
  from live_row [OF 1(1,2,3)] obtain r where r: "r \<in> set (upload_session d)" "us_id r = pw_UploadID w" "s = view r"
      "us_owner r = owner_columns (pw_Owner w)" .
  let ?at = "pg_time (maxTime (pw_ObservedAt w) (us_updated_at r))"
  obtain receipt where R: "pg_RecordPart m all_ok w d = (Inr receipt,
      d\<lparr>upload_session := sql_update (\<lambda>q. us_id q = us_id r) (set_progress (pw_ByteSize w) ?at) (upload_session d),
        upload_part := upload_part d @ [insert_part_row w]\<rparr>)"
    using pg_RecordPart_live [OF 1(1) r(1,4)] 1 r by auto
  have "uploads (snd (pg_RecordPart m all_ok w d)) = (uploads d)(us_id r \<mapsto> view (set_progress (pw_ByteSize w) ?at r))"
    by (rule uploads_update [OF 1(1) r(1)]) (simp_all add: R)
  then show ?case
    using R r by (intro exI [of _ receipt] exI [of _ ?at]) (simp add: PostgresUploadStore_def view_set_progress)
next
  case (2 d u s owner t)
  from live_row [OF 2(1,2,3)] obtain r where r: "r \<in> set (upload_session d)" "us_id r = u" "s = view r"
      "us_owner r = owner_columns owner" .
  let ?at = "pg_time (maxTime t (us_updated_at r))"
  obtain plan where R: "pg_BeginCommit m all_ok (us_id r) owner t d = (Inr plan,
      d\<lparr>upload_session := sql_update (\<lambda>q. us_id q = us_id r) (set_committing ?at) (upload_session d)\<rparr>)"
    using pg_BeginCommit_live [OF 2(1) r(1,4)] 2 r by auto
  have "uploads (snd (pg_BeginCommit m all_ok u owner t d)) = (uploads d)(us_id r \<mapsto> view (set_committing ?at r))"
    by (rule uploads_update [OF 2(1) r(1)]) (use R r in simp_all)
  then show ?case
    using R r by (intro exI [of _ plan] exI [of _ ?at]) (simp add: PostgresUploadStore_def view_set_committing)
next
  case (3 d u s owner t digest)
  from live_row [OF 3(1,2,3)] obtain r where r: "r \<in> set (upload_session d)" "us_id r = u" "s = view r"
      "us_owner r = owner_columns owner" .
  then obtain s' where "fst (pg_Complete m all_ok (us_id r) owner digest t d) = Inr s'"
      "up_Status s' = StatusCommitted" "up_CommittedSHA256 s' = Some digest"
    using pg_Complete_live [OF 3(1) r(1,4), of t digest] 3 by auto
  then show ?case using r by (intro exI [of _ s']) (simp add: PostgresUploadStore_def)
qed

end
