(* ===== verification/Job_Manager.thy ===== *)
theory Job_Manager
  imports Job_Changes Upload_Lifecycle
begin

text \<open>
  The interfaces \<open>Store\<close> and \<open>QueueStore\<close> of the package \<open>job\<close> with their clients \<open>Manager\<close>
  (\<open>internal/job/job.go\<close>) and \<open>Queue\<close> (\<open>internal/job/queue.go\<close>), and runs in which the calls
  of owners, workers and uploads take effect one after the other under any failures.
\<close>

subsection \<open>The manager\<close>

record 'd JobStore =
  jst_Create :: "Job \<Rightarrow> 'd \<Rightarrow> (job_err + Job) \<times> 'd"
  jst_Get :: "string \<Rightarrow> Owner \<Rightarrow> 'd \<Rightarrow> (job_err + Job) \<times> 'd"
  jst_Cancel :: "string \<Rightarrow> Owner \<Rightarrow> instant \<Rightarrow> 'd \<Rightarrow> (job_err + Job) \<times> 'd"
  jst_Delete :: "string \<Rightarrow> Owner \<Rightarrow> instant \<Rightarrow> 'd \<Rightarrow> job_sentinel check \<times> 'd"

definition PostgresJobStore :: "faults \<Rightarrow> 'z job_db_scheme JobStore" where
  "PostgresJobStore flt =
     \<lparr>jst_Create = pg_job_Create flt, jst_Get = pg_job_Get flt, jst_Cancel = pg_job_Cancel flt,
      jst_Delete = pg_job_Delete flt\<rparr>"

definition NewPostgresJobStore :: "faults option \<Rightarrow> job_err + 'z job_db_scheme JobStore" where
  "NewPostgresJobStore database =
     (case database of None \<Rightarrow> Inl (ErrText ''job database is required'')
      | Some flt \<Rightarrow> Inr (PostgresJobStore flt))"

record 'd JobManager =
  jm_store :: "'d JobStore"
  jm_targetBytes :: int
  jm_retention :: duration
  jm_maxAttempts :: int

definition NewJobManager ::
    "'d JobStore option \<Rightarrow> int \<Rightarrow> duration \<Rightarrow> int \<Rightarrow> job_err + 'd JobManager" where
  "NewJobManager store targetBytes retention maxAttempts =
     (case store of None \<Rightarrow> Inl (ErrText ''job store is required'')
      | Some store \<Rightarrow>
      if targetBytes \<le> 0 then Inl (ErrText ''job target size must be positive'')
      else if retention \<le> 0 then Inl (ErrText ''job retention must be positive'')
      else if maxAttempts \<le> 0 then Inl (ErrText ''job maximum attempts must be positive'')
      else Inr \<lparr>jm_store = store, jm_targetBytes = targetBytes, jm_retention = retention,
        jm_maxAttempts = maxAttempts\<rparr>)"

definition new_job :: "'d JobManager \<Rightarrow> string \<Rightarrow> CreateRequest \<Rightarrow> instant \<Rightarrow> Job" where
  "new_job manager jobID request now =
     \<lparr>job_ID = jobID, job_UploadID = cr_UploadID request, job_Owner = cr_Owner request,
      job_Creator = cr_Creator request, job_OriginalFilename = [], job_InputObjectKey = [],
      job_InputSHA256 = no_digest, job_InputBytes = 0, job_OutputObjectKey = [], job_OutputSHA256 = None,
      job_OutputBytes = None, job_PageCount = None, job_SelectedProfile = [],
      job_TargetBytes = jm_targetBytes manager, job_TargetMet = None, job_Status = StatusQueued,
      job_ProgressPercent = 0, job_ProgressMessage = [], job_AttemptCount = 0,
      job_MaxAttempts = jm_maxAttempts manager, job_AvailableAt = now, job_LeaseOwner = [],
      job_LeaseExpiresAt = None, job_HeartbeatAt = None, job_CancelRequestedAt = None, job_ErrorCode = [],
      job_ErrorMessage = [], job_CreatedAt = now, job_UpdatedAt = now, job_StartedAt = None,
      job_CompletedAt = None, job_ExpiresAt = now + jm_retention manager, job_DeletionRequestedAt = None,
      job_Version = 1\<rparr>"

definition jm_Create ::
    "bytes \<Rightarrow> instant \<Rightarrow> 'd JobManager \<Rightarrow> CreateRequest \<Rightarrow> 'd \<Rightarrow> (job_err + Job) \<times> 'd" where
  "jm_Create random now manager request d =
     (if \<not> validUUID (cr_UploadID request) then (Inl (ErrText ''job upload ID must be a UUID''), d)
      else case validateCreator (cr_Owner request) (cr_Creator request) of Some err \<Rightarrow> (Inl err, d) | None \<Rightarrow>
      (case generateUUID random of None \<Rightarrow> (Inl (ErrText ''generate job ID: %w''), d)
       | Some (jobID, rest) \<Rightarrow> jst_Create (jm_store manager) (new_job manager jobID request now) d))"

definition jm_Get :: "'d JobManager \<Rightarrow> string \<Rightarrow> Owner \<Rightarrow> 'd \<Rightarrow> (job_err + Job) \<times> 'd" where
  "jm_Get manager jobID owner = jst_Get (jm_store manager) jobID owner"

definition jm_Cancel :: "instant \<Rightarrow> 'd JobManager \<Rightarrow> string \<Rightarrow> Owner \<Rightarrow> 'd \<Rightarrow> (job_err + Job) \<times> 'd" where
  "jm_Cancel now manager jobID owner = jst_Cancel (jm_store manager) jobID owner now"

definition jm_Delete :: "instant \<Rightarrow> 'd JobManager \<Rightarrow> string \<Rightarrow> Owner \<Rightarrow> 'd \<Rightarrow> job_sentinel check \<times> 'd" where
  "jm_Delete now manager jobID owner = jst_Delete (jm_store manager) jobID owner now"

subsection \<open>The worker queue\<close>

record 'd QueueStore =
  qst_Claim :: "string \<Rightarrow> instant \<Rightarrow> instant \<Rightarrow> 'd \<Rightarrow> (job_err + Job) \<times> 'd"
  qst_Heartbeat :: "string \<Rightarrow> string \<Rightarrow> instant \<Rightarrow> instant \<Rightarrow> 'd \<Rightarrow> (Job option \<times> job_sentinel check) \<times> 'd"
  qst_Transition :: "Transition \<Rightarrow> 'd \<Rightarrow> (job_err + Job) \<times> 'd"
  qst_RecoverExpired :: "RecoveryRequest \<Rightarrow> 'd \<Rightarrow> (job_err + RecoveryResult) \<times> 'd"

definition PostgresQueueStore :: "faults \<Rightarrow> string list \<Rightarrow> 'z job_db_scheme QueueStore" where
  "PostgresQueueStore flt locked =
     \<lparr>qst_Claim = pg_Claim flt locked, qst_Heartbeat = pg_Heartbeat flt, qst_Transition = pg_Transition flt,
      qst_RecoverExpired = pg_RecoverExpired flt locked\<rparr>"

record 'd JobQueue =
  jq_store :: "'d QueueStore"
  jq_workerID :: string
  jq_leaseDuration :: duration
  jq_retryDelay :: duration
  jq_recoveryBatch :: int

definition NewQueue ::
    "'d QueueStore option \<Rightarrow> string \<Rightarrow> duration \<Rightarrow> duration \<Rightarrow> int \<Rightarrow> job_err + 'd JobQueue" where
  "NewQueue store workerID leaseDuration retryDelay recoveryBatch =
     (case store of None \<Rightarrow> Inl (ErrText ''job queue store is required'')
      | Some store \<Rightarrow>
      if \<not> validWorkerID workerID then Inl (ErrText ''job worker ID is invalid'')
      else if leaseDuration \<le> 0 then Inl (ErrText ''job lease duration must be positive'')
      else if retryDelay < 0 then Inl (ErrText ''job retry delay must not be negative'')
      else if recoveryBatch \<le> 0 \<or> recoveryBatch > 1000
        then Inl (ErrText ''job recovery batch must be between 1 and 1000'')
      else Inr \<lparr>jq_store = store, jq_workerID = workerID, jq_leaseDuration = leaseDuration,
        jq_retryDelay = retryDelay, jq_recoveryBatch = recoveryBatch\<rparr>)"

definition jq_Claim :: "instant \<Rightarrow> 'd JobQueue \<Rightarrow> 'd \<Rightarrow> (job_err + Job) \<times> 'd" where
  "jq_Claim now queue = qst_Claim (jq_store queue) (jq_workerID queue) now (now + jq_leaseDuration queue)"

definition jq_Heartbeat ::
    "instant \<Rightarrow> 'd JobQueue \<Rightarrow> string \<Rightarrow> 'd \<Rightarrow> (Job option \<times> job_sentinel check) \<times> 'd" where
  "jq_Heartbeat now queue jobID =
     qst_Heartbeat (jq_store queue) jobID (jq_workerID queue) now (now + jq_leaseDuration queue)"

definition jq_Transition :: "instant \<Rightarrow> 'd JobQueue \<Rightarrow> Transition \<Rightarrow> 'd \<Rightarrow> (job_err + Job) \<times> 'd" where
  "jq_Transition now queue transition d =
     (let transition = transition\<lparr>tr_WorkerID := jq_workerID queue, tr_ObservedAt := now,
        tr_LeaseExpiresAt := now + jq_leaseDuration queue\<rparr>
      in case validateTransition transition of Some err \<Rightarrow> (Inl err, d)
         | None \<Rightarrow> qst_Transition (jq_store queue) transition d)"

definition jq_RecoverExpired :: "instant \<Rightarrow> 'd JobQueue \<Rightarrow> 'd \<Rightarrow> (job_err + RecoveryResult) \<times> 'd" where
  "jq_RecoverExpired now queue =
     qst_RecoverExpired (jq_store queue)
       \<lparr>rr_ObservedAt = now, rr_RetryAt = now + jq_retryDelay queue, rr_Limit = jq_recoveryBatch queue\<rparr>"

subsection \<open>Runs\<close>

text \<open>
  One call of the store with the outcomes of its database calls. Each call is one statement
  (or, for uploads, one transaction that locks its row), so concurrent calls take effect one
  after the other; the rows that \<open>SKIP LOCKED\<close> passes over are part of the call.
\<close>

datatype job_call =
    Call_Create Job
  | Call_Cancel string Owner instant
  | Call_Delete string Owner instant
  | Call_Claim "string list" string instant instant
  | Call_Heartbeat string string instant instant
  | Call_Transition Transition
  | Call_Recover "string list" RecoveryRequest
  | Call_Upload upload_call

fun job_step :: "mime \<Rightarrow> faults \<times> job_call \<Rightarrow> 'z job_db_scheme \<Rightarrow> 'z job_db_scheme" where
  "job_step m (flt, Call_Create s) d = snd (pg_job_Create flt s d)"
| "job_step m (flt, Call_Cancel j owner t) d = snd (pg_job_Cancel flt j owner t d)"
| "job_step m (flt, Call_Delete j owner t) d = snd (pg_job_Delete flt j owner t d)"
| "job_step m (flt, Call_Claim locked w t lease) d = snd (pg_Claim flt locked w t lease d)"
| "job_step m (flt, Call_Heartbeat j w t lease) d = snd (pg_Heartbeat flt j w t lease d)"
| "job_step m (flt, Call_Transition t) d = snd (pg_Transition flt t d)"
| "job_step m (flt, Call_Recover locked q) d = snd (pg_RecoverExpired flt locked q d)"
| "job_step m (flt, Call_Upload c) d = upload_step m (flt, c) d"

definition job_run :: "mime \<Rightarrow> (faults \<times> job_call) list \<Rightarrow> 'z job_db_scheme \<Rightarrow> 'z job_db_scheme" where
  "job_run m = fold (job_step m)"

text \<open>As for uploads: jobs are created after the first microsecond of year 1.\<close>

fun sane_job_call :: "job_call \<Rightarrow> bool" where
  "sane_job_call (Call_Create s) \<longleftrightarrow> Microsecond \<le> job_CreatedAt s"
| "sane_job_call (Call_Upload c) \<longleftrightarrow> sane_call c"
| "sane_job_call _ \<longleftrightarrow> True"

abbreviation sane_run :: "(faults \<times> job_call) list \<Rightarrow> bool" where
  "sane_run calls \<equiv> \<forall>(flt, call) \<in> set calls. sane_job_call call"

text \<open>The specification of the whole store: a step of the uploads or of the jobs.\<close>

definition store_change :: "mime \<Rightarrow> 'z job_db_scheme \<Rightarrow> 'z job_db_scheme \<Rightarrow> bool" where
  "store_change m d d' \<longleftrightarrow> upload_change m d d' \<or> job_change d d'"

lemma store_change_keeps: "store_change m d d' \<Longrightarrow> jobs_good m d \<Longrightarrow> jobs_good m d'"
  using job_change_keeps_invariant upload_change_keeps_jobs by (auto simp: store_change_def)

lemma job_step_change:
  assumes good: "jobs_good m d" and "sane_job_call call"
  shows "job_step m (flt, call) d = d \<or> store_change m d (job_step m (flt, call) d)"
proof (cases call)
  case (Call_Create s)
  then show ?thesis
    using create_refines [OF good, of s flt] assms(2) by (cases "pg_job_Create flt s d") (auto simp: store_change_def)
next
  case (Call_Cancel j owner t)
  then show ?thesis
    using cancel_refines [of flt j owner t d] by (cases "pg_job_Cancel flt j owner t d") (auto simp: store_change_def)
next
  case (Call_Delete j owner t)
  then show ?thesis
    using delete_refines [of flt j owner t d] by (cases "pg_job_Delete flt j owner t d") (auto simp: store_change_def)
next
  case (Call_Claim locked w t lease)
  then show ?thesis
    using claim_refines [OF good, of flt locked w t lease]
    by (cases "pg_Claim flt locked w t lease d") (auto simp: store_change_def)
next
  case (Call_Heartbeat j w t lease)
  then show ?thesis
    using heartbeat_refines [of flt j w t lease d]
    by (cases "pg_Heartbeat flt j w t lease d") (auto simp: store_change_def)
next
  case (Call_Transition t)
  then show ?thesis
    using transition_refines [of flt t d] by (cases "pg_Transition flt t d") (auto simp: store_change_def)
next
  case (Call_Recover locked q)
  then show ?thesis
    using recover_refines [OF good, of flt locked q]
    by (cases "pg_RecoverExpired flt locked q d") (auto simp: store_change_def)
next
  case (Call_Upload c)
  then show ?thesis
    using upload_step_change [of m d c flt] good assms(2) by (auto simp: store_change_def jobs_good_def)
qed

lemma job_run_changes:
  assumes "jobs_good m d" and "sane_run calls"
  shows "(store_change m)\<^sup>*\<^sup>* d (job_run m calls d) \<and> jobs_good m (job_run m calls d)"
  using assms
proof (induction calls arbitrary: d)
  case (Cons c calls)
  obtain flt call where c: "c = (flt, call)" by fastforce
  have step: "job_step m c d = d \<or> store_change m d (job_step m c d)"
    using job_step_change [OF Cons.prems(1)] Cons.prems(2) c by auto
  then have "jobs_good m (job_step m c d)"
    using store_change_keeps Cons.prems(1) by metis
  then have "(store_change m)\<^sup>*\<^sup>* (job_step m c d) (job_run m (c # calls) d)
      \<and> jobs_good m (job_run m (c # calls) d)"
    using Cons.IH [of "job_step m c d"] Cons.prems(2) by (simp add: job_run_def)
  with step show ?case by (metis converse_rtranclp_into_rtranclp)
qed (simp add: job_run_def)

end
