(* ===== verification/Job_Lifecycle.thy ===== *)
theory Job_Lifecycle
  imports Job_Manager
begin

text \<open>
  The properties of jobs over runs of the store: the refinement of the specification, the
  consistency of every reachable row, the lifecycle, the lease of a worker, cancellation,
  deletion, creation and recovery, each with a concrete witness.
\<close>

subsection \<open>The life of one job\<close>

abbreviation status_path :: "JobStatus \<Rightarrow> JobStatus \<Rightarrow> bool" where
  "status_path \<equiv> CanTransitionTo\<^sup>*\<^sup>*"

text \<open>What a stopped job keeps: only retention columns may still change.\<close>

definition same_outcome :: "job_row \<Rightarrow> job_row \<Rightarrow> bool" where
  "same_outcome r r' \<longleftrightarrow> jr_status r' = jr_status r \<and> jr_completed_at r' = jr_completed_at r \<and>
     jr_error_code r' = jr_error_code r \<and> jr_error_message r' = jr_error_message r \<and>
     jr_progress_percent r' = jr_progress_percent r \<and> jr_attempt_count r' = jr_attempt_count r \<and>
     jr_cancel_requested_at r' = jr_cancel_requested_at r"

text \<open>
  Within one attempt progress does not move backwards; a job that stopped needs a new attempt,
  and a job whose cancellation is recorded gets none.
\<close>

definition same_attempt :: "job_row \<Rightarrow> job_row \<Rightarrow> bool" where
  "same_attempt r r' \<longleftrightarrow>
     (active_status (jr_status r') \<and> jr_attempt_count r' = jr_attempt_count r \<longrightarrow>
        active_status (jr_status r) \<and> jr_progress_percent r \<le> jr_progress_percent r') \<and>
     (jr_cancel_requested_at r \<noteq> None \<longrightarrow> jr_attempt_count r' = jr_attempt_count r)"

definition kept :: "'a option \<Rightarrow> 'a option \<Rightarrow> bool" where
  "kept v v' \<longleftrightarrow> v = None \<or> v' = v"

definition job_evolves :: "job_row \<Rightarrow> job_row \<Rightarrow> bool" where
  "job_evolves r r' \<longleftrightarrow> same_identity r r' \<and> status_path (jr_status r) (jr_status r') \<and>
     jr_version r \<le> jr_version r' \<and> jr_updated_at r \<le> jr_updated_at r' \<and>
     jr_attempt_count r \<le> jr_attempt_count r' \<and> jr_expires_at r' \<le> jr_expires_at r \<and>
     kept (jr_cancel_requested_at r) (jr_cancel_requested_at r') \<and>
     kept (jr_deletion_requested_at r) (jr_deletion_requested_at r') \<and>
     kept (jr_started_at r) (jr_started_at r') \<and>
     (Status_Terminal (jr_status r) \<longrightarrow> same_outcome r r') \<and> same_attempt r r'"

lemma kept_simps [simp]: "kept v v" "kept None v" "kept v (coalesce v x)"
  by (auto simp: kept_def coalesce_def split: option.split)

lemma evolves_same [simp]: "job_evolves r r"
  by (simp add: job_evolves_def same_identity_def same_outcome_def same_attempt_def)

lemma same_identity_trans: "same_identity a b \<Longrightarrow> same_identity b c \<Longrightarrow> same_identity a c"
  by (simp add: same_identity_def)

lemma job_evolves_trans:
  assumes "job_evolves a b" and "job_evolves b c"
  shows "job_evolves a c"
proof -
  have "same_identity a c" "status_path (jr_status a) (jr_status c)"
    using assms same_identity_trans by (auto simp: job_evolves_def)
  moreover have "Status_Terminal (jr_status a) \<Longrightarrow> same_outcome a c"
    using assms by (auto simp: job_evolves_def same_outcome_def)
  moreover have "jr_attempt_count a \<le> jr_attempt_count b" "jr_attempt_count b \<le> jr_attempt_count c"
      "same_attempt a b" "same_attempt b c" "kept (jr_cancel_requested_at a) (jr_cancel_requested_at b)"
    using assms by (simp_all add: job_evolves_def)
  then have "same_attempt a c" by (auto simp: same_attempt_def kept_def)
  ultimately show ?thesis using assms by (auto simp: job_evolves_def kept_def)
qed

lemma edge_simps [simp]:
  "CanTransitionTo StatusQueued s \<longleftrightarrow> s = StatusAnalyzing \<or> s = StatusFailed \<or> s = StatusCancelled"
  "active_status s \<Longrightarrow> CanTransitionTo s StatusQueued"
  "active_status s \<Longrightarrow> CanTransitionTo s StatusFailed"
  "active_status s \<Longrightarrow> CanTransitionTo s StatusCancelled"
  by (auto simp: CanTransitionTo_def transitions_def active_status_def)

lemma move_evolves:
  assumes "job_move r r'" and good: "state_good r"
  shows "job_evolves r r'"
  using assms(1)
proof cases
  case (claimed at lease workerID)
  then show ?thesis
    using set_identity(1) [of r workerID at lease]
    by (simp add: job_evolves_def claimable_def set_claimed_def r_into_rtranclp same_attempt_def)
next
  case (renewed at lease)
  then show ?thesis
    using set_identity(2) [of r at lease] active_not_terminal
    by (simp add: job_evolves_def set_renewed_def same_attempt_def)
next
  case (moved t)
  note T = transition_bounds [OF moved(2)]
  have st: "jr_status r = tr_ExpectedStatus t" "jr_progress_percent r \<le> tr_ProgressPercent t"
    using moved(3) by (simp_all add: movable_def)
  then have "same_attempt r r'"
    using T(1) unfolding moved by (simp add: same_attempt_def set_moved_def Let_def)
  moreover from st have "status_path (jr_status r) (tr_NextStatus t)" "\<not> Status_Terminal (jr_status r)"
    using T(1,2) active_not_terminal by auto
  ultimately show ?thesis
    using moved set_identity(3) [of r t] by (simp add: job_evolves_def set_moved_def Let_def)
next
  case (recovered at retryAt)
  have "active_status (jr_status r)" using recovered by (simp add: lease_expired_def)
  then have "status_path (jr_status r) (jr_status r')" "\<not> Status_Terminal (jr_status r)"
    using active_not_terminal unfolding recovered by (auto simp: set_recovered_def)
  with recovered show ?thesis
    using set_identity(4) [of r at retryAt] by (simp add: job_evolves_def set_recovered_def same_attempt_def)
next
  case (cancelled at)
  have "status_path (jr_status r) (jr_status r')" "Status_Terminal (jr_status r) \<longrightarrow> same_outcome r r'"
    unfolding cancelled by (auto simp: set_cancel_def same_outcome_def dest: active_not_terminal)
  with cancelled show ?thesis
    using set_identity(5) [of r at] by (simp add: job_evolves_def set_cancel_def same_attempt_def)
next
  case (deleted at)
  have "status_path (jr_status r) (jr_status r')" "Status_Terminal (jr_status r) \<longrightarrow> same_outcome r r'"
    unfolding deleted by (auto simp: set_deleted_def same_outcome_def dest: active_not_terminal)
  with deleted show ?thesis
    using set_identity(6) [of r at] by (simp add: job_evolves_def set_deleted_def same_attempt_def)
qed

lemma store_change_evolves:
  assumes "store_change m d d'" and good: "jobs_good m d" and r: "r \<in> set (pdf_job d)"
  shows "\<exists>r' \<in> set (pdf_job d'). job_evolves r r'"
proof (cases "upload_change m d d'")
  case True
  then show ?thesis using upload_change_jobs r evolves_same by metis
next
  case False
  then have "job_change d d'" using assms(1) by (simp add: store_change_def)
  then show ?thesis
  proof cases
    case (queued s u row)
    then show ?thesis using r by (intro bexI [of _ r]) simp_all
  next
    case (worked f)
    then have "f r = r \<or> job_move r (f r)" using r by (simp add: list_all_iff)
    then have "job_evolves r (f r)"
      using move_evolves jobs_good_row(1) [OF good r] by (auto simp: job_row_good_def)
    with worked r show ?thesis by auto
  qed
qed

lemma store_changes_evolve:
  assumes "(store_change m)\<^sup>*\<^sup>* d d'" and "jobs_good m d" and "r \<in> set (pdf_job d)"
  shows "\<exists>r' \<in> set (pdf_job d'). job_evolves r r'"
  using assms
proof (induction arbitrary: r rule: converse_rtranclp_induct)
  case base
  then show ?case using evolves_same by blast
next
  case (step d d1)
  obtain r1 where "r1 \<in> set (pdf_job d1)" "job_evolves r r1"
    using store_change_evolves [OF step.hyps(1) step.prems] by blast
  with step.IH [OF store_change_keeps [OF step.hyps(1) step.prems(1)]] show ?case
    using job_evolves_trans by blast
qed

subsection \<open>What one call does to one row\<close>

fun row_effect :: "job_call \<Rightarrow> job_row \<Rightarrow> job_row \<Rightarrow> bool" where
  "row_effect (Call_Cancel j owner t) r r' \<longleftrightarrow>
     owned_job j owner r \<and> jr_deletion_requested_at r = None \<and> r' = set_cancel (pg_time t) r"
| "row_effect (Call_Delete j owner t) r r' \<longleftrightarrow> owned_job j owner r \<and> r' = set_deleted (pg_time t) r"
| "row_effect (Call_Claim locked w t lease) r r' \<longleftrightarrow>
     claimable (pg_time t) r \<and> jr_id r \<notin> set locked \<and> r' = set_claimed w (pg_time t) (pg_time lease) r"
| "row_effect (Call_Heartbeat j w t lease) r r' \<longleftrightarrow>
     holds_lease j w (pg_time t) r \<and> r' = set_renewed (pg_time t) (pg_time lease) r"
| "row_effect (Call_Transition t) r r' \<longleftrightarrow> validateTransition t = None \<and> movable t r \<and> r' = set_moved t r"
| "row_effect (Call_Recover locked q) r r' \<longleftrightarrow> lease_expired (pg_time (rr_ObservedAt q)) r \<and>
     jr_id r \<notin> set locked \<and> r' = set_recovered (pg_time (rr_ObservedAt q)) (pg_time (rr_RetryAt q)) r"
| "row_effect _ r r' \<longleftrightarrow> False"

lemma updated_row:
  assumes "sql_checked_update job_row_check P f t = Some t'" and "r \<in> set t"
  shows "\<exists>r' \<in> set t'. r' = r \<or> (P r \<and> r' = f r)"
  using assms by (intro bexI [of _ "if P r then f r else r"])
    (auto simp: sql_checked_update_def set_sql_update split: if_splits)

lemma returning_row:
  assumes "update_returning flt op sendable P f missing d = (res, d')" and "r \<in> set (pdf_job d)"
  shows "\<exists>r' \<in> set (pdf_job d'). r' = r \<or> (P r \<and> r' = f r)"
  using assms updated_row [of P f "pdf_job d" _ r]
  by (auto simp: update_returning_def Let_def finish_def split: if_splits option.splits dbcall.splits)

lemma step_row:
  assumes good: "jobs_good m d" and r: "r \<in> set (pdf_job d)"
  shows "\<exists>r' \<in> set (pdf_job (job_step m (flt, call) d)). r' = r \<or> row_effect call r r'"
proof (cases call)
  case (Call_Create s)
  have "\<exists>x. pdf_job (snd (pg_job_Create flt s d)) = pdf_job d @ x"
    by (auto simp: pg_job_Create_def Let_def finish_def split: option.split dbcall.split)
  then have "r \<in> set (pdf_job (snd (pg_job_Create flt s d)))" using r by auto
  with Call_Create show ?thesis by auto
next
  case (Call_Cancel j owner t)
  then show ?thesis
    using r returning_row [of flt "''cancel''" True "\<lambda>r. owned_job j owner r \<and> jr_deletion_requested_at r = None"
        "set_cancel (pg_time t)" JobErrNotFound d _ "snd (pg_job_Cancel flt j owner t d)" r]
    by (cases "pg_job_Cancel flt j owner t d") (auto simp: pg_job_Cancel_def split: if_splits)
next
  case (Call_Delete j owner t)
  then show ?thesis
    using r updated_row [of "owned_job j owner" "set_deleted (pg_time t)" "pdf_job d" _ r]
    by (cases "pg_job_Delete flt j owner t d")
      (auto simp: pg_job_Delete_def Let_def finish_def split: if_splits option.splits dbcall.splits)
next
  case (Call_Claim locked w t lease)
  show ?thesis
  proof (cases "sort_key claim_order (filter (\<lambda>r. claimable (pg_time t) r \<and> jr_id r \<notin> set locked) (pdf_job d))")
    case Nil
    then have "snd (pg_Claim flt locked w t lease d) = d"
      by (simp add: pg_Claim_def Let_def split: option.split)
    with Call_Claim r show ?thesis by auto
  next
    case (Cons c rest)
    have c: "c \<in> set (pdf_job d)" "claimable (pg_time t) c" "jr_id c \<notin> set locked"
      using claim_candidate [OF Cons] by auto
    from the_job [OF good c(1) r] c(2,3) have "jr_id r = jr_id c \<Longrightarrow> claimable (pg_time t) r \<and> jr_id r \<notin> set locked"
      by auto
    moreover have "snd (pg_Claim flt locked w t lease d) = d \<or> (\<exists>rows. sql_checked_update job_row_check
        (\<lambda>r. jr_id r = jr_id c) (set_claimed w (pg_time t) (pg_time lease)) (pdf_job d) = Some rows \<and>
        snd (pg_Claim flt locked w t lease d) = d\<lparr>pdf_job := rows\<rparr>)"
      using Cons by (auto simp: pg_Claim_def Let_def finish_def split: option.split dbcall.split)
    ultimately show ?thesis
      using Call_Claim r updated_row [of "\<lambda>r. jr_id r = jr_id c" "set_claimed w (pg_time t) (pg_time lease)" "pdf_job d" _ r]
      by fastforce
  qed
next
  case (Call_Heartbeat j w t lease)
  then show ?thesis
    using r returning_row [of flt "''heartbeat''" "pg_text w" "holds_lease j w (pg_time t)"
        "set_renewed (pg_time t) (pg_time lease)" ErrLeaseLost d _ _ r]
    by (auto simp: pg_Heartbeat_def split: option.split prod.split sum.split)
next
  case (Call_Transition t)
  then show ?thesis
    using r returning_row [of flt "''transition''" _ "movable t" "set_moved t" ErrLeaseLost d _ _ r]
    by (cases "pg_Transition flt t d") (auto simp: pg_Transition_def split: option.splits)
next
  case (Call_Recover locked q)
  let ?at = "pg_time (rr_ObservedAt q)"
  let ?b = "expired_batch locked ?at (rr_Limit q) (pdf_job d)"
  have "lease_expired ?at r \<and> jr_id r \<notin> set locked" if "jr_id r \<in> set (map jr_id ?b)"
  proof -
    from that obtain c where "c \<in> set ?b" "jr_id c = jr_id r" by auto
    then show ?thesis using expired_batch_rows the_job [OF good r] by metis
  qed
  with Call_Recover r show ?thesis
    using updated_row [of "\<lambda>r. jr_id r \<in> set (map jr_id ?b)"
        "set_recovered ?at (pg_time (rr_RetryAt q))" "pdf_job d" _ r]
    by (auto simp: pg_RecoverExpired_def Let_def finish_def split: option.split dbcall.split)
next
  case (Call_Upload c)
  have "pdf_job (upload_step m (flt, c) d) = pdf_job d"
    by (cases c) (auto simp: pg_upload_Create_def pg_RecordPart_def pg_BeginCommit_def pg_Complete_def pg_Abort_def
        Let_def finish_def split: option.split sum.split dbcall.split)
  with Call_Upload r show ?thesis by auto
qed

subsection \<open>Refinement, consistency and lifecycle\<close>

text \<open>
  C17. Every call of the store, whatever its arguments and whichever database calls fail,
  leaves the tables as they were or makes one step of the specification: an upload step, the
  insertion of one well-formed queued job made from a committed upload of its owner, or moves
  of rows that satisfy the guards of one statement. So the tables reached by a run refine
  the specification and satisfy its invariant.
\<close>

theorem job_store_refines_specification:
  assumes "jobs_good m d" and "sane_run calls" and "sane_job_call call"
  shows "(job_step m (flt, call) (job_run m calls d) = job_run m calls d
      \<or> store_change m (job_run m calls d) (job_step m (flt, call) (job_run m calls d))) \<and>
    jobs_good m (job_run m calls d)"
  using job_run_changes [OF assms(1,2)] job_step_change [OF _ assms(3)] by blast

text \<open>A consistent row as its readers see it, in terms of the \<open>Job\<close> that is decoded from it.\<close>

definition consistent_job :: "Job \<Rightarrow> bool" where
  "consistent_job job \<longleftrightarrow>
     (active_status (job_Status job) \<longleftrightarrow> job_LeaseExpiresAt job \<noteq> None) \<and>
     (job_LeaseExpiresAt job = None \<longleftrightarrow> job_HeartbeatAt job = None) \<and>
     (job_LeaseExpiresAt job = None \<longrightarrow> job_LeaseOwner job = []) \<and>
     0 \<le> job_AttemptCount job \<and> job_AttemptCount job \<le> job_MaxAttempts job \<and>
     (job_StartedAt job = None \<longleftrightarrow> job_AttemptCount job = 0) \<and>
     (job_CompletedAt job \<noteq> None \<longleftrightarrow> Status_Terminal (job_Status job)) \<and>
     (job_ErrorCode job \<noteq> [] \<longrightarrow> job_Status job = StatusFailed) \<and>
     (job_Status job = StatusCompleted \<longrightarrow> job_ProgressPercent job = 100) \<and>
     (job_Status job = StatusQueued \<longrightarrow> job_ProgressPercent job = 0 \<and> job_CancelRequestedAt job = None \<and>
        job_DeletionRequestedAt job = None) \<and>
     (job_Status job = StatusCancelled \<longrightarrow> job_CancelRequestedAt job \<noteq> None) \<and>
     (job_Status job = StatusCompleted \<or> job_Status job = StatusFailed \<longrightarrow> job_CancelRequestedAt job = None)"

lemma good_row_consistent:
  assumes "job_row_good r"
  shows "consistent_job (job_view r)"
proof -
  have S: "state_good r" and n: "0 \<le> jr_attempt_count r"
    using assms by (simp_all add: job_row_good_def job_row_check_def pdf_job_columns_def)
  have L: "active_status (jr_status r) \<longleftrightarrow> jr_lease_expires_at r \<noteq> None"
      "jr_lease_expires_at r = None \<longleftrightarrow> jr_heartbeat_at r = None"
      "jr_lease_expires_at r = None \<longrightarrow> text_or_empty (jr_lease_owner r) = []"
    using S by (auto simp: state_good_def lease_good_def split: if_splits)
  have "text_or_empty (jr_error_code r) \<noteq> [] \<longrightarrow> jr_status r = StatusFailed"
    using S by (cases "jr_error_code r") (auto simp: state_good_def outcome_good_def)
  moreover have "jr_status r = StatusQueued \<longrightarrow> jr_deletion_requested_at r = None"
    using S by (auto simp: state_good_def intent_good_def)
  moreover have A: "attempts_good r" "outcome_good r" and I: "intent_good r" using S by (simp_all add: state_good_def)
  moreover have "jr_status r = StatusQueued \<or> jr_status r = StatusCompleted \<or> jr_status r = StatusFailed
      \<Longrightarrow> jr_cancel_requested_at r = None"
    using I by (auto simp: intent_good_def)
  ultimately show ?thesis
    using n L A(1,2) I unfolding consistent_job_def job_view_simps
    by (simp add: attempts_good_def outcome_good_def intent_good_def)
qed

text \<open>
  C18. In every reachable state each stored job is decoded by \<open>scanJob\<close> (no stored job is
  ever unreadable), and it is consistent: it has a lease exactly while a worker status holds,
  at most \<open>MaxAttempts\<close> claims, a completion time exactly when it has stopped, an error only
  when it failed, full progress when it completed, no cancellation or deletion request while
  it is queued, and a recorded cancellation is never overtaken by a completion or a failure.
\<close>

theorem stored_jobs_consistent:
  assumes "jobs_good m d" and "sane_run calls" and "r \<in> set (pdf_job (job_run m calls d))"
  shows "\<exists>job. scanJob r = Inr job \<and> consistent_job job"
proof -
  have "jobs_good m (job_run m calls d)" using job_run_changes [OF assms(1,2)] by blast
  from jobs_good_row(1) [OF this assms(3)] show ?thesis
    using scan_stored_job good_row_consistent by blast
qed

lemma run_evolves:
  assumes "jobs_good m d" and "sane_run calls" and "r \<in> set (pdf_job d)"
  shows "\<exists>r' \<in> set (pdf_job (job_run m calls d)). job_evolves r r'"
  using store_changes_evolve job_run_changes [OF assms(1,2)] assms(1,3) by blast

text \<open>
  The life of a job as a picture: which call may change which status into which. A worker goes through
  analysis, optimisation and validation, may go back from validation to optimisation, and may stop an active
  job as failed or cancelled, or as completed after analysis or validation.
\<close>

definition worker_edge :: "JobStatus \<Rightarrow> JobStatus \<Rightarrow> bool" where
  "worker_edge s s' \<longleftrightarrow>
     (s, s') \<in> {(StatusAnalyzing, StatusOptimizing), (StatusOptimizing, StatusValidating), (StatusValidating, StatusOptimizing),
       (StatusAnalyzing, StatusCompleted), (StatusValidating, StatusCompleted)} \<or>
     s \<in> {StatusAnalyzing, StatusOptimizing, StatusValidating} \<and> s' \<in> {StatusFailed, StatusCancelled}"

fun status_edge :: "job_call \<Rightarrow> JobStatus \<Rightarrow> JobStatus \<Rightarrow> bool" where
  "status_edge (Call_Claim locked w t lease) s s' \<longleftrightarrow> s = StatusQueued \<and> s' = StatusAnalyzing"
| "status_edge (Call_Transition t) s s' \<longleftrightarrow> s = tr_ExpectedStatus t \<and> s' = tr_NextStatus t \<and> worker_edge s s'"
| "status_edge (Call_Recover locked q) s s' \<longleftrightarrow>
     s \<in> {StatusAnalyzing, StatusOptimizing, StatusValidating} \<and> s' \<in> {StatusQueued, StatusFailed, StatusCancelled}"
| "status_edge (Call_Cancel j owner t) s s' \<longleftrightarrow> s = StatusQueued \<and> s' = StatusCancelled"
| "status_edge (Call_Delete j owner t) s s' \<longleftrightarrow> s = StatusQueued \<and> s' = StatusCancelled"
| "status_edge _ s s' \<longleftrightarrow> False"

lemma worker_edge_allowed:
  assumes "active_status s" and "CanTransitionTo s s'" and "s' \<noteq> StatusQueued" and "s' \<noteq> StatusJobExpired"
  shows "worker_edge s s'"
  using assms by (auto simp: active_status_def CanTransitionTo_def transitions_def worker_edge_def)

lemma effect_edge:
  assumes e: "row_effect call r r'" and good: "state_good r" and change: "jr_status r' \<noteq> jr_status r"
  shows "CanTransitionTo (jr_status r) (jr_status r') \<and> status_edge call (jr_status r) (jr_status r') \<and>
    jr_version r' = jr_version r + 1"
proof (cases call)
  case (Call_Transition t)
  then have v: "validateTransition t = None" "jr_status r = tr_ExpectedStatus t" "r' = set_moved t r"
    using e by (simp_all add: movable_def)
  note T = transition_bounds [OF v(1)]
  then show ?thesis
    using worker_edge_allowed [OF T(1,2,4,5)] v Call_Transition by (simp add: set_moved_def Let_def)
next
  case (Call_Recover locked q)
  then have act: "active_status (jr_status r)" using e by (simp add: lease_expired_def)
  then show ?thesis
    using e Call_Recover by (auto simp: set_recovered_def) (simp_all add: active_status_def)
next
  case (Call_Cancel j owner t)
  then have "jr_status r = StatusQueued" "r' = set_cancel (pg_time t) r"
    using e change by (auto simp: set_cancel_def split: if_splits)
  then show ?thesis
    using good Call_Cancel by (simp add: set_cancel_def open_for_cancel_def state_good_def intent_good_def)
next
  case (Call_Delete j owner t)
  then have "jr_status r = StatusQueued" "r' = set_deleted (pg_time t) r"
    using e change by (auto simp: set_deleted_def split: if_splits)
  then show ?thesis
    using good Call_Delete by (simp add: set_deleted_def open_for_cancel_def state_good_def intent_good_def)
qed (use e change in \<open>auto simp: claimable_def set_claimed_def set_renewed_def split: if_splits\<close>)

lemma effect_identity: "row_effect call r r' \<Longrightarrow> same_identity r r'"
  by (cases call) (auto simp: set_identity)

text \<open>
  C19. Whatever is called, a job stays in the table with its identity, and each call changes its status
  at most along one edge of the \<open>transitions\<close> table: a claim takes a queued job to analysis,
  the report of a worker moves it along the edge that it names, which is one of the pipeline or stops
  the job, recovery puts an active job back or stops it, cancellation and deletion stop a queued
  one, no other call touches the status, and each change raises the version by one. Over a run its version, attempts and
  update time never decrease, its retention is never extended, cancellation, deletion and first start are recorded
  once, a job that has stopped keeps its status, error, progress and completion time, and within one
  attempt progress does not move backwards.
\<close>

theorem jobs_follow_lifecycle:
  assumes "jobs_good m d" and "sane_run calls" and "r \<in> set (pdf_job d)"
  shows "\<exists>r' \<in> set (pdf_job (job_run m calls d)).
    jr_id r' = jr_id r \<and> jr_upload_id r' = jr_upload_id r \<and> jr_owner r' = jr_owner r \<and>
    jr_input_object_key r' = jr_input_object_key r \<and> jr_input_sha256 r' = jr_input_sha256 r \<and>
    (\<exists>n \<in> set (pdf_job (job_step m (flt, call) (job_run m calls d))). jr_id n = jr_id r \<and>
      (jr_status n \<noteq> jr_status r' \<longrightarrow> CanTransitionTo (jr_status r') (jr_status n) \<and>
        status_edge call (jr_status r') (jr_status n) \<and> jr_version n = jr_version r' + 1)) \<and>
    CanTransitionTo\<^sup>*\<^sup>* (jr_status r) (jr_status r') \<and> jr_version r \<le> jr_version r' \<and>
    jr_attempt_count r \<le> jr_attempt_count r' \<and> jr_updated_at r \<le> jr_updated_at r' \<and>
    jr_expires_at r' \<le> jr_expires_at r \<and>
    (jr_cancel_requested_at r \<noteq> None \<longrightarrow> jr_cancel_requested_at r' = jr_cancel_requested_at r) \<and>
    (jr_deletion_requested_at r \<noteq> None \<longrightarrow> jr_deletion_requested_at r' = jr_deletion_requested_at r) \<and>
    (jr_started_at r \<noteq> None \<longrightarrow> jr_started_at r' = jr_started_at r) \<and>
    (Status_Terminal (jr_status r) \<longrightarrow> jr_status r' = jr_status r \<and> jr_error_code r' = jr_error_code r \<and>
      jr_progress_percent r' = jr_progress_percent r \<and> jr_completed_at r' = jr_completed_at r) \<and>
    (active_status (jr_status r') \<and> jr_attempt_count r' = jr_attempt_count r \<longrightarrow>
      active_status (jr_status r) \<and> jr_progress_percent r \<le> jr_progress_percent r')"
proof -
  obtain r' where r': "r' \<in> set (pdf_job (job_run m calls d))" "job_evolves r r'"
    using run_evolves [OF assms] by blast
  have good: "jobs_good m (job_run m calls d)" using job_run_changes [OF assms(1,2)] by blast
  then have state: "state_good r'" using jobs_good_row(1) r'(1) by (auto simp: job_row_good_def)
  obtain n where n: "n \<in> set (pdf_job (job_step m (flt, call) (job_run m calls d)))" "n = r' \<or> row_effect call r' n"
    using step_row [OF good r'(1)] by blast
  have "jr_id n = jr_id r \<and> (jr_status n \<noteq> jr_status r' \<longrightarrow> CanTransitionTo (jr_status r') (jr_status n) \<and>
      status_edge call (jr_status r') (jr_status n) \<and> jr_version n = jr_version r' + 1)"
    using n(2) effect_edge [OF _ state] effect_identity r'(2) by (auto simp: job_evolves_def same_identity_def)
  with n(1) show ?thesis
    by (intro bexI [OF _ r'(1)] conjI bexI [of _ n])
      (use r'(2) in \<open>auto simp: job_evolves_def same_identity_def same_outcome_def kept_def same_attempt_def\<close>)
qed

end
