(* ===== verification/Job_Lease.thy ===== *)
theory Job_Lease
  imports Job_Lifecycle
begin

text \<open>
  The lease of a worker as an interface: the locale \<open>lease_queue\<close> names the steps of a queue
  and the lease it records for a job, and proves over any sequence of steps that a lease lasts
  until it is given up or runs out. The store of the package \<open>job\<close> is an interpretation.
\<close>

subsection \<open>The interface\<close>

text \<open>
  \<open>lease d j\<close> is the worker and the deadline recorded for the job \<open>j\<close>; \<open>ends c j l\<close> says that
  the call \<open>c\<close> may give up or renew the lease \<open>l\<close>, \<open>takes c w\<close> that it claims work for \<open>w\<close>.
\<close>

locale lease_queue =
  fixes step :: "'c \<Rightarrow> 'd \<Rightarrow> 'd" and inv :: "'d \<Rightarrow> bool" and sane :: "'c \<Rightarrow> bool"
    and lease :: "'d \<Rightarrow> string \<Rightarrow> (string \<times> instant) option"
    and ends :: "'c \<Rightarrow> string \<Rightarrow> string \<times> instant \<Rightarrow> bool" and takes :: "'c \<Rightarrow> string \<Rightarrow> bool"
  assumes step_inv: "inv d \<Longrightarrow> sane c \<Longrightarrow> inv (step c d)"
    and lease_kept: "inv d \<Longrightarrow> sane c \<Longrightarrow> lease d j = Some l \<Longrightarrow> \<not> ends c j l \<Longrightarrow> lease (step c d) j = Some l"
    and lease_taken: "inv d \<Longrightarrow> sane c \<Longrightarrow> lease d j = None \<Longrightarrow> lease (step c d) j = Some (w, e) \<Longrightarrow> takes c w"
    and same_holder: "inv d \<Longrightarrow> sane c \<Longrightarrow> lease d j = Some (w, e) \<Longrightarrow> lease (step c d) j = Some (w', e') \<Longrightarrow> w' = w"
begin

lemma run_inv: "inv d \<Longrightarrow> \<forall>c \<in> set cs. sane c \<Longrightarrow> inv (fold step cs d)"
  by (induction cs arbitrary: d) (auto intro: step_inv)

lemma lease_survives:
  "inv d \<Longrightarrow> \<forall>c \<in> set cs. sane c \<and> \<not> ends c j l \<Longrightarrow> lease d j = Some l \<Longrightarrow> lease (fold step cs d) j = Some l"
  by (induction cs arbitrary: d) (auto intro: step_inv lease_kept)

text \<open>A lease passes to another worker only through a moment at which nobody has it.\<close>

lemma holder_changes:
  assumes "inv d" and "\<forall>c \<in> set cs. sane c" and "lease d j = Some (w, e)"
    and "lease (fold step cs d) j = Some (w', e')" and "w' \<noteq> w"
  shows "\<exists>pre c post. cs = pre @ c # post \<and> lease (fold step pre d) j = None \<and> takes c w'"
  using assms(2-5)
proof (induction cs arbitrary: w' e' rule: rev_induct)
  case (snoc c cs)
  have good: "inv (fold step cs d)" using run_inv [OF assms(1)] snoc.prems by simp
  show ?case
  proof (cases "lease (fold step cs d) j")
    case None
    with lease_taken [OF good _ None, of c w' e'] snoc.prems show ?thesis
      by (intro exI [of _ cs] exI [of _ c] exI [of _ "[]"]) simp
  next
    case (Some l)
    obtain v f where l: "l = (v, f)" by fastforce
    have "w' = v" by (rule same_holder [OF good]) (use Some l snoc.prems in auto)
    with snoc.IH [of v f] snoc.prems Some l obtain pre b post
      where "cs = pre @ b # post" "lease (fold step pre d) j = None" "takes b w'" by auto
    then show ?thesis by (intro exI [of _ pre] exI [of _ b] exI [of _ "post @ [c]"]) simp
  qed
qed simp

end

subsection \<open>Leases of the job table\<close>

definition row_lease :: "job_row \<Rightarrow> (string \<times> instant) option" where
  "row_lease r = (case (jr_lease_owner r, jr_lease_expires_at r) of (Some w, Some e) \<Rightarrow> Some (w, e) | _ \<Rightarrow> None)"

definition lease_of :: "'z job_db_scheme \<Rightarrow> string \<Rightarrow> (string \<times> instant) option" where
  "lease_of d j = (case find (\<lambda>r. jr_id r = j) (pdf_job d) of None \<Rightarrow> None | Some r \<Rightarrow> row_lease r)"

text \<open>
  A worker renews or gives up its own lease with \<open>Heartbeat\<close> and \<open>Transition\<close>; a recovery whose
  clock has passed the deadline ends it.
\<close>

fun ends_lease :: "job_call \<Rightarrow> string \<Rightarrow> string \<times> instant \<Rightarrow> bool" where
  "ends_lease (Call_Heartbeat j' w' t lease) j (w, e) \<longleftrightarrow> j' = j \<and> w' = w"
| "ends_lease (Call_Transition t) j (w, e) \<longleftrightarrow> tr_JobID t = j \<and> tr_WorkerID t = w"
| "ends_lease (Call_Recover locked q) j (w, e) \<longleftrightarrow> e \<le> rr_ObservedAt q"
| "ends_lease _ j l \<longleftrightarrow> False"

definition claims_for :: "job_call \<Rightarrow> string \<Rightarrow> bool" where
  "claims_for call w \<longleftrightarrow> (case call of Call_Claim locked w' t lease \<Rightarrow> w' = w | _ \<Rightarrow> False)"

lemma step_good: "jobs_good m d \<Longrightarrow> sane_job_call call \<Longrightarrow> jobs_good m (job_step m (flt, call) d)"
  using job_step_change store_change_keeps by metis

lemma find_job:
  assumes "jobs_good m d" and "r \<in> set (pdf_job d)"
  shows "find (\<lambda>q. jr_id q = jr_id r) (pdf_job d) = Some r"
  by (rule find_distinct_key [OF _ assms(2)]) (use assms(1) in \<open>simp add: jobs_good_def\<close>)

text \<open>Where a row of the next state comes from.\<close>

lemma row_origin:
  assumes good: "jobs_good m d" and sane: "sane_job_call call" and r': "r' \<in> set (pdf_job (job_step m (flt, call) d))"
  shows "(\<exists>r \<in> set (pdf_job d). jr_id r = jr_id r' \<and> (r' = r \<or> row_effect call r r'))
    \<or> (row_lease r' = None \<and> jr_id r' \<notin> jr_id ` set (pdf_job d))"
proof (cases "jr_id r' \<in> jr_id ` set (pdf_job d)")
  case True
  then obtain r where r: "r \<in> set (pdf_job d)" "jr_id r = jr_id r'" by auto
  obtain q where q: "q \<in> set (pdf_job (job_step m (flt, call) d))" "q = r \<or> row_effect call r q"
    using step_row [OF good r(1)] by blast
  then have "jr_id q = jr_id r'" using r effect_identity by (auto simp: same_identity_def)
  then have "q = r'" by (rule the_job [OF step_good [OF good sane] r' q(1)])
  with q r show ?thesis by auto
next
  case False
  then have "r' \<notin> set (pdf_job d)" by auto
  with r' have "store_change m d (job_step m (flt, call) d)"
    using job_step_change [OF good sane] by metis
  moreover have "\<not> upload_change m d (job_step m (flt, call) d)"
    using upload_change_jobs r' \<open>r' \<notin> set (pdf_job d)\<close> by metis
  ultimately have "job_change d (job_step m (flt, call) d)" by (simp add: store_change_def)
  then have "row_lease r' = None"
  proof cases
    case (queued s u row)
    then show ?thesis
      using r' \<open>r' \<notin> set (pdf_job d)\<close> by (auto simp: row_lease_def insert_job_row_def split: prod.split)
  next
    case (worked f)
    then obtain r where "r \<in> set (pdf_job d)" "r' = f r" using r' by auto
    with worked(2) False show ?thesis
      by (auto simp: list_all_iff same_identity_def dest!: move_identity)
  qed
  with False show ?thesis by blast
qed

lemma lease_of_row: "jobs_good m d \<Longrightarrow> r \<in> set (pdf_job d) \<Longrightarrow> lease_of d (jr_id r) = row_lease r"
  by (simp add: lease_of_def find_job)

lemma lease_of_Some:
  "lease_of d j = Some l \<Longrightarrow> \<exists>r \<in> set (pdf_job d). jr_id r = j \<and> row_lease r = Some l"
  by (auto simp: lease_of_def split: option.splits dest!: find_Some_in)

lemma row_lease_active:
  "job_row_good r \<Longrightarrow> row_lease r = Some (w, e) \<Longrightarrow>
    active_status (jr_status r) \<and> jr_lease_owner r = Some w \<and> jr_lease_expires_at r = Some e \<and> pg_aligned e"
  by (auto simp: job_row_good_def state_good_def lease_good_def row_lease_def split: if_splits option.splits)

text \<open>What a call does to the lease of a row it rewrites.\<close>

lemma effect_lease:
  assumes good: "job_row_good r" and e: "row_effect call r r'" and l: "row_lease r = Some (w, e)"
  shows "(\<not> ends_lease call (jr_id r) (w, e) \<longrightarrow> row_lease r' = Some (w, e)) \<and>
    (\<forall>w' e'. row_lease r' = Some (w', e') \<longrightarrow> w' = w)"
proof -
  note A = row_lease_active [OF good l]
  have cols: "jr_lease_owner r = Some w" "jr_lease_expires_at r = Some e" "active_status (jr_status r)"
    using A by blast+
  have keep: "row_lease q = Some (w, e)" if "jr_lease_owner q = Some w" "jr_lease_expires_at q = Some e" for q
    using that by (simp add: row_lease_def)
  show ?thesis
  proof (cases call)
    case (Call_Claim locked w' t lease)
    with e cols(3) show ?thesis by (simp add: claimable_def)
  next
    case (Call_Heartbeat j' w' t lease)
    then have "jr_id r = j'" "w' = w" "r' = set_renewed (pg_time t) (pg_time lease) r"
      using e cols by (simp_all add: holds_lease_def)
    with Call_Heartbeat show ?thesis using l cols by (simp add: set_renewed_def row_lease_def)
  next
    case (Call_Transition t)
    then have "jr_id r = tr_JobID t" "tr_WorkerID t = w" "r' = set_moved t r"
      using e cols by (simp_all add: movable_def holds_lease_def)
    with Call_Transition show ?thesis using cols by (simp add: set_moved_def Let_def row_lease_def)
  next
    case (Call_Recover locked q)
    then have "e \<le> pg_time (rr_ObservedAt q)" "row_lease r' = None"
      using e cols by (simp_all add: lease_expired_def set_recovered_def row_lease_def)
    then have "e \<le> rr_ObservedAt q" using pg_time_le [of "rr_ObservedAt q"] by linarith
    with Call_Recover \<open>row_lease r' = None\<close> show ?thesis by simp
  qed (use e cols in \<open>simp_all add: set_cancel_def set_deleted_def row_lease_def\<close>)
qed

lemma effect_claims:
  assumes e: "row_effect call r r'" and l: "row_lease r = None" "row_lease r' = Some (w, e)" and good: "job_row_good r"
  shows "claims_for call w"
proof -
  have "\<not> active_status (jr_status r)"
    using good l(1) by (auto simp: job_row_good_def state_good_def lease_good_def row_lease_def split: if_splits)
  with e l show ?thesis
    by (cases call)
      (auto simp: row_lease_def claims_for_def set_cancel_def set_deleted_def set_claimed_def movable_def
        holds_lease_def lease_expired_def)
qed

interpretation job_leases: lease_queue "job_step m" "jobs_good m" "\<lambda>(flt, call). sane_job_call call" lease_of
  "\<lambda>(flt, call). ends_lease call" "\<lambda>(flt, call). claims_for call" for m
proof (unfold_locales, goal_cases)
  case (1 d c)
  then show ?case by (cases c) (simp add: step_good)
next
  case (2 d c j l)
  obtain flt call where c: "c = (flt, call)" by fastforce
  obtain w e where l: "l = (w, e)" by fastforce
  obtain r where r: "r \<in> set (pdf_job d)" "jr_id r = j" "row_lease r = Some l"
    using lease_of_Some [OF 2(3)] by blast
  obtain r' where r': "r' \<in> set (pdf_job (job_step m c d))" "r' = r \<or> row_effect call r r'"
    using step_row [OF 2(1) r(1)] c by blast
  then have "jr_id r' = j" using r effect_identity by (auto simp: same_identity_def)
  moreover have "row_lease r' = Some l"
    using r' r effect_lease [OF jobs_good_row(1) [OF 2(1) r(1)], of call r'] 2(4) c l by auto
  ultimately show ?case using lease_of_row [OF step_good [OF 2(1)]] r'(1) 2(2) c by auto
next
  case (3 d c j w e)
  obtain flt call where c: "c = (flt, call)" by fastforce
  obtain r' where r': "r' \<in> set (pdf_job (job_step m c d))" "jr_id r' = j" "row_lease r' = Some (w, e)"
    using lease_of_Some [OF 3(4)] by blast
  then obtain r where r: "r \<in> set (pdf_job d)" "jr_id r = j" "r' = r \<or> row_effect call r r'"
    using row_origin [OF 3(1), of call r' flt] 3(2) c by auto
  have "row_lease r = None" using lease_of_row [OF 3(1) r(1)] 3(3) r(2) by simp
  with r r' effect_claims [of call r r' w e] jobs_good_row(1) [OF 3(1) r(1)] c show ?case by auto
next
  case (4 d c j w e w' e')
  obtain flt call where c: "c = (flt, call)" by fastforce
  obtain r' where r': "r' \<in> set (pdf_job (job_step m c d))" "jr_id r' = j" "row_lease r' = Some (w', e')"
    using lease_of_Some [OF 4(4)] by blast
  then obtain r where r: "r \<in> set (pdf_job d)" "jr_id r = j" "r' = r \<or> row_effect call r r'"
    using row_origin [OF 4(1), of call r' flt] 4(2) c by auto
  have l: "row_lease r = Some (w, e)" using lease_of_row [OF 4(1) r(1)] 4(3) r(2) by simp
  show ?case
  proof (cases "r' = r")
    case True
    with l r'(3) show ?thesis by simp
  next
    case False
    with r(3) have "row_effect call r r'" by blast
    from effect_lease [OF jobs_good_row(1) [OF 4(1) r(1)] this l] r'(3) show ?thesis by blast
  qed
qed

end
