(* ===== verification/Job_Properties.thy ===== *)
theory Job_Properties
  imports Job_Lease
begin

text \<open>
  Properties of the worker queue and of the owner's operations on jobs: exclusive leases,
  claims in order and bounded in number, stale workers, recovery, cancellation, deletion and
  creation.
\<close>

subsection \<open>Leases\<close>

text \<open>
  C20. A lease is exclusive while it lasts. Once a worker holds a job until a deadline, no
  calls of owners, of other workers, or of recoveries whose clock has not reached the deadline
  change or take the lease, whatever they do and however the database fails.
\<close>

theorem lease_is_exclusive:
  assumes "jobs_good m d" and "lease_of d j = Some (w, e)"
    and "\<forall>(flt, call) \<in> set calls. sane_job_call call \<and> \<not> ends_lease call j (w, e)"
  shows "lease_of (job_run m calls d) j = Some (w, e)"
  unfolding job_run_def
  by (rule job_leases.lease_survives [OF assms(1) _ assms(2)]) (use assms(3) in auto)

text \<open>
  A job passes from one worker to another only through a moment at which nobody holds
  it, followed by a claim of the new worker: leases are never handed over directly.
\<close>

lemma leases_change_hands_by_claim:
  assumes "jobs_good m d" and "sane_run calls" and "lease_of d j = Some (w, e)"
    and "lease_of (job_run m calls d) j = Some (w', e')" and "w' \<noteq> w"
  shows "\<exists>pre flt call post. calls = pre @ (flt, call) # post \<and>
    lease_of (job_run m pre d) j = None \<and> claims_for call w'"
  using job_leases.holder_changes [OF assms(1) _ assms(3), of calls w' e'] assms(2,4,5)
  unfolding job_run_def by fastforce

subsection \<open>Claims\<close>

text \<open>A good database that is asked for a version or an attempt number within its integer types.\<close>

definition versions_left :: "'z job_db_scheme \<Rightarrow> bool" where
  "versions_left d \<longleftrightarrow> (\<forall>r \<in> set (pdf_job d). jr_version r < MaxInt64)"

lemma good_check: "job_row_good r \<Longrightarrow> job_row_check r"
  by (simp add: job_row_good_def)

lemma claim_check:
  assumes good: "job_row_good r" and "claimable at r" and "validWorkerID w" and "jr_version r < MaxInt64"
  shows "job_row_check (set_claimed w at lease r)"
proof -
  have C: "job_row_check r" by (rule good_check [OF good])
  have t: "jr_created_at r \<le> at"
    using C assms(2) by (simp add: job_row_check_def pdf_job_timestamp_order_def claimable_def)
  have s: "null_or (\<lambda>t. jr_created_at r \<le> t) (coalesce (jr_started_at r) (max at (jr_created_at r)))"
    using C by (cases "jr_started_at r") (simp_all add: job_row_check_def pdf_job_timestamp_order_def)
  have "length w \<le> 255" using assms(3) by (simp add: validWorkerID_def validBoundedText_def maxIdentityTextBytes_def)
  with C t s assms(2,4) show ?thesis
    by (simp add: job_check_defs set_claimed_def claimable_def le_max_iff_disj)
qed

lemma checked_update_at:
  assumes good: "jobs_good m d" and r: "r \<in> set (pdf_job d)" and "job_row_check (f r)"
  shows "sql_checked_update job_row_check (\<lambda>q. jr_id q = jr_id r) f (pdf_job d)
    = Some (sql_update (\<lambda>q. jr_id q = jr_id r) f (pdf_job d))"
  using assms the_job [OF good r] by (auto simp: sql_checked_update_def list_all_iff)

lemma claim_path:
  assumes "pg_Claim flt locked w t lease d = (Inr job, d')"
  obtains r where "r \<in> set (pdf_job d)" "claimable (pg_time t) r" "jr_id r \<notin> set locked"
    "\<forall>q \<in> set (pdf_job d). claimable (pg_time t) q \<and> jr_id q \<notin> set locked \<longrightarrow> claim_order r \<le> claim_order q"
    "job = job_view (set_claimed w (pg_time t) (pg_time lease) r)"
    "d' = d\<lparr>pdf_job := sql_update (\<lambda>q. jr_id q = jr_id r) (set_claimed w (pg_time t) (pg_time lease)) (pdf_job d)\<rparr>"
proof (cases "sort_key claim_order (filter (\<lambda>r. claimable (pg_time t) r \<and> jr_id r \<notin> set locked) (pdf_job d))")
  case Nil
  with assms show ?thesis
    by (auto simp: pg_Claim_def Let_def finish_Inr_iff split: option.splits if_splits)
next
  case (Cons c rest)
  let ?f = "set_claimed w (pg_time t) (pg_time lease)"
  obtain rows where rows: "sql_checked_update job_row_check (\<lambda>r. jr_id r = jr_id c) ?f (pdf_job d) = Some rows"
    using assms Cons by (auto simp: pg_Claim_def Let_def split: option.splits if_splits)
  have "scanJob (?f c) = Inr job \<and> d' = d\<lparr>pdf_job := rows\<rparr>"
    using assms Cons rows
    by (auto simp: pg_Claim_def Let_def finish_Inr_iff split: option.splits if_splits sum.splits)
  moreover have "rows = sql_update (\<lambda>r. jr_id r = jr_id c) ?f (pdf_job d)"
    using rows by (auto simp: sql_checked_update_def split: if_splits)
  ultimately show ?thesis
    using that [of c] claim_candidate [OF Cons] scanned_is_view by auto
qed

lemma claim_live:
  assumes good: "jobs_good m d" and v: "versions_left d" and "validateClaim w t lease = None" and "pg_text w"
    and ex: "\<exists>r \<in> set (pdf_job d). claimable (pg_time t) r \<and> jr_id r \<notin> set locked"
  shows "\<not> isl (fst (pg_Claim all_ok locked w t lease d))"
proof (cases "sort_key claim_order (filter (\<lambda>r. claimable (pg_time t) r \<and> jr_id r \<notin> set locked) (pdf_job d))")
  case Nil
  then have "set (sort_key claim_order (filter (\<lambda>r. claimable (pg_time t) r \<and> jr_id r \<notin> set locked) (pdf_job d))) = {}"
    by simp
  with ex show ?thesis by auto
next
  case (Cons c rest)
  let ?f = "set_claimed w (pg_time t) (pg_time lease)"
  have c: "c \<in> set (pdf_job d)" "claimable (pg_time t) c" using claim_candidate [OF Cons] by auto
  note G = jobs_good_row(1) [OF good c(1)] and T = claim_times [OF assms(3)]
  have chk: "job_row_check (?f c)"
    by (rule claim_check [OF G c(2)]) (use T v c(1) in \<open>simp_all add: versions_left_def\<close>)
  have "job_row_good (?f c)"
    by (rule move_keeps_good [OF claimed [OF c(2) _ _ _ chk] G]) (use T in simp_all)
  then have "scanJob (?f c) = Inr (job_view (?f c))" by (rule scan_stored_job)
  with Cons assms(3,4) show ?thesis
    by (simp add: pg_Claim_def Let_def checked_update_at [OF good c(1), of ?f, OF chk])
qed

text \<open>
  C21. A claim takes the oldest eligible job: of the queued jobs that are available, unexpired,
  not stopped, below their attempt limit and not locked by a concurrent claim, it takes one that
  comes first by availability, creation and ID; it starts one attempt and gives the worker the
  lease, and it touches no other row. When the database answers, a claim succeeds exactly when
  there is an eligible job, and returns \<open>ErrNoJobAvailable\<close> otherwise.
\<close>

theorem claim_takes_oldest_eligible:
  assumes good: "jobs_good m d" and v: "versions_left d" and "validateClaim w t lease = None" and "pg_text w"
  shows "(pg_Claim flt locked w t lease d = (Inr job, d') \<longrightarrow>
      (\<exists>r \<in> set (pdf_job d). job_ID job = jr_id r \<and> claimable (pg_time t) r \<and> jr_id r \<notin> set locked \<and>
        (\<forall>q \<in> set (pdf_job d). claimable (pg_time t) q \<and> jr_id q \<notin> set locked \<longrightarrow> claim_order r \<le> claim_order q) \<and>
        job_Status job = StatusAnalyzing \<and> job_AttemptCount job = jr_attempt_count r + 1 \<and>
        job_AttemptCount job \<le> job_MaxAttempts job \<and> lease_of d' (jr_id r) = Some (w, pg_time lease) \<and>
        (\<forall>q \<in> set (pdf_job d). jr_id q \<noteq> jr_id r \<longrightarrow> q \<in> set (pdf_job d')))) \<and>
    (fst (pg_Claim all_ok locked w t lease d) = Inl (Sentinel ErrNoJobAvailable) \<longleftrightarrow>
      \<not> (\<exists>r \<in> set (pdf_job d). claimable (pg_time t) r \<and> jr_id r \<notin> set locked)) \<and>
    ((\<exists>r \<in> set (pdf_job d). claimable (pg_time t) r \<and> jr_id r \<notin> set locked) \<longrightarrow>
      \<not> isl (fst (pg_Claim all_ok locked w t lease d)))"
proof (intro conjI impI)
  let ?f = "set_claimed w (pg_time t) (pg_time lease)"
  assume "pg_Claim flt locked w t lease d = (Inr job, d')"
  then obtain r where r: "r \<in> set (pdf_job d)" "claimable (pg_time t) r" "jr_id r \<notin> set locked"
      and least: "\<forall>q \<in> set (pdf_job d). claimable (pg_time t) q \<and> jr_id q \<notin> set locked \<longrightarrow> claim_order r \<le> claim_order q"
      and job: "job = job_view (?f r)"
      and d': "d' = d\<lparr>pdf_job := sql_update (\<lambda>q. jr_id q = jr_id r) ?f (pdf_job d)\<rparr>"
    by (rule claim_path)
  have id: "jr_id (?f q) = jr_id q" for q by (simp add: set_claimed_def)
  have "find (\<lambda>q. jr_id q = jr_id r) (pdf_job d') = Some (?f r)"
    using find_job [OF good r(1)] by (simp add: d' find_sql_update id)
  then have "lease_of d' (jr_id r) = Some (w, pg_time lease)"
    by (simp add: lease_of_def row_lease_def set_claimed_def)
  with r least job show "\<exists>r \<in> set (pdf_job d). job_ID job = jr_id r \<and> claimable (pg_time t) r \<and> jr_id r \<notin> set locked \<and>
        (\<forall>q \<in> set (pdf_job d). claimable (pg_time t) q \<and> jr_id q \<notin> set locked \<longrightarrow> claim_order r \<le> claim_order q) \<and>
        job_Status job = StatusAnalyzing \<and> job_AttemptCount job = jr_attempt_count r + 1 \<and>
        job_AttemptCount job \<le> job_MaxAttempts job \<and> lease_of d' (jr_id r) = Some (w, pg_time lease) \<and>
        (\<forall>q \<in> set (pdf_job d). jr_id q \<noteq> jr_id r \<longrightarrow> q \<in> set (pdf_job d'))"
    by (intro bexI [OF _ r(1)]) (auto simp: d' set_sql_update set_claimed_def claimable_def)
next
  let ?P = "\<lambda>r. claimable (pg_time t) r \<and> jr_id r \<notin> set locked"
  note live = claim_live [OF good v assms(3,4), of locked]
  show "fst (pg_Claim all_ok locked w t lease d) = Inl (Sentinel ErrNoJobAvailable) \<longleftrightarrow> \<not> (\<exists>r \<in> set (pdf_job d). ?P r)"
  proof
    assume "fst (pg_Claim all_ok locked w t lease d) = Inl (Sentinel ErrNoJobAvailable)"
    with live show "\<not> (\<exists>r \<in> set (pdf_job d). ?P r)" by auto
  next
    assume "\<not> (\<exists>r \<in> set (pdf_job d). ?P r)"
    then have "filter ?P (pdf_job d) = []" by (auto simp: filter_empty_conv)
    with assms(3,4) show "fst (pg_Claim all_ok locked w t lease d) = Inl (Sentinel ErrNoJobAvailable)"
      by (simp add: pg_Claim_def Let_def)
  qed
next
  assume "\<exists>r \<in> set (pdf_job d). claimable (pg_time t) r \<and> jr_id r \<notin> set locked"
  then show "\<not> isl (fst (pg_Claim all_ok locked w t lease d))"
    by (rule claim_live [OF good v assms(3,4)])
qed

subsection \<open>Attempts\<close>

text \<open>How often a run gives out the job \<open>j\<close>, which nobody held before the call, to a worker.\<close>

fun times_claimed :: "mime \<Rightarrow> string \<Rightarrow> (faults \<times> job_call) list \<Rightarrow> 'z job_db_scheme \<Rightarrow> nat" where
  "times_claimed m j [] d = 0"
| "times_claimed m j (c # calls) d =
     (if lease_of d j = None \<and> lease_of (job_step m c d) j \<noteq> None then 1 else 0) +
     times_claimed m j calls (job_step m c d)"

lemma effect_attempt:
  assumes e: "row_effect call r r'" and l: "row_lease r = None" "row_lease r' \<noteq> None" and good: "job_row_good r"
  shows "jr_attempt_count r' = jr_attempt_count r + 1"
proof -
  have "\<not> active_status (jr_status r)"
    using good l(1) by (auto simp: job_row_good_def state_good_def lease_good_def row_lease_def split: if_splits)
  with e l show ?thesis
    by (cases call)
      (simp_all add: set_claimed_def holds_lease_def movable_def lease_expired_def,
       simp_all add: set_cancel_def set_deleted_def row_lease_def)
qed

lemma step_evolves:
  assumes "jobs_good m d" and "sane_job_call call" and "r \<in> set (pdf_job d)"
  shows "\<exists>r' \<in> set (pdf_job (job_step m (flt, call) d)). (r' = r \<or> row_effect call r r') \<and> job_evolves r r'"
proof -
  obtain r' where r': "r' \<in> set (pdf_job (job_step m (flt, call) d))" "r' = r \<or> row_effect call r r'"
    using step_row [OF assms(1,3)] by blast
  obtain q where q: "q \<in> set (pdf_job (job_step m (flt, call) d))" "job_evolves r q"
    using run_evolves [OF assms(1) _ assms(3), of "[(flt, call)]"] assms(2) by (auto simp: job_run_def)
  have "jr_id r' = jr_id r" "jr_id q = jr_id r"
    using r'(2) q(2) effect_identity by (auto simp: same_identity_def job_evolves_def)
  then have "q = r'" using the_job [OF step_good [OF assms(1,2)] r'(1) q(1)] by simp
  with r' q show ?thesis by blast
qed

text \<open>
  C22. Retries are bounded: from any state, however often workers crash and leases are
  recovered, a job is given to a worker at most as often as it has attempts left, so at most
  \<open>MaxAttempts\<close> times over its whole life.
\<close>

theorem claims_are_bounded:
  assumes "jobs_good m d" and "sane_run calls" and "r \<in> set (pdf_job d)"
  shows "int (times_claimed m (jr_id r) calls d) \<le> jr_max_attempts r - jr_attempt_count r"
  using assms
proof (induction calls arbitrary: d r)
  case Nil
  then have "job_row_good r" using jobs_good_row(1) by blast
  then show ?case by (simp add: job_row_good_def state_good_def attempts_good_def)
next
  case (Cons c calls)
  obtain flt call where c: "c = (flt, call)" by fastforce
  have sane: "sane_job_call call" "sane_run calls" using Cons.prems(2) c by auto
  obtain r' where r': "r' \<in> set (pdf_job (job_step m c d))" "r' = r \<or> row_effect call r r'" "job_evolves r r'"
    using step_evolves [OF Cons.prems(1) sane(1) Cons.prems(3)] c by blast
  have good: "jobs_good m (job_step m c d)" using step_good [OF Cons.prems(1) sane(1)] c by simp
  have same: "jr_id r' = jr_id r" "jr_max_attempts r' = jr_max_attempts r" "jr_attempt_count r \<le> jr_attempt_count r'"
    using r'(3) by (simp_all add: job_evolves_def same_identity_def)
  have "jr_attempt_count r' = jr_attempt_count r + 1"
    if "lease_of d (jr_id r) = None" "lease_of (job_step m c d) (jr_id r) \<noteq> None"
    using that lease_of_row [OF Cons.prems(1,3)] lease_of_row [OF good r'(1)] same(1)
      effect_attempt [OF _ _ _ jobs_good_row(1) [OF Cons.prems(1,3)]] r'(2) by auto
  with Cons.IH [OF good sane(2) r'(1)] same show ?case
    by (cases "lease_of d (jr_id r) = None \<and> lease_of (job_step m c d) (jr_id r) \<noteq> None") auto
qed

subsection \<open>Stale workers\<close>

lemma pdf_job_same [simp]: "d\<lparr>pdf_job := pdf_job d\<rparr> = (d :: 'z job_db_scheme)"
  by (cases d) simp

lemma update_returning_none:
  assumes "\<forall>r \<in> set (pdf_job d). \<not> P r"
  shows "update_returning flt op sendable P f missing d =
    (if sendable \<and> flt op = Call_Ok then Inl (Sentinel missing) else Inl (StorageError op), d)"
proof -
  have "sql_checked_update job_row_check P f (pdf_job d) = Some (pdf_job d)"
    using assms sql_update_id [of "pdf_job d" P f] by (simp add: sql_checked_update_def list_all_iff)
  moreover have "find P (pdf_job d) = None" using assms by (simp add: find_None_iff_in)
  ultimately show ?thesis
    by (simp add: update_returning_def Let_def finish_def split: dbcall.split)
qed

lemma no_lease_row:
  assumes good: "jobs_good m d" and "\<not> (\<exists>e. lease_of d j = Some (w, e) \<and> at < e)" and "r \<in> set (pdf_job d)"
  shows "\<not> holds_lease j w at r"
proof
  assume h: "holds_lease j w at r"
  then obtain e where "jr_lease_expires_at r = Some e" "at < e"
    by (auto simp: holds_lease_def split: option.splits)
  moreover from this h have "row_lease r = Some (w, e)" by (simp add: holds_lease_def row_lease_def)
  ultimately show False
    using assms(2) lease_of_row [OF good assms(3)] h by (auto simp: holds_lease_def)
qed

text \<open>
  C23. A worker that no longer holds the lease of a job, because it ran out, was recovered, or
  belongs to another worker, cannot write: its heartbeat and its transition are errors that change
  nothing, and the error is \<open>ErrLeaseLost\<close> when the database answers.
\<close>

theorem stale_worker_rejected:
  assumes "jobs_good m d" and "\<not> (\<exists>e. lease_of d j = Some (w, e) \<and> pg_time at < e)"
    and "tr_JobID t = j" and "tr_WorkerID t = w" and "tr_ObservedAt t = at"
  shows "snd (pg_Heartbeat flt j w at lease d) = d \<and> snd (fst (pg_Heartbeat flt j w at lease d)) \<noteq> None \<and>
    snd (pg_Transition flt t d) = d \<and> isl (fst (pg_Transition flt t d)) \<and>
    (validateHeartbeat j w at lease = None \<and> pg_text w \<longrightarrow>
      fst (pg_Heartbeat all_ok j w at lease d) = (None, Some (Sentinel ErrLeaseLost))) \<and>
    (validateTransition t = None \<and> pg_text w \<and> pg_text (tr_ProgressMessage t) \<and> pg_text (tr_ErrorCode t) \<and>
      pg_text (tr_ErrorMessage t) \<longrightarrow> fst (pg_Transition all_ok t d) = Inl (Sentinel ErrLeaseLost))"
proof -
  have none: "\<forall>r \<in> set (pdf_job d). \<not> holds_lease j w (pg_time at) r"
    using no_lease_row [OF assms(1,2)] by blast
  then have "\<forall>r \<in> set (pdf_job d). \<not> movable t r" by (simp add: movable_def assms(3-5))
  from none update_returning_none [OF this] update_returning_none [OF none] show ?thesis
    by (simp add: pg_Heartbeat_def pg_Transition_def assms(4) split: option.split)
qed

subsection \<open>Cancellation\<close>

lemma set_cancel_fixed: "\<not> open_for_cancel r \<Longrightarrow> set_cancel at r = r"
  by (cases "jr_cancel_requested_at r") (auto simp: set_cancel_def open_for_cancel_def)

lemma set_cancel_closed: "\<not> open_for_cancel (set_cancel at r)"
  by (simp add: open_for_cancel_def set_cancel_def)

lemma Cancel_path:
  assumes "jobs_good m d" and "pg_job_Cancel flt j owner t d = (Inr job, d')"
  obtains r where "r \<in> set (pdf_job d)" "owned_job j owner r" "jr_deletion_requested_at r = None"
    "job_row_good (set_cancel (pg_time t) r)" "job = job_view (set_cancel (pg_time t) r)"
    "d' = d\<lparr>pdf_job := sql_update (\<lambda>q. jr_id q = j) (set_cancel (pg_time t)) (pdf_job d)\<rparr>"
    "validUUID j" "valid_owner owner"
proof -
  have v: "validUUID j" "job_Owner_Validate owner = None" "\<not> IsZero t"
    using assms(2) by (auto simp: pg_job_Cancel_def split: if_splits)
  then have u: "update_returning flt ''cancel'' True (\<lambda>r. owned_job j owner r \<and> jr_deletion_requested_at r = None)
      (set_cancel (pg_time t)) JobErrNotFound d = (Inr job, d')"
    using assms(2) by (simp add: pg_job_Cancel_def)
  from v(2) have o: "valid_owner owner" by (simp add: job_Owner_Validate_None)
  from u obtain r where r: "r \<in> set (pdf_job d)" "owned_job j owner r \<and> jr_deletion_requested_at r = None"
      "job_row_check (set_cancel (pg_time t) r)" "job = job_view (set_cancel (pg_time t) r)"
      "d' = d\<lparr>pdf_job := sql_update (\<lambda>r. owned_job j owner r \<and> jr_deletion_requested_at r = None)
        (set_cancel (pg_time t)) (pdf_job d)\<rparr>"
    by (rule update_returning_Inr) blast
  have "job_row_good (set_cancel (pg_time t) r)"
    by (rule move_keeps_good [OF cancelled jobs_good_row(1) [OF assms(1) r(1)]]) (use r in simp_all)
  moreover have "owned_job j owner q \<and> jr_deletion_requested_at q = None \<longleftrightarrow> jr_id q = j" if "q \<in> set (pdf_job d)" for q
    using the_job [OF assms(1) r(1) that] r(2) by metis
  then have "sql_update (\<lambda>r. owned_job j owner r \<and> jr_deletion_requested_at r = None) (set_cancel (pg_time t)) (pdf_job d)
      = sql_update (\<lambda>q. jr_id q = j) (set_cancel (pg_time t)) (pdf_job d)"
    unfolding sql_update_def by (intro map_cong refl if_cong) simp
  ultimately show ?thesis using that [of r] r v(1) o by simp
qed

lemma find_updated_job:
  assumes "jobs_good m d" and "r \<in> set (pdf_job d)" and "\<And>q. jr_id (f q) = jr_id q"
  shows "find (\<lambda>q. jr_id q = jr_id r) (sql_update (\<lambda>q. jr_id q = jr_id r) f (pdf_job d)) = Some (f r)"
  using find_job [OF assms(1,2)] assms(3) by (simp add: find_sql_update)

lemma find_conj_key:
  assumes "find (\<lambda>q. jr_id q = j) t = Some r" and "P r" and "distinct (map jr_id t)"
  shows "find (\<lambda>q. (jr_id q = j \<and> P q)) t = Some r"
  using assms
proof (induction t)
  case (Cons q t)
  show ?case
  proof (cases "jr_id q = j")
    case False
    with Cons show ?thesis by simp
  qed (use Cons.prems in auto)
qed simp

text \<open>A second cancellation finds the row closed, and returns it as it is.\<close>

lemma closed_job_cancelled_again:
  assumes good: "jobs_good m d" and x: "x \<in> set (pdf_job d)" "owned_job j owner x" "jr_deletion_requested_at x = None"
    and closed: "\<not> open_for_cancel x" and "validUUID j" and "valid_owner owner" and "t \<noteq> 0"
  shows "pg_job_Cancel all_ok j owner t d = (Inr (job_view x), d)"
proof -
  let ?P = "\<lambda>q. owned_job j owner q \<and> jr_deletion_requested_at q = None"
  note fx = set_cancel_fixed [OF closed, of "pg_time t"]
  have "find (\<lambda>q. jr_id q = j) (pdf_job d) = Some x" using find_job [OF good x(1)] x(2) by simp
  then have f: "find (\<lambda>q. jr_id q = j \<and> (jr_owner q = owner_columns owner \<and> jr_deletion_requested_at q = None)) (pdf_job d) = Some x"
    by (rule find_conj_key) (use x good in \<open>simp_all add: jobs_good_def\<close>)
  have same: "set_cancel (pg_time t) q = q" if "q \<in> set (pdf_job d)" "?P q" for q
    using the_job [OF good x(1) that(1)] that(2) x(2) fx by auto
  have "job_row_check (set_cancel (pg_time t) q)" if "q \<in> set (pdf_job d)" "?P q" for q
    using same [OF that] good_check [OF jobs_good_row(1) [OF good that(1)]] by simp
  then have "sql_checked_update job_row_check ?P (set_cancel (pg_time t)) (pdf_job d) = Some (pdf_job d)"
    using same sql_update_id [of "pdf_job d" ?P "set_cancel (pg_time t)"]
    by (simp add: sql_checked_update_def list_all_iff)
  moreover have "job_Owner_Validate owner = None"
    using assms(7) by (simp add: job_Owner_Validate_None)
  ultimately show ?thesis
    using f fx scan_stored_job [OF jobs_good_row(1) [OF good x(1)]] assms(6,8)
    by (simp add: pg_job_Cancel_def update_returning_def IsZero_def conj_assoc)
qed

text \<open>A row with a recorded request keeps its attempt, and is cancelled or still active after any calls.\<close>

lemma cancel_request_stays:
  assumes good: "jobs_good m d" and "sane_run calls" and x: "x \<in> set (pdf_job d)" "jr_cancel_requested_at x \<noteq> None"
  shows "\<exists>q \<in> set (pdf_job (job_run m calls d)). jr_id q = jr_id x \<and>
    (jr_status q = StatusCancelled \<or> active_status (jr_status q)) \<and> jr_attempt_count q = jr_attempt_count x"
proof -
  obtain q where q: "q \<in> set (pdf_job (job_run m calls d))" "job_evolves x q"
    using run_evolves [OF good assms(2) x(1)] by blast
  have "job_row_good q" using job_run_changes [OF good assms(2)] jobs_good_row(1) q(1) by blast
  moreover have "jr_cancel_requested_at q \<noteq> None" using q(2) x(2) by (auto simp: job_evolves_def kept_def)
  ultimately have "jr_status q = StatusCancelled \<or> active_status (jr_status q)"
    by (simp add: job_row_good_def state_good_def intent_good_def)
  moreover have "jr_attempt_count q = jr_attempt_count x"
    using q(2) x(2) by (simp add: job_evolves_def same_attempt_def)
  ultimately show ?thesis using q by (auto simp: job_evolves_def same_identity_def)
qed

text \<open>
  C24. Cancellation is effective and idempotent. \<open>Cancel\<close> stops a queued job at once, records
  the request on a running one and leaves its status to the worker, and does not change a
  stopped one; a second \<open>Cancel\<close> returns the same job and changes nothing. Once a request is
  recorded, no later calls can claim the job again, complete it or fail it: it stays
  cancelled, or on its way there under the lease it has.
\<close>

theorem cancellation_effective_idempotent:
  assumes good: "jobs_good m d" and c: "pg_job_Cancel flt j owner t d = (Inr job, d')" and "t' \<noteq> 0" and "sane_run calls"
  shows "\<exists>r \<in> set (pdf_job d). owned_job j owner r \<and> job_ID job = j \<and>
    (jr_status r = StatusQueued \<longrightarrow> job_Status job = StatusCancelled) \<and>
    (active_status (jr_status r) \<longrightarrow> job_Status job = jr_status r) \<and>
    (Status_Terminal (jr_status r) \<longrightarrow> job = job_view r \<and> d' = d) \<and>
    (\<not> Status_Terminal (jr_status r) \<longrightarrow> job_CancelRequestedAt job \<noteq> None) \<and>
    pg_job_Cancel all_ok j owner t' d' = (Inr job, d') \<and>
    (job_CancelRequestedAt job \<noteq> None \<longrightarrow> (\<exists>q \<in> set (pdf_job (job_run m calls d')). jr_id q = j \<and>
      (jr_status q = StatusCancelled \<or> active_status (jr_status q)) \<and> jr_attempt_count q = job_AttemptCount job))"
proof -
  let ?f = "set_cancel (pg_time t)"
  from Cancel_path [OF good c] obtain r where r: "r \<in> set (pdf_job d)" "owned_job j owner r"
      "jr_deletion_requested_at r = None" "job_row_good (?f r)" "job = job_view (?f r)"
      "d' = d\<lparr>pdf_job := sql_update (\<lambda>q. jr_id q = j) ?f (pdf_job d)\<rparr>" "validUUID j" "valid_owner owner" .
  note G = jobs_good_row(1) [OF good r(1)]
  have id: "jr_id (?f q) = jr_id q" "jr_owner (?f q) = jr_owner q"
      "jr_deletion_requested_at (?f q) = jr_deletion_requested_at q" for q
    by (simp_all add: set_cancel_def)
  have good': "jobs_good m d'"
    using cancel_refines [OF c] job_change_keeps_invariant good by blast
  have x: "?f r \<in> set (pdf_job d')" "owned_job j owner (?f r)"
    using r(1,2) id by (auto simp: r(6) set_sql_update)
  have valid: "Status_Valid (jr_status r)" "jr_status r \<noteq> StatusJobExpired"
    using G by (simp_all add: job_row_good_def state_good_def outcome_good_def)
  have fixed: "?f r = r \<and> d' = d" if "Status_Terminal (jr_status r)"
  proof -
    have "?f r = r" using that by (intro set_cancel_fixed) (auto simp: open_for_cancel_def dest: active_not_terminal)
    moreover from this have "sql_update (\<lambda>q. jr_id q = j) ?f (pdf_job d) = pdf_job d"
      using the_job [OF good r(1)] r(2) by (intro sql_update_id) auto
    ultimately show ?thesis by (simp add: r(6))
  qed
  have requested: "jr_cancel_requested_at (?f r) \<noteq> None" if "\<not> Status_Terminal (jr_status r)"
    using that status_cases [OF valid that] by (auto simp: set_cancel_def)
  have again: "pg_job_Cancel all_ok j owner t' d' = (Inr job, d')"
    using closed_job_cancelled_again [OF good' x _ set_cancel_closed r(7,8) assms(3)] r(3,5) id by simp
  have stays: "\<exists>q \<in> set (pdf_job (job_run m calls d')). jr_id q = j \<and>
      (jr_status q = StatusCancelled \<or> active_status (jr_status q)) \<and> jr_attempt_count q = jr_attempt_count (?f r)"
    if "jr_cancel_requested_at (?f r) \<noteq> None"
    using cancel_request_stays [OF good' assms(4) x(1) that] x(2) by simp
  have status: "job_Status job = (if jr_status r = StatusQueued then StatusCancelled else jr_status r)"
      "job_ID job = j" "job_CancelRequestedAt job = jr_cancel_requested_at (?f r)" "job_AttemptCount job = jr_attempt_count (?f r)"
    using r(2,5) id by (simp_all add: set_cancel_def)
  have "active_status (jr_status r) \<Longrightarrow> job_Status job = jr_status r" using status(1) by auto
  moreover have "Status_Terminal (jr_status r) \<Longrightarrow> job = job_view r \<and> d' = d" using fixed r(5) by simp
  ultimately show ?thesis
    using r(2) status again requested stays by (intro bexI [OF _ r(1)]) simp
qed

subsection \<open>Deletion and creation\<close>

lemma deletion_marks:
  assumes good: "jobs_good m d" and r: "r \<in> set (pdf_job d)" "owned_job j owner r"
    and "pg_job_Delete flt j owner t d = (None, d')" and "validUUID j" and "valid_owner owner"
  shows "jobs_good m d' \<and> set_deleted (pg_time t) r \<in> set (pdf_job d')"
proof -
  have own: "job_Owner_Validate owner = None"
    using assms(6) by (simp add: job_Owner_Validate_None)
  then obtain rows where "sql_checked_update job_row_check (owned_job j owner) (set_deleted (pg_time t)) (pdf_job d) = Some rows"
      "d' = d\<lparr>pdf_job := rows\<rparr>"
    using assms(4,5) by (auto simp: pg_job_Delete_def Let_def finish_None_iff split: if_splits option.splits)
  then have "set_deleted (pg_time t) r \<in> set (pdf_job d')"
    using r by (auto simp: sql_checked_update_def set_sql_update split: if_splits)
  moreover have "jobs_good m d'"
    using delete_refines [OF assms(4)] job_change_keeps_invariant [OF _ good, of d'] good by auto
  ultimately show ?thesis by blast
qed

lemma find_tombstone:
  assumes "jobs_good m d" and "q \<in> set (pdf_job d)" and "jr_deletion_requested_at q \<noteq> None"
  shows "\<forall>r \<in> set (pdf_job d). \<not> (owned_job (jr_id q) owner r \<and> jr_deletion_requested_at r = None)"
proof (intro ballI notI)
  fix r assume "r \<in> set (pdf_job d)" "owned_job (jr_id q) owner r \<and> jr_deletion_requested_at r = None"
  moreover from this have "r = q" using the_job [OF assms(1,2)] by simp
  ultimately show False using assms(3) by simp
qed

lemma find_upload_job:
  assumes "jobs_good m d" and "q \<in> set (pdf_job d)"
  shows "find (\<lambda>r. jr_upload_id r = jr_upload_id q) (pdf_job d) = Some q"
  by (rule find_distinct_key [OF _ assms(2)]) (use assms(1) in \<open>simp add: jobs_good_def\<close>)

lemma Create_result:
  assumes "pg_job_Create flt s d = (Inr job, d')"
  obtains u r where "u \<in> set (upload_session d)" "committed_source (job_UploadID s) (job_Owner s) u"
    "validateJobSeed s = None" "job_row_check (insert_job_row s u)" "r \<in> set (pdf_job d')"
    "jr_upload_id r = job_UploadID s" "jr_owner r = owner_columns (job_Owner s)" "job = job_view r"
    "jr_deletion_requested_at r = None" "r \<in> set (pdf_job d) \<or> r = insert_job_row s u"
proof -
  have "d' \<noteq> d \<or> \<not> isl (Inr job :: job_err + Job)" by simp
  from pg_job_Create_change [OF assms this] obtain u r
    where u: "u \<in> set (upload_session d)" "committed_source (job_UploadID s) (job_Owner s) u"
      "validateJobSeed s = None" "job_row_check (insert_job_row s u)"
      and r: "find (\<lambda>r. jr_upload_id r = job_UploadID s) (pdf_job d) = Some r \<and> jr_owner r = owner_columns (job_Owner s) \<and> d' = d
       \<or> r = insert_job_row s u \<and> d' = d\<lparr>pdf_job := pdf_job d @ [r]\<rparr> \<and>
         (\<forall>q \<in> set (pdf_job d). jr_upload_id q \<noteq> job_UploadID s \<and> jr_id q \<noteq> job_ID s)"
      and j: "job = job_view r" "jr_deletion_requested_at r = None"
    by auto
  from r show ?thesis
  proof
    assume a: "find (\<lambda>r. jr_upload_id r = job_UploadID s) (pdf_job d) = Some r \<and> jr_owner r = owner_columns (job_Owner s) \<and> d' = d"
    then have "r \<in> set (pdf_job d)" "jr_upload_id r = job_UploadID s" using find_Some_in by force+
    with a that [of u r] u j show ?thesis by simp
  next
    assume a: "r = insert_job_row s u \<and> d' = d\<lparr>pdf_job := pdf_job d @ [r]\<rparr> \<and>
      (\<forall>q \<in> set (pdf_job d). jr_upload_id q \<noteq> job_UploadID s \<and> jr_id q \<noteq> job_ID s)"
    have "r \<in> set (pdf_job d')" using a by simp
    moreover have "jr_upload_id r = job_UploadID s" "jr_owner r = owner_columns (job_Owner s)"
      "r \<in> set (pdf_job d) \<or> r = insert_job_row s u" using a by simp_all
    ultimately show ?thesis using that [of u r] u j by blast
  qed
qed

lemma Create_existing:
  assumes "q \<in> set (pdf_job d)" and "jr_upload_id q = job_UploadID s"
  shows "snd (pg_job_Create flt s d) = d"
proof -
  have "find (\<lambda>r. jr_upload_id r = job_UploadID s) (pdf_job d) \<noteq> None"
    using assms by (auto simp: find_None_iff_in)
  then show ?thesis
    by (auto simp: pg_job_Create_def Let_def split: option.split)
qed

text \<open>
  C25. A deleted job is gone for its owner. Once \<open>Delete\<close> has reported success for a job, then
  after any further calls it is never returned again: \<open>Get\<close> and \<open>Cancel\<close> are errors,
  \<open>ErrNotFound\<close> when the database answers, and no new job can be made from its upload.
\<close>

theorem deleted_job_is_gone:
  assumes "jobs_good m d" and "r \<in> set (pdf_job d)" and "owned_job j owner r"
    and "pg_job_Delete flt j owner t d = (None, d')" and "validUUID j" and "valid_owner owner"
    and "sane_run calls" and "t' \<noteq> 0" and "d2 = job_run m calls d'"
    and "job_UploadID s = jr_upload_id r"
  shows "fst (pg_job_Get all_ok j owner d2) = Inl (Sentinel JobErrNotFound) \<and>
    isl (fst (pg_job_Get flt' j owner d2)) \<and>
    pg_job_Cancel all_ok j owner t' d2 = (Inl (Sentinel JobErrNotFound), d2) \<and>
    isl (fst (pg_job_Cancel flt' j owner t' d2)) \<and>
    isl (fst (pg_job_Create flt' s d2)) \<and> pdf_job (snd (pg_job_Create flt' s d2)) = pdf_job d2"
proof -
  let ?r = "set_deleted (pg_time t) r"
  note D = deletion_marks [OF assms(1-6)]
  obtain q where q: "q \<in> set (pdf_job d2)" "job_evolves ?r q"
    using run_evolves [OF D [THEN conjunct1] assms(7) D [THEN conjunct2]] assms(9) by blast
  have good: "jobs_good m d2" using job_run_changes D assms(7,9) by blast
  have same: "jr_id q = j" "jr_upload_id q = jr_upload_id r" "jr_deletion_requested_at q \<noteq> None"
    using q(2) assms(3) by (auto simp: job_evolves_def same_identity_def set_deleted_def kept_def)
  have gone: "\<forall>p \<in> set (pdf_job d2). \<not> (owned_job j owner p \<and> jr_deletion_requested_at p = None)"
    using find_tombstone [OF good q(1) same(3)] unfolding same(1) .
  then have none: "find (\<lambda>p. owned_job j owner p \<and> jr_deletion_requested_at p = None) (pdf_job d2) = None"
    by (auto simp: find_None_iff_in)
  have own: "job_Owner_Validate owner = None"
    using assms(6) by (simp add: job_Owner_Validate_None)
  have up: "jr_upload_id q = job_UploadID s" using same(2) assms(10) by simp
  have create: "isl (fst (pg_job_Create flt' s d2)) \<and> snd (pg_job_Create flt' s d2) = d2"
  proof (cases "fst (pg_job_Create flt' s d2)")
    case (Inr job)
    then have "pg_job_Create flt' s d2 = (Inr job, d2)"
      using Create_existing [OF q(1) up, of flt'] by (simp add: prod_eq_iff)
    then obtain p where "p \<in> set (pdf_job d2)" "jr_upload_id p = job_UploadID s" "jr_deletion_requested_at p = None"
      by (rule Create_result)
    then show ?thesis
      using find_upload_job [OF good q(1)] find_upload_job [OF good] up same(3) by force
  qed (simp add: Create_existing [OF q(1) up])
  have get: "isl (fst (pg_job_Get flt' j owner d2))" "fst (pg_job_Get all_ok j owner d2) = Inl (Sentinel JobErrNotFound)"
    using none own assms(5) by (simp_all add: pg_job_Get_def finish_def Let_def split: dbcall.split)
  have cancel: "isl (fst (pg_job_Cancel flt' j owner t' d2))"
      "pg_job_Cancel all_ok j owner t' d2 = (Inl (Sentinel JobErrNotFound), d2)"
    using own assms(5,8) update_returning_none [OF gone, of flt' "''cancel''" True "set_cancel (pg_time t')" JobErrNotFound]
      update_returning_none [OF gone, of all_ok "''cancel''" True "set_cancel (pg_time t')" JobErrNotFound]
    by (simp_all add: pg_job_Cancel_def IsZero_def)
  show ?thesis using get cancel create by simp
qed

text \<open>A stored job that is not deleted is read back by its owner.\<close>

lemma Get_stored_job:
  assumes good: "jobs_good m d" and r: "r \<in> set (pdf_job d)" "jr_owner r = owner_columns owner"
      "jr_deletion_requested_at r = None" and own: "valid_owner owner"
  shows "pg_job_Get all_ok (jr_id r) owner d = (Inr (job_view r), d)"
proof -
  note R = jobs_good_row(1) [OF good r(1)]
  have "find (\<lambda>q. jr_id q = jr_id r \<and> (jr_owner q = owner_columns owner \<and> jr_deletion_requested_at q = None))
      (pdf_job d) = Some r"
    by (rule find_conj_key [OF find_job [OF good r(1)]]) (use r good in \<open>simp_all add: jobs_good_def\<close>)
  moreover have "validUUID (jr_id r)" using R by (simp add: job_row_good_def identity_good_def)
  moreover have "job_Owner_Validate owner = None" using own by (simp add: job_Owner_Validate_None)
  ultimately show ?thesis
    using scan_stored_job [OF R] by (simp add: pg_job_Get_def conj_assoc)
qed

text \<open>A job is bound to the upload that was its source when it was created.\<close>

lemma job_of_committed_source:
  assumes good: "jobs_good m d" and r: "r \<in> set (pdf_job d)" "jr_upload_id r = us_id u" and u: "u \<in> set (upload_session d)"
  shows "from_upload u r"
proof -
  obtain u' where u': "u' \<in> set (upload_session d)" "from_upload u' r" using jobs_good_row(2) [OF good r(1)] by auto
  have "us_id u' = us_id u" using u'(2) r(2) by (simp add: from_upload_def)
  then have "u' = u" using the_row u u'(1) good by (metis jobs_good_def)
  with u'(2) show ?thesis by simp
qed

lemma stored_input_digest:
  assumes "job_row_good r"
  shows "SHA256_String (stored_digest (jr_input_sha256 r)) = jr_input_sha256 r"
proof -
  have "sha256_text (jr_input_sha256 r)"
    using good_check [OF assms] by (simp add: job_row_check_def pdf_job_input_metadata_valid_def)
  then obtain x where "ParseSHA256 (jr_input_sha256 r) = (Inr x :: upload_err + SHA256)"
    using sha256_text_digits by blast
  then show ?thesis using ParseSHA256_Inr by (auto simp: stored_digest_def)
qed

lemma creator_columns:
  assumes "validateCreator owner creator = None"
  shows "pdf_job_creator_snapshot_consistency (insert_job_row (s\<lparr>job_Owner := owner, job_Creator := creator\<rparr>) u)"
proof -
  have o: "valid_owner owner" using seed_creator [OF assms] by blast
  have K: "Kind owner = OwnerAnonymous \<or> Kind owner = OwnerAuthenticated"
    using o by (cases "Kind owner") (simp_all add: Owner_Validate_def)
  have words: "\<not> only_blanks v \<and> length v \<le> n" if "validBoundedText v n" for v n
    using that only_blanks_trimmed by (auto simp: validBoundedText_def)
  show ?thesis
    using K
  proof
    assume "Kind owner = OwnerAnonymous"
    then show ?thesis
      by (simp add: pdf_job_creator_snapshot_consistency_def insert_job_row_def creatorDatabaseValues_def owner_columns_def)
  next
    assume a: "Kind owner = OwnerAuthenticated"
    have c: "0 < ExternalID creator" "validBoundedText (Login creator) 255" "validBoundedText (Name creator) 255"
        "Email creator \<noteq> [] \<Longrightarrow> validBoundedText (Email creator) 320"
      using assms a by (auto simp: validateCreator_def maxIdentityTextBytes_def maxEmailBytes_def split: if_splits option.splits)
    show ?thesis
      using a c(1) words [OF c(2)] words [OF c(3)] words [OF c(4)]
      by (auto simp: pdf_job_creator_snapshot_consistency_def insert_job_row_def creatorDatabaseValues_def owner_columns_def)
  qed
qed

lemma pg_time_less: "s + Microsecond \<le> t \<Longrightarrow> pg_time s < pg_time t"
  using pg_time_bounds [of s] pg_time_bounds [of t] by (smt (verit))

text \<open>A seed that the database accepts, from the types of its fields and the precision of its times.\<close>

definition acceptable_seed :: "Job \<Rightarrow> bool" where
  "acceptable_seed s \<longleftrightarrow> validateJobSeed s = None \<and> creator_texts (job_Creator s) \<and>
     job_MaxAttempts s \<le> MaxInt32 \<and> job_CreatedAt s + Microsecond \<le> job_ExpiresAt s"

lemma seed_row_check:
  assumes "uploads_good m d" and "u \<in> set (upload_session d)" and "committed_source (job_UploadID s) (job_Owner s) u"
    and s: "acceptable_seed s"
  shows "job_row_check (insert_job_row s u)"
proof -
  have v: "validateJobSeed s = None" using s by (simp add: acceptable_seed_def)
  have c: "validateCreator (job_Owner s) (job_Creator s) = None"
      and n: "0 < job_TargetBytes s" "0 < job_MaxAttempts s" "\<not> job_times_invalid s"
    using v by (auto simp: validateJobSeed_def split: if_splits option.splits)
  have G: "upload_row_check u" using uploads_good_row(1) [OF assms(1,2)] by (simp add: upload_row_good_def)
  have o: "valid_owner (job_Owner s)" using seed_facts(4) [OF v] .
  have pos: "null_or (\<lambda>n. 0 < n) (fst (snd (owner_columns (job_Owner s))))"
    using o by (auto simp: Owner_Validate_def owner_columns_def ownerDatabaseValues_def split: OwnerKind.splits if_splits)
  have "pg_time (job_CreatedAt s) < pg_time (job_ExpiresAt s)" "pg_time (job_CreatedAt s) \<le> pg_time (job_UpdatedAt s)"
      "pg_time (job_CreatedAt s) \<le> pg_time (job_AvailableAt s)"
    using s n(3) by (simp_all add: acceptable_seed_def pg_time_less pg_time_mono job_times_invalid_def)
  moreover obtain e l w v where "creatorDatabaseValues (job_Owner s) (job_Creator s) = (e, l, w, v)"
    by (cases "creatorDatabaseValues (job_Owner s) (job_Creator s)")
  moreover have "s\<lparr>job_Owner := job_Owner s, job_Creator := job_Creator s\<rparr> = s" by simp
  moreover have "job_MaxAttempts s \<le> MaxInt32" using s by (simp add: acceptable_seed_def)
  ultimately show ?thesis
    using creator_columns [OF c, of s u] owner_columns_check [OF o] pos G assms(3) n(1,2)
    by (auto simp: job_row_check_def pdf_job_input_metadata_valid_def pdf_job_output_metadata_valid_def
      pdf_job_text_metadata_bounded_def pdf_job_timestamp_order_def pdf_job_columns_def insert_job_row_def
      upload_row_check_def committed_source_def)
qed

text \<open>Creating a job again for the upload of a stored one.\<close>

lemma Create_repeated:
  assumes good: "jobs_good m d" and q: "q \<in> set (pdf_job d)" "jr_upload_id q = job_UploadID s" "jr_owner q = owner_columns (job_Owner s)"
    and s: "acceptable_seed s"
  shows "pg_job_Create all_ok s d =
    (if jr_deletion_requested_at q = None then Inr (job_view q) else Inl (Sentinel JobErrConflict), d)"
proof -
  have U: "uploads_good m d" using good by (simp add: jobs_good_def)
  obtain u where u: "u \<in> set (upload_session d)" "from_upload u q" using jobs_good_row(2) [OF good q(1)] by blast
  note G = uploads_good_row [OF U u(1)]
  have src: "committed_source (job_UploadID s) (job_Owner s) u"
    using u(2) q(2,3) G
    by (auto simp: from_upload_def committed_source_def upload_row_good_def upload_row_check_def progress_good_def bytes_upto_def)
  obtain u' where u': "find (committed_source (job_UploadID s) (job_Owner s)) (upload_session d) = Some u'"
    using u(1) src by (cases "find (committed_source (job_UploadID s) (job_Owner s)) (upload_session d)") (auto simp: find_None_iff)
  have chk: "job_row_check (insert_job_row s u')" using seed_row_check [OF U _ _ s] find_Some_in [OF u'] by blast
  have f: "find (\<lambda>r. jr_upload_id r = job_UploadID s) (pdf_job d) = Some q"
    using find_upload_job [OF good q(1)] q(2) by simp
  have "created_job q = (if jr_deletion_requested_at q = None then Inr (job_view q) else Inl (Sentinel JobErrConflict))"
    using scan_stored_job [OF jobs_good_row(1) [OF good q(1)]] by (simp add: created_job_def)
  then show ?thesis
    using s u' chk f q(3) by (simp add: pg_job_Create_def acceptable_seed_def Let_def)
qed

text \<open>Only \<open>Delete\<close> marks a job as deleted.\<close>

lemma effect_deletion:
  "row_effect call r r' \<Longrightarrow> \<forall>owner t. call \<noteq> Call_Delete (jr_id r) owner t \<Longrightarrow>
    jr_deletion_requested_at r' = jr_deletion_requested_at r"
  by (cases call) (auto simp: set_cancel_def set_claimed_def set_renewed_def set_moved_def set_recovered_def Let_def)

lemma run_keeps_undeleted:
  assumes "jobs_good m d" and "sane_run calls" and "r \<in> set (pdf_job d)"
    and "\<forall>owner t. Call_Delete (jr_id r) owner t \<notin> snd ` set calls"
  shows "\<exists>q \<in> set (pdf_job (job_run m calls d)). job_evolves r q \<and> jr_deletion_requested_at q = jr_deletion_requested_at r"
  using assms
proof (induction calls arbitrary: d r)
  case (Cons c calls)
  obtain flt call where c: "c = (flt, call)" by fastforce
  have sane: "sane_job_call call" "sane_run calls" using Cons.prems(2) c by auto
  obtain a where a: "a \<in> set (pdf_job (job_step m c d))" "a = r \<or> row_effect call r a" "job_evolves r a"
    using step_evolves [OF Cons.prems(1) sane(1) Cons.prems(3)] c by blast
  have kept: "jr_deletion_requested_at a = jr_deletion_requested_at r"
  proof (cases "a = r")
    case False
    then have "row_effect call r a" using a(2) by blast
    moreover have "\<forall>owner t. call \<noteq> Call_Delete (jr_id r) owner t" using Cons.prems(4) c by auto
    ultimately show ?thesis by (rule effect_deletion)
  qed simp
  have "\<forall>owner t. Call_Delete (jr_id a) owner t \<notin> snd ` set calls"
    using Cons.prems(4) a(3) by (simp add: job_evolves_def same_identity_def)
  moreover have "jobs_good m (job_step m c d)" using step_good [OF Cons.prems(1) sane(1)] c by simp
  ultimately obtain q where q: "q \<in> set (pdf_job (job_run m calls (job_step m c d)))" "job_evolves a q"
      "jr_deletion_requested_at q = jr_deletion_requested_at a"
    using Cons.IH [OF _ sane(2) a(1)] by blast
  then show ?case using job_evolves_trans [OF a(3)] kept by (auto simp: job_run_def)
next
  case Nil
  then show ?case by (intro bexI [of _ r]) (simp_all add: job_run_def)
qed

lemma repeated_creation:
  assumes good: "jobs_good m d" and "sane_run calls" and r: "r \<in> set (pdf_job d)" "jr_upload_id r = job_UploadID s"
      "jr_owner r = owner_columns (job_Owner s)" and own: "valid_owner (job_Owner s)"
    and s2: "acceptable_seed s2" "job_UploadID s2 = job_UploadID s" "job_Owner s2 = job_Owner s"
  shows "(\<exists>q \<in> set (pdf_job (job_run m calls d)). jr_id q = jr_id r \<and> jr_upload_id q = job_UploadID s \<and>
      pg_job_Create all_ok s2 (job_run m calls d) =
        (if jr_deletion_requested_at q = None then Inr (job_view q) else Inl (Sentinel JobErrConflict), job_run m calls d)) \<and>
    (jr_deletion_requested_at r = None \<and> (\<forall>owner t. Call_Delete (jr_id r) owner t \<notin> snd ` set calls) \<longrightarrow>
      (\<exists>job2. pg_job_Create all_ok s2 (job_run m calls d) = (Inr job2, job_run m calls d) \<and>
        pg_job_Get all_ok (jr_id r) (job_Owner s) (job_run m calls d) = (Inr job2, job_run m calls d) \<and>
        job_ID job2 = jr_id r \<and> job_UploadID job2 = job_UploadID s \<and> job_Owner job2 = job_Owner s \<and>
        job_InputSHA256 job2 = job_InputSHA256 (job_view r) \<and> job_InputObjectKey job2 = jr_input_object_key r))"
proof -
  note G = conjunct2 [OF job_run_changes [OF good assms(2)]]
  have same: "jr_id q = jr_id r \<and> jr_upload_id q = job_UploadID s \<and> jr_owner q = owner_columns (job_Owner s) \<and>
      jr_input_sha256 q = jr_input_sha256 r \<and> jr_input_object_key q = jr_input_object_key r" if "job_evolves r q" for q
    using that r(2,3) by (simp add: job_evolves_def same_identity_def)
  have create: "pg_job_Create all_ok s2 (job_run m calls d) =
      (if jr_deletion_requested_at q = None then Inr (job_view q) else Inl (Sentinel JobErrConflict), job_run m calls d)"
    if "q \<in> set (pdf_job (job_run m calls d))" "job_evolves r q" for q
    using Create_repeated [OF G that(1) _ _ s2(1)] same [OF that(2)] s2(2,3) by simp
  obtain q where q: "q \<in> set (pdf_job (job_run m calls d))" "job_evolves r q"
    using run_evolves [OF good assms(2) r(1)] by blast
  have "\<exists>job2. pg_job_Create all_ok s2 (job_run m calls d) = (Inr job2, job_run m calls d) \<and>
      pg_job_Get all_ok (jr_id r) (job_Owner s) (job_run m calls d) = (Inr job2, job_run m calls d) \<and>
      job_ID job2 = jr_id r \<and> job_UploadID job2 = job_UploadID s \<and> job_Owner job2 = job_Owner s \<and>
      job_InputSHA256 job2 = job_InputSHA256 (job_view r) \<and> job_InputObjectKey job2 = jr_input_object_key r"
    if live: "jr_deletion_requested_at r = None" "\<forall>owner t. Call_Delete (jr_id r) owner t \<notin> snd ` set calls"
  proof -
    obtain q where q: "q \<in> set (pdf_job (job_run m calls d))" "job_evolves r q" "jr_deletion_requested_at q = None"
      using run_keeps_undeleted [OF good assms(2) r(1) live(2)] live(1) by auto
    have "pg_job_Get all_ok (jr_id r) (job_Owner s) (job_run m calls d) = (Inr (job_view q), job_run m calls d)"
      using Get_stored_job [OF G q(1) _ q(3) own] same [OF q(2)] by simp
    then show ?thesis
      using create [OF q(1,2)] q(3) same [OF q(2)] own by simp
  qed
  then show ?thesis using q create [OF q] same [OF q(2)] by blast
qed

text \<open>
  C26. A job processes exactly the verified content of its owner's committed upload: the file
  name, object key, size and digest of the job that \<open>Create\<close> returns are those of the upload,
  whatever the caller supplied, and the job can be read back at once. After any other calls, creating a
  job for the same upload adds nothing and returns no other job, whatever fails; and when the
  owner repeats it with a valid request and the database answers, it returns the same job as it is now, which
  \<open>Get\<close> returns as well, unless it has been deleted, which is a conflict.
\<close>

theorem job_created_once_from_upload:
  assumes good: "jobs_good m d" and "Microsecond \<le> job_CreatedAt s" and c: "pg_job_Create flt s d = (Inr job, d')"
    and "sane_run calls" and "job_UploadID s2 = job_UploadID s" and "d2 = job_run m calls d'"
  shows "(\<exists>u \<in> set (upload_session d). us_id u = job_UploadID s \<and> us_owner u = owner_columns (job_Owner s) \<and>
      us_status u = StatusCommitted \<and> us_received_bytes u = us_declared_size u \<and>
      us_committed_sha256 u = Some (SHA256_String (job_InputSHA256 job)) \<and> us_object_key u = job_InputObjectKey job \<and>
      us_declared_size u = job_InputBytes job \<and> us_original_filename u = job_OriginalFilename job) \<and>
    job_Owner job = job_Owner s \<and> pg_job_Get all_ok (job_ID job) (job_Owner s) d' = (Inr job, d') \<and>
    pdf_job (snd (pg_job_Create flt2 s2 d2)) = pdf_job d2 \<and>
    (\<forall>job2. fst (pg_job_Create flt2 s2 d2) = Inr job2 \<longrightarrow>
      job_ID job2 = job_ID job \<and> job_InputSHA256 job2 = job_InputSHA256 job) \<and>
    (acceptable_seed s2 \<and> job_Owner s2 = job_Owner s \<longrightarrow>
      (\<exists>q \<in> set (pdf_job d2). jr_id q = job_ID job \<and> jr_upload_id q = job_UploadID s \<and>
        pg_job_Create all_ok s2 d2 =
          (if jr_deletion_requested_at q = None then Inr (job_view q) else Inl (Sentinel JobErrConflict), d2)) \<and>
      ((\<forall>owner t. Call_Delete (job_ID job) owner t \<notin> snd ` set calls) \<longrightarrow>
        (\<exists>job2. pg_job_Create all_ok s2 d2 = (Inr job2, d2) \<and>
          pg_job_Get all_ok (job_ID job) (job_Owner s) d2 = (Inr job2, d2) \<and>
          job_ID job2 = job_ID job \<and> job_UploadID job2 = job_UploadID s \<and> job_Owner job2 = job_Owner s \<and>
          job_InputSHA256 job2 = job_InputSHA256 job \<and> job_InputObjectKey job2 = job_InputObjectKey job)))"
proof -
  have good': "jobs_good m d'"
    using create_refines [OF good assms(2) c] job_change_keeps_invariant [OF _ good, of d'] good by auto
  from Create_result [OF c] obtain u r where u: "u \<in> set (upload_session d)"
      "committed_source (job_UploadID s) (job_Owner s) u" "validateJobSeed s = None"
      and r: "r \<in> set (pdf_job d')" "jr_upload_id r = job_UploadID s" "jr_owner r = owner_columns (job_Owner s)"
        "job = job_view r" "jr_deletion_requested_at r = None" by metis
  note R = jobs_good_row [OF good' r(1)]
  have up: "upload_session d' = upload_session d"
    using c pg_job_Create_change [OF c] by auto
  have f: "from_upload u r"
    using job_of_committed_source [OF good' r(1)] u(1,2) r(2) up by (simp add: committed_source_def)
  have own: "valid_owner (job_Owner s)" using seed_facts(4) [OF u(3)] .
  have src: "us_id u = job_UploadID s \<and> us_owner u = owner_columns (job_Owner s) \<and> us_status u = StatusCommitted \<and>
      us_received_bytes u = us_declared_size u \<and> us_committed_sha256 u = Some (SHA256_String (job_InputSHA256 job)) \<and>
      us_object_key u = job_InputObjectKey job \<and> us_declared_size u = job_InputBytes job \<and>
      us_original_filename u = job_OriginalFilename job"
    using u(2) f r(4) stored_input_digest [OF R(1)] by (simp add: committed_source_def from_upload_def)
  have get: "pg_job_Get all_ok (job_ID job) (job_Owner s) d' = (Inr job, d')"
    using Get_stored_job [OF good' r(1,3,5) own] r(4) by simp
  obtain q where q: "q \<in> set (pdf_job d2)" "job_evolves r q"
    using run_evolves [OF good' assms(4) r(1)] assms(6) by blast
  have good2: "jobs_good m d2" using job_run_changes good' assms(4,6) by blast
  have qs: "jr_upload_id q = job_UploadID s2" "jr_id q = jr_id r" "jr_input_sha256 q = jr_input_sha256 r"
    using q(2) r(2) assms(5) by (simp_all add: job_evolves_def same_identity_def)
  note E = Create_existing [OF q(1) qs(1), of flt2]
  have again: "job_ID job2 = job_ID job \<and> job_InputSHA256 job2 = job_InputSHA256 job"
    if "fst (pg_job_Create flt2 s2 d2) = Inr job2" for job2
  proof -
    have "pg_job_Create flt2 s2 d2 = (Inr job2, d2)" using that E by (simp add: prod_eq_iff)
    then obtain p where p: "p \<in> set (pdf_job d2)" "jr_upload_id p = job_UploadID s2" "job2 = job_view p"
      by (rule Create_result)
    have "p = q" using find_upload_job [OF good2 p(1)] find_upload_job [OF good2 q(1)] p(2) qs(1) by simp
    with p(3) qs r(4) show ?thesis by simp
  qed
  have o: "job_Owner job = job_Owner s" using r(3,4) own by simp
  have repeated: "(\<exists>q \<in> set (pdf_job d2). jr_id q = job_ID job \<and> jr_upload_id q = job_UploadID s \<and>
        pg_job_Create all_ok s2 d2 =
          (if jr_deletion_requested_at q = None then Inr (job_view q) else Inl (Sentinel JobErrConflict), d2)) \<and>
      ((\<forall>owner t. Call_Delete (job_ID job) owner t \<notin> snd ` set calls) \<longrightarrow>
        (\<exists>job2. pg_job_Create all_ok s2 d2 = (Inr job2, d2) \<and>
          pg_job_Get all_ok (job_ID job) (job_Owner s) d2 = (Inr job2, d2) \<and>
          job_ID job2 = job_ID job \<and> job_UploadID job2 = job_UploadID s \<and> job_Owner job2 = job_Owner s \<and>
          job_InputSHA256 job2 = job_InputSHA256 job \<and> job_InputObjectKey job2 = job_InputObjectKey job))"
    if s2: "acceptable_seed s2" "job_Owner s2 = job_Owner s"
    using repeated_creation [OF good' assms(4) r(1) r(2) r(3) own s2(1) assms(5) s2(2)] r(4,5) assms(6) by simp
  have same: "pdf_job (snd (pg_job_Create flt2 s2 d2)) = pdf_job d2" by (simp only: E)
  show ?thesis
  proof (intro conjI)
    show "\<exists>u \<in> set (upload_session d). us_id u = job_UploadID s \<and> us_owner u = owner_columns (job_Owner s) \<and>
      us_status u = StatusCommitted \<and> us_received_bytes u = us_declared_size u \<and>
      us_committed_sha256 u = Some (SHA256_String (job_InputSHA256 job)) \<and> us_object_key u = job_InputObjectKey job \<and>
      us_declared_size u = job_InputBytes job \<and> us_original_filename u = job_OriginalFilename job"
      using src u(1) by blast
  qed (use o get same again repeated in blast)+
qed

subsection \<open>Recovery\<close>

lemma recovered_check:
  assumes good: "job_row_good r" and e: "lease_expired at r" and "at \<le> retryAt" and "jr_version r < MaxInt64"
  shows "job_row_check (set_recovered at retryAt r)"
proof -
  have C: "job_row_check r" by (rule good_check [OF good])
  have "jr_created_at r \<le> at"
    using lease_after_creation [OF good] e by (auto simp: lease_expired_def split: option.splits)
  moreover have "null_or (\<lambda>t. jr_created_at r \<le> t) (coalesce (jr_completed_at r) (max at (jr_created_at r)))"
    using C by (cases "jr_completed_at r") (simp_all add: job_row_check_def pdf_job_timestamp_order_def)
  ultimately have "pdf_job_timestamp_order (set_recovered at retryAt r)"
    using C assms(3) by (simp add: job_row_check_def pdf_job_timestamp_order_def set_recovered_def le_max_iff_disj)
  moreover have "pdf_job_columns (set_recovered at retryAt r)"
    using C assms(4) by (simp add: job_row_check_def pdf_job_columns_def set_recovered_def)
  moreover have "pdf_job_text_metadata_bounded (set_recovered at retryAt r)"
    using C by (simp add: job_row_check_def pdf_job_text_metadata_bounded_def set_recovered_def)
  ultimately show ?thesis
    using C by (simp add: job_row_check_def pdf_job_creator_snapshot_consistency_def
        pdf_job_input_metadata_valid_def pdf_job_output_metadata_valid_def set_recovered_def)
qed

lemma recovered_status:
  "jr_status (set_recovered at retryAt r) =
     (if stop_requested r then StatusCancelled else if jr_max_attempts r \<le> jr_attempt_count r then StatusFailed else StatusQueued)"
  by (simp add: set_recovered_def)

lemma count_partition:
  "count_status StatusQueued (map (set_recovered at retryAt) rs) + count_status StatusCancelled (map (set_recovered at retryAt) rs)
    + count_status StatusFailed (map (set_recovered at retryAt) rs) = int (length rs)"
  by (induction rs) (auto simp: count_status_def recovered_status)

lemma recovery_ok:
  assumes good: "jobs_good m d" and v: "versions_left d" and "validateRecovery q = None"
  defines "at \<equiv> pg_time (rr_ObservedAt q)" and "f \<equiv> set_recovered (pg_time (rr_ObservedAt q)) (pg_time (rr_RetryAt q))"
  shows "pg_RecoverExpired all_ok locked q d =
    (Inr \<lparr>Requeued = count_status StatusQueued (map f (expired_batch locked at (rr_Limit q) (pdf_job d))),
       Cancelled = count_status StatusCancelled (map f (expired_batch locked at (rr_Limit q) (pdf_job d))),
       Failed = count_status StatusFailed (map f (expired_batch locked at (rr_Limit q) (pdf_job d)))\<rparr>,
     d\<lparr>pdf_job := sql_update (\<lambda>r. jr_id r \<in> set (map jr_id (expired_batch locked at (rr_Limit q) (pdf_job d)))) f (pdf_job d)\<rparr>)"
proof -
  let ?b = "expired_batch locked at (rr_Limit q) (pdf_job d)"
  have le: "at \<le> pg_time (rr_RetryAt q)"
    using assms(3) by (auto simp: at_def validateRecovery_def pg_time_mono split: if_splits)
  have "job_row_check (f r)" if r: "r \<in> set (pdf_job d)" "jr_id r \<in> set (map jr_id ?b)" for r
  proof -
    from r(2) obtain p where "p \<in> set ?b" "jr_id p = jr_id r" by auto
    then have "lease_expired at r" using expired_batch_rows the_job [OF good r(1)] by metis
    then show ?thesis
      using recovered_check [OF jobs_good_row(1) [OF good r(1)] _ le] v r(1) by (simp add: f_def at_def versions_left_def)
  qed
  then have "sql_checked_update job_row_check (\<lambda>r. jr_id r \<in> set (map jr_id ?b)) f (pdf_job d)
      = Some (sql_update (\<lambda>r. jr_id r \<in> set (map jr_id ?b)) f (pdf_job d))"
    by (simp add: sql_checked_update_def list_all_iff)
  then show ?thesis
    using assms(3) unfolding pg_RecoverExpired_def Let_def f_def at_def by simp
qed

text \<open>
  C27. Recovery always gets through. On any reachable table, a recovery whose database calls
  are answered succeeds: it takes a batch of expired leases that no other transaction locks, as
  many as the limit allows, and none of these jobs is leased afterwards: each is cancelled if a stop
  was requested, failed if its attempts are used up, and queued for the retry time otherwise.
  The three counts add up to the batch, and every other row is left as it was.
\<close>

theorem recovery_frees_expired_leases:
  assumes good: "jobs_good m d" and "versions_left d" and "validateRecovery q = None"
    and "batch = expired_batch locked (pg_time (rr_ObservedAt q)) (rr_Limit q) (pdf_job d)"
    and "d' = snd (pg_RecoverExpired all_ok locked q d)"
  shows "\<exists>result. fst (pg_RecoverExpired all_ok locked q d) = Inr result \<and>
    Requeued result + Cancelled result + Failed result = int (length batch) \<and>
    int (length batch) = min (rr_Limit q)
      (int (length (filter (\<lambda>r. lease_expired (pg_time (rr_ObservedAt q)) r \<and> jr_id r \<notin> set locked) (pdf_job d)))) \<and>
    (\<forall>r \<in> set batch. lease_of d' (jr_id r) = None \<and> (\<exists>r' \<in> set (pdf_job d'). jr_id r' = jr_id r \<and>
      jr_status r' = (if stop_requested r then StatusCancelled
        else if jr_max_attempts r \<le> jr_attempt_count r then StatusFailed else StatusQueued) \<and>
      (jr_status r' = StatusQueued \<longrightarrow> jr_available_at r' = pg_time (rr_RetryAt q)))) \<and>
    (\<forall>r \<in> set (pdf_job d). r \<notin> set batch \<longrightarrow> r \<in> set (pdf_job d'))"
proof -
  let ?at = "pg_time (rr_ObservedAt q)" and ?retry = "pg_time (rr_RetryAt q)"
  let ?f = "set_recovered ?at ?retry" and ?P = "\<lambda>r. lease_expired (pg_time (rr_ObservedAt q)) r \<and> jr_id r \<notin> set locked"
  note R = recovery_ok [OF assms(1-3), of locked, folded assms(4)]
  have d': "d' = d\<lparr>pdf_job := sql_update (\<lambda>r. jr_id r \<in> set (map jr_id batch)) ?f (pdf_job d)\<rparr>"
    using R assms(5) by simp
  have "0 < rr_Limit q" using assms(3) by (simp add: validateRecovery_def split: if_splits)
  then have len: "int (length batch) = min (rr_Limit q) (int (length (filter ?P (pdf_job d))))"
    by (simp add: assms(4) expired_batch_def)
  have id: "jr_id (?f r) = jr_id r" for r by (simp add: set_recovered_def)
  have in_batch: "r \<in> set batch \<longleftrightarrow> jr_id r \<in> set (map jr_id batch)" if r: "r \<in> set (pdf_job d)" for r
  proof
    assume "jr_id r \<in> set (map jr_id batch)"
    then obtain p where p: "p \<in> set batch" "jr_id p = jr_id r" by auto
    then have "p = r" using the_job [OF good r] expired_batch_rows assms(4) by metis
    with p show "r \<in> set batch" by simp
  qed simp
  have freed: "lease_of d' (jr_id r) = None \<and> (\<exists>r' \<in> set (pdf_job d'). jr_id r' = jr_id r \<and>
      jr_status r' = (if stop_requested r then StatusCancelled
        else if jr_max_attempts r \<le> jr_attempt_count r then StatusFailed else StatusQueued) \<and>
      (jr_status r' = StatusQueued \<longrightarrow> jr_available_at r' = ?retry))" if b: "r \<in> set batch" for r
  proof -
    have r: "r \<in> set (pdf_job d)" using b expired_batch_rows assms(4) by metis
    have found: "find (\<lambda>q. jr_id q = jr_id r) (pdf_job d') = Some (?f r)"
      using find_job [OF good r] b by (simp add: d' find_sql_update id)
    then have "lease_of d' (jr_id r) = None" by (simp add: lease_of_def row_lease_def set_recovered_def)
    moreover have "?f r \<in> set (pdf_job d')" using find_Some_in [OF found] by blast
    moreover have "jr_status (?f r) = StatusQueued \<longrightarrow> jr_available_at (?f r) = ?retry"
      by (auto simp: set_recovered_def retryable_def split: if_splits)
    ultimately show ?thesis using id recovered_status by blast
  qed
  have rest: "r \<in> set (pdf_job d')" if "r \<in> set (pdf_job d)" "r \<notin> set batch" for r
    using that in_batch [OF that(1)] by (auto simp: d' set_sql_update)
  let ?result = "\<lparr>Requeued = count_status StatusQueued (map ?f batch),
    Cancelled = count_status StatusCancelled (map ?f batch), Failed = count_status StatusFailed (map ?f batch)\<rparr>"
  have "Requeued ?result + Cancelled ?result + Failed ?result = int (length batch)"
    using count_partition [of ?at ?retry batch] by simp
  moreover have "fst (pg_RecoverExpired all_ok locked q d) = Inr ?result" unfolding R by simp
  ultimately show ?thesis
    by (intro exI [of _ ?result] conjI len ballI impI freed rest)
qed

subsection \<open>The table of transitions\<close>

lemma edge_valid: "CanTransitionTo a b \<Longrightarrow> Status_Valid a \<and> Status_Valid b"
  by (cases a) (auto simp: CanTransitionTo_def transitions_def Status_Valid_def)

lemma path_valid: "status_path a b \<Longrightarrow> Status_Valid a \<Longrightarrow> Status_Valid b"
  by (induction rule: rtranclp_induct) (auto dest: edge_valid)

lemma terminal_edge: "Status_Terminal a \<Longrightarrow> CanTransitionTo a b \<Longrightarrow> b = StatusJobExpired"
  by (cases a) (auto simp: CanTransitionTo_def transitions_def Status_Terminal_def)

lemma terminal_path: "status_path a b \<Longrightarrow> Status_Terminal a \<Longrightarrow> b = a \<or> b = StatusJobExpired"
proof (induction rule: rtranclp_induct)
  case (step b c)
  then have "Status_Terminal b" by auto
  with terminal_edge [OF this step.hyps(2)] show ?case by simp
qed simp

lemma queued_reaches:
  assumes "Status_Valid s"
  shows "status_path StatusQueued s"
proof -
  have e: "CanTransitionTo StatusQueued StatusAnalyzing" "CanTransitionTo StatusAnalyzing StatusOptimizing"
      "CanTransitionTo StatusOptimizing StatusValidating" "CanTransitionTo StatusAnalyzing StatusCompleted"
      "CanTransitionTo StatusQueued StatusFailed" "CanTransitionTo StatusQueued StatusCancelled"
      "CanTransitionTo StatusFailed StatusJobExpired"
    by (simp_all add: CanTransitionTo_def transitions_def)
  have a: "status_path StatusQueued StatusAnalyzing" using e(1) by blast
  have o: "status_path StatusQueued StatusOptimizing" using a e(2) by (rule rtranclp.rtrancl_into_rtrancl)
  have "status_path StatusQueued StatusValidating" using o e(3) by (rule rtranclp.rtrancl_into_rtrancl)
  moreover have "status_path StatusQueued StatusCompleted" using a e(4) by (rule rtranclp.rtrancl_into_rtrancl)
  moreover have f: "status_path StatusQueued StatusFailed" "status_path StatusQueued StatusCancelled" using e by blast+
  moreover have "status_path StatusQueued StatusJobExpired"
    using f(1) e(7) by (rule rtranclp.rtrancl_into_rtrancl)
  ultimately show ?thesis using a o assms by (cases s) (simp_all add: Status_Valid_def transitions_def)
qed

text \<open>
  The table of transitions is a sound state machine: the states reachable from queued are
  exactly the declared ones, a stopped job can only become expired and expiry is final, every
  other state has a direct way to failure and to cancellation, and every transition that a worker
  may ask for starts from a leased state and is an edge of the table.
\<close>

lemma transition_table_sound:
  "(CanTransitionTo\<^sup>*\<^sup>* StatusQueued s \<longleftrightarrow> Status_Valid s) \<and>
   (Status_Terminal a \<and> CanTransitionTo\<^sup>*\<^sup>* a b \<longrightarrow> b = a \<or> b = StatusJobExpired) \<and>
   (Status_Valid a \<and> \<not> Status_Terminal a \<longrightarrow> CanTransitionTo a StatusFailed \<and> CanTransitionTo a StatusCancelled) \<and>
   (validateTransition t = None \<longrightarrow> active_status (tr_ExpectedStatus t) \<and>
      CanTransitionTo (tr_ExpectedStatus t) (tr_NextStatus t) \<and>
      (active_status (tr_NextStatus t) \<or> Status_Terminal (tr_NextStatus t) \<and> tr_NextStatus t \<noteq> StatusJobExpired))"
proof (intro conjI impI)
  show "CanTransitionTo\<^sup>*\<^sup>* StatusQueued s \<longleftrightarrow> Status_Valid s"
    using queued_reaches path_valid [of StatusQueued s] by auto
  show "b = a \<or> b = StatusJobExpired" if "Status_Terminal a \<and> CanTransitionTo\<^sup>*\<^sup>* a b"
    using terminal_path that by blast
  show "CanTransitionTo a StatusFailed" "CanTransitionTo a StatusCancelled"
    if "Status_Valid a \<and> \<not> Status_Terminal a"
    using that by (cases a; simp add: CanTransitionTo_def transitions_def Status_Valid_def Status_Terminal_def)+
  assume v: "validateTransition t = None"
  note T = transition_bounds [OF v]
  show "active_status (tr_ExpectedStatus t)" "CanTransitionTo (tr_ExpectedStatus t) (tr_NextStatus t)"
    using T by simp_all
  show "active_status (tr_NextStatus t) \<or> Status_Terminal (tr_NextStatus t) \<and> tr_NextStatus t \<noteq> StatusJobExpired"
    using T(3-5) status_cases by blast
qed

end
