(* ===== verification/Upload_Properties.thy ===== *)
theory Upload_Properties
  imports Upload_Lifecycle
begin

text \<open>
  The properties of uploads over the runs of the store, the geometry of their chunks and the names of
  their files, each with a concrete witness.
\<close>

subsection \<open>Properties\<close>

text \<open>
  C9. The two tables agree in every reachable state. After any sequence of store calls with
  any failures, each upload has parts at exactly the positions \<open>0 \<dots> n - 1\<close>, where \<open>n\<close> is its
  progress counter, its byte counter is the sum of their sizes and never above the declared
  size, and an upload that is committing or committed has all its parts and bytes.
\<close>

theorem upload_progress_consistent:
  fixes d :: "'z upload_db_scheme"
  assumes "uploads_good m d" and "\<forall>(flt, call) \<in> set calls. sane_call call"
    and "r \<in> set (upload_session (upload_run m calls d))"
  defines "ps \<equiv> part_rows (us_id r) (upload_run m calls d)"
  shows "map pt_part_index ps = map int [0..<nat (us_received_chunks r)] \<and>
    sum_list (map pt_byte_size ps) = us_received_bytes r \<and> us_received_bytes r \<le> us_declared_size r \<and>
    (us_status r = StatusCommitting \<or> us_status r = StatusCommitted \<longrightarrow>
       us_received_chunks r = us_expected_chunks r \<and> us_received_bytes r = us_declared_size r)"
proof -
  have good: "uploads_good m (upload_run m calls d)" using upload_run_changes [OF assms(1,2)] by simp
  note G = uploads_good_row [OF good assms(3)]
  have ps: "ps = parts_of (us_id r) (upload_part (upload_run m calls d))"
    unfolding ps_def by (rule parts_ordered [OF G(2)])
  have n: "int (length ps) = us_received_chunks r" "us_received_bytes r = bytes_upto (view r) (us_received_chunks r)"
      "us_status r = StatusCommitting \<or> us_status r = StatusCommitted \<longrightarrow> us_received_chunks r = us_expected_chunks r"
    using G(2) by (simp_all add: progress_good_def ps)
  moreover have "us_received_bytes r \<le> us_declared_size r"
    using G(1) by (simp add: upload_row_good_def upload_row_check_def)
  ultimately show ?thesis
    using progress_indices [OF G(2)] stored_parts_sum [OF G]
    by (simp add: ps bytes_upto_def flip: n(1))
qed

text \<open>
  C10. Uploads only move forward. Between any two states of a run, an upload keeps its owner,
  name, sizes, key and expiry, its status follows the lifecycle, its parts are only appended to,
  and once it is committed, aborted or expired its row never changes again.
\<close>

theorem upload_moves_forward:
  fixes d :: "'z upload_db_scheme"
  assumes "uploads_good m d" and "\<forall>(flt, call) \<in> set calls. sane_call call" and "r \<in> set (upload_session d)"
  shows "\<exists>r' \<in> set (upload_session (upload_run m calls d)). same_metadata r r' \<and>
    upload_edge\<^sup>*\<^sup>* (us_status r) (us_status r') \<and> us_received_chunks r \<le> us_received_chunks r' \<and>
    (\<exists>added. parts_of (us_id r) (upload_part (upload_run m calls d)) = parts_of (us_id r) (upload_part d) @ added) \<and>
    (final_status (us_status r) \<longrightarrow> r' = r)"
  using changes_evolve [OF conjunct1 [OF upload_run_changes [OF assms(1,2)]] assms(1,3)]
  by (auto simp: evolves_def)

text \<open>A small upload for the witnesses: five bytes in chunks of two.\<close>

definition toy_mime :: mime where
  "toy_mime = \<lparr>ParseMediaType = (\<lambda>v. Some (v, Map.empty)), FormatMediaType = (\<lambda>v ps. v)\<rparr>"

definition toy_owner :: Owner where
  "toy_owner = \<lparr>Kind = OwnerAuthenticated, UserID = 7, AnonymousSessionID = []\<rparr>"

definition toy_upload_manager :: "upload_db UploadManager" where
  "toy_upload_manager = \<lparr>um_store = PostgresUploadStore toy_mime all_ok, um_maxBytes = 100,
     um_chunkBytes = 2, um_sessionTTL = Hour\<rparr>"

definition toy_empty_db :: upload_db where
  "toy_empty_db = \<lparr>anonymous_session = [], anonymous_usage = [], anonymous_ip_usage = [],
     upload_session = [], upload_part = []\<rparr>"

definition toy_start :: "(upload_err + UploadSession) \<times> upload_db" where
  "toy_start = um_Start toy_mime (replicate 16 7) (1000 * Hour) toy_upload_manager toy_owner ''dir/a.pdf''
     ''application/pdf'' 5 toy_empty_db"

definition toy_upload :: UploadSession where
  "toy_upload = (case fst toy_start of Inr s \<Rightarrow> s)"

definition toy_id :: string where
  "toy_id = ''07070707-0707-4707-8707-070707070707''"

definition toy_write :: "int \<Rightarrow> int \<Rightarrow> PartWrite" where
  "toy_write i n = \<lparr>pw_UploadID = toy_id, pw_Owner = toy_owner, pw_Index = i, pw_ByteSize = n,
     pw_SHA256 = replicate 32 9, pw_BackendPartID = ''part'', pw_ObservedAt = 1000 * Hour + 5000\<rparr>"

lemma toy_empty_good: "uploads_good m toy_empty_db"
  by (simp add: uploads_good_def toy_empty_db_def)

lemma toy_start_ok: "um_Start toy_mime (replicate 16 7) (1000 * Hour) toy_upload_manager toy_owner ''dir/a.pdf''
     ''application/pdf'' 5 toy_empty_db = (Inr toy_upload, snd toy_start)"
proof -
  have "\<not> isl (fst toy_start)" by code_simp
  then show ?thesis
    unfolding toy_upload_def toy_start_def [symmetric] by (cases "fst toy_start") (auto simp: prod_eq_iff)
qed

lemma toy_manager_bounds:
  "um_store toy_upload_manager = PostgresUploadStore toy_mime all_ok" "um_maxBytes toy_upload_manager \<le> MaxInt64"
  "0 < um_chunkBytes toy_upload_manager" "um_chunkBytes toy_upload_manager \<le> MaxInt32" "Microsecond \<le> 1000 * Hour"
  by (simp_all add: toy_upload_manager_def)

lemma toy_started: "uploads_good toy_mime (snd toy_start)"
    "uploads (snd toy_start) (up_ID toy_upload) = Some toy_upload" "geometry toy_upload"
    "up_CreatedAt toy_upload = 1000 * Hour" "up_ExpiresAt toy_upload = 1001 * Hour"
  using pg_uploads.start_geometry [OF toy_empty_good toy_manager_bounds toy_start_ok]
  by (simp_all add: toy_upload_manager_def pg_time_def)

definition toy_lost :: faults where
  "toy_lost op = (if op = ''commit part record'' then Reply_Lost else Call_Ok)"

definition toy_recorded :: "(upload_err + PartReceipt) \<times> upload_db" where
  "toy_recorded = pg_RecordPart toy_mime toy_lost (toy_write 0 2) (snd toy_start)"

theorem upload_progress_consistent_witness:
  "\<exists>r \<in> set (upload_session (snd toy_recorded)). us_received_chunks r = 1 \<and>
     map pt_part_index (part_rows (us_id r) (snd toy_recorded)) = map int [0..<nat (us_received_chunks r)]"
proof -
  have run: "snd toy_recorded = upload_run toy_mime [(toy_lost, Upload_RecordPart (toy_write 0 2))] (snd toy_start)"
    by (simp add: upload_run_def toy_recorded_def)
  have "\<exists>r \<in> set (upload_session (snd toy_recorded)). us_received_chunks r = 1"
    by code_simp
  then obtain r where r: "r \<in> set (upload_session (snd toy_recorded))" "us_received_chunks r = 1" by blast
  from upload_progress_consistent [OF toy_started(1), of "[(toy_lost, Upload_RecordPart (toy_write 0 2))]" r]
  show ?thesis using r unfolding run by auto
qed

theorem upload_moves_forward_witness:
  "\<exists>r \<in> set (upload_session (snd toy_start)). \<exists>r' \<in> set (upload_session (snd toy_recorded)).
     same_metadata r r' \<and> us_received_chunks r = 0 \<and> us_received_chunks r \<le> us_received_chunks r'"
proof -
  have run: "snd toy_recorded = upload_run toy_mime [(toy_lost, Upload_RecordPart (toy_write 0 2))] (snd toy_start)"
    by (simp add: upload_run_def toy_recorded_def)
  have "\<exists>r \<in> set (upload_session (snd toy_start)). us_received_chunks r = 0"
    by code_simp
  then obtain r where r: "r \<in> set (upload_session (snd toy_start))" "us_received_chunks r = 0" by blast
  from upload_moves_forward [OF toy_started(1), of "[(toy_lost, Upload_RecordPart (toy_write 0 2))]" r]
  obtain r' where "r' \<in> set (upload_session (snd toy_recorded))" "same_metadata r r'"
      "us_received_chunks r \<le> us_received_chunks r'"
    using r unfolding run by auto
  with r show ?thesis by blast
qed




text \<open>An upload whose plan is made has left the state in which parts are received.\<close>

lemma frozen_row:
  assumes "r \<in> set (upload_session d)" and "us_id r = u"
    and "if us_status r = StatusUploading
      then \<exists>sessions. update_upload flt name u (set_committing at) (upload_session d) = Some sessions \<and>
        d' = d\<lparr>upload_session := sessions\<rparr>
      else d' = d"
  shows "\<exists>q \<in> set (upload_session d'). us_id q = u \<and> us_status q \<noteq> StatusUploading"
proof (cases "us_status r = StatusUploading")
  case True
  with assms(3) have "upload_session d' = sql_update (\<lambda>q. us_id q = us_id r) (set_committing at) (upload_session d)"
    using update_upload_ok [OF _ assms(1,2)] by fastforce
  then have "set_committing at r \<in> set (upload_session d')" using assms(1) by (auto simp: set_sql_update)
  then show ?thesis using assms(2) by (rule_tac bexI) (simp_all add: set_committing_def)
qed (use assms in auto)

text \<open>
  C12. A commit plan is complete and stays so. When \<open>BeginCommit\<close> returns a plan, its parts are
  exactly the chunks \<open>0 \<dots> n - 1\<close> in order with the sizes the geometry prescribes, which sum to the
  declared size, and no later calls can change the stored parts of that upload.
\<close>

theorem commit_plan_frozen:
  fixes d :: "'z upload_db_scheme"
  assumes "uploads_good m d" and "pg_BeginCommit m flt u owner t d = (Inr plan, d')"
    and "\<forall>(flt, call) \<in> set calls. sane_call call"
  shows "map part_Index (plan_Parts plan) = map int [0..<length (plan_Parts plan)] \<and>
    int (length (plan_Parts plan)) = up_ExpectedChunks (plan_Session plan) \<and>
    sum_list (map part_ByteSize (plan_Parts plan)) = up_DeclaredSize (plan_Session plan) \<and>
    map part_value (part_rows u (upload_run m calls d')) = plan_Parts plan"
proof -
  from pg_BeginCommit_path [OF assms(2)] obtain s parts
    where lock: "lockOwnedSession m flt u owner d = Inr s"
      and rd: "readAllParts flt u d = Inr parts" and v: "validateCompleteParts s parts = None"
      and plan: "plan_Parts plan = parts" "up_DeclaredSize (plan_Session plan) = up_DeclaredSize s"
        "up_ExpectedChunks (plan_Session plan) = up_ExpectedChunks s"
      and upd: "if up_Status s = StatusUploading
        then \<exists>sessions. update_upload flt ''freeze parts'' u
          (set_committing (pg_time (maxTime t (up_UpdatedAt s)))) (upload_session d) = Some sessions \<and>
          d' = d\<lparr>upload_session := sessions\<rparr>
        else d' = d" and st: "up_Status s = StatusUploading \<or> up_Status s = StatusCommitting"
    by auto
  from lock obtain r where r: "r \<in> set (upload_session d)" "us_id r = u" "us_owner r = owner_columns owner" "s = view r"
    by (rule lockOwnedSession_ok)
  note G = uploads_good_row [OF assms(1) r(1)]
  have parts: "parts = map part_value (parts_of u (upload_part d))"
    using read_all_stored [OF G(2)] rd r(2) by simp
  have g: "geometry s" using stored_geometry [OF G(1)] r(4) by simp
  note V = v [unfolded validateCompleteParts_iff [OF g]]
  have idx: "map part_Index parts = map int [0..<length parts]"
    using V by (intro nth_equalityI) (simp_all add: part_fits_def)
  have sum: "sum_list (map part_ByteSize parts) = up_DeclaredSize s"
    using V by (intro complete_parts_sum [OF g]) auto
  have good': "uploads_good m d'" using pg_steps_good(2) [OF assms(1), of flt u owner t] assms(2) by simp
  have same_parts: "upload_part d' = upload_part d" using upd by (auto split: if_splits)
  obtain q where q: "q \<in> set (upload_session d')" "us_id q = u" "us_status q \<noteq> StatusUploading"
    using frozen_row [OF r(1,2), of flt "''freeze parts''" "pg_time (maxTime t (up_UpdatedAt s))" d'] upd st r(4) by auto
  note E = upload_run_changes [OF good' assms(3)]
  obtain q' where q': "q' \<in> set (upload_session (upload_run m calls d'))" "us_id q' = u"
      "parts_of u (upload_part (upload_run m calls d')) = parts_of u (upload_part d')"
    using changes_evolve [OF conjunct1 [OF E] good' q(1)] q(2,3) by (auto simp: evolves_def)
  have "part_rows u (upload_run m calls d') = parts_of u (upload_part d)"
    using parts_ordered [OF uploads_good_row(2) [OF conjunct2 [OF E] q'(1)]] q' same_parts by simp
  then show ?thesis using idx sum V plan parts by simp
qed

definition toy_row :: "int \<Rightarrow> int \<Rightarrow> UploadStatus \<Rightarrow> SHA256 option \<Rightarrow> upload_row" where
  "toy_row chunks n status digest =
     \<lparr>us_id = toy_id, us_owner = owner_columns toy_owner, us_original_filename = ''a.pdf'',
      us_content_type = ''application/pdf'', us_declared_size = 5, us_chunk_size = 2, us_expected_chunks = 3,
      us_received_chunks = chunks, us_received_bytes = n, us_status = status, us_object_key = ''key'',
      us_multipart_upload_id = None, us_committed_sha256 = map_option SHA256_String digest,
      us_created_at = 1000 * Hour, us_updated_at = 1000 * Hour,
      us_committed_at = map_option (\<lambda>_. 1000 * Hour) digest, us_expires_at = 1001 * Hour\<rparr>"

definition toy_full :: "UploadStatus \<Rightarrow> SHA256 option \<Rightarrow> upload_db" where
  "toy_full status digest = toy_empty_db\<lparr>upload_session := [toy_row 3 5 status digest],
     upload_part := [insert_part_row (toy_write 0 2), insert_part_row (toy_write 1 2), insert_part_row (toy_write 2 1)]\<rparr>"

lemma toy_full_good: "uploads_good toy_mime (toy_full StatusUploading None)"
    "uploads_good toy_mime (toy_full StatusCommitting None)"
  by code_simp+

definition toy_commit :: "(upload_err + CommitPlan) \<times> upload_db" where
  "toy_commit = pg_BeginCommit toy_mime all_ok toy_id toy_owner (1000 * Hour + 6000) (toy_full StatusUploading None)"

lemma toy_commit_ok: "pg_BeginCommit toy_mime all_ok toy_id toy_owner (1000 * Hour + 6000) (toy_full StatusUploading None)
    = (Inr (projr (fst toy_commit)), snd toy_commit)"
proof -
  have "\<not> isl (fst toy_commit)" by code_simp
  then show ?thesis
    unfolding toy_commit_def [symmetric] by (cases "fst toy_commit") (auto simp: prod_eq_iff)
qed

theorem commit_plan_frozen_witness:
  "sum_list (map part_ByteSize (plan_Parts (projr (fst toy_commit)))) = 5 \<and>
   map part_value (part_rows toy_id (upload_run toy_mime
     [(all_ok, Upload_RecordPart (toy_write 2 1)), (all_ok, Upload_Abort toy_id toy_owner (1000 * Hour + 7000))]
     (snd toy_commit))) = plan_Parts (projr (fst toy_commit))"
proof -
  have "up_DeclaredSize (plan_Session (projr (fst toy_commit))) = 5" by code_simp
  with commit_plan_frozen [OF toy_full_good(1) toy_commit_ok,
    of "[(all_ok, Upload_RecordPart (toy_write 2 1)), (all_ok, Upload_Abort toy_id toy_owner (1000 * Hour + 7000))]"]
  show ?thesis by simp
qed

lemma completed_row:
  assumes good: "uploads_good m d" and c: "pg_Complete m flt u owner digest t d = (Inr s, d')"
  shows "\<exists>r \<in> set (upload_session d'). us_id r = u \<and> us_owner r = owner_columns owner \<and>
    us_status r = StatusCommitted \<and> up_CommittedSHA256 (view r) = Some digest"
proof -
  have "d' \<noteq> d \<or> \<not> isl (Inr s :: upload_err + UploadSession)" by simp
  from pg_Complete_path [OF c this] obtain s0
    where lock: "lockOwnedSession m flt u owner d = Inr s0"
      and upd: "if up_Status s0 = StatusCommitted then d' = d \<and> up_CommittedSHA256 s0 = Some digest
       else up_Status s0 = StatusCommitting \<and> t < up_ExpiresAt s0 \<and>
         (\<exists>sessions. update_upload flt ''complete'' u
           (set_committed digest (pg_time (maxTime t (up_UpdatedAt s0)))) (upload_session d) = Some sessions \<and>
          d' = d\<lparr>upload_session := sessions\<rparr>)"
    by auto
  from lock obtain r where r: "r \<in> set (upload_session d)" "us_id r = u" "us_owner r = owner_columns owner" "s0 = view r"
    by (rule lockOwnedSession_ok)
  show ?thesis
  proof (cases "up_Status s0 = StatusCommitted")
    case True
    with upd r show ?thesis by (intro bexI [of _ r]) auto
  next
    case False
    with upd obtain sessions at where u: "update_upload flt ''complete'' u (set_committed digest at) (upload_session d) = Some sessions"
        and d': "d' = d\<lparr>upload_session := sessions\<rparr>" by auto
    note U = update_upload_ok [OF u r(1,2)]
    have len: "length digest = 32" using U by (simp add: upload_row_check_def set_committed_def)
    have "set_committed digest at r \<in> set (upload_session d')" using U r(1) by (auto simp: d' set_sql_update)
    moreover have "us_id (set_committed digest at r) = u" "us_owner (set_committed digest at r) = owner_columns owner"
        "us_status (set_committed digest at r) = StatusCommitted"
        "us_committed_sha256 (set_committed digest at r) = Some (SHA256_String digest)"
      using r by (simp_all add: set_committed_def)
    ultimately show ?thesis using len by (intro bexI [of _ "set_committed digest at r"]) simp_all
  qed
qed

text \<open>
  C13. A committed digest is immutable. Once \<open>Complete\<close> has reported success, then after any
  further calls the owner reads the upload as committed with that digest, and a completion with
  another digest never succeeds.
\<close>

theorem committed_digest_immutable:
  fixes d :: "'z upload_db_scheme"
  assumes "uploads_good m d" and "pg_Complete m flt u owner digest t d = (Inr s, d')"
    and "\<forall>(flt, call) \<in> set calls. sane_call call" and "validUUID u" and "valid_owner owner"
  shows "(\<exists>s'. pg_upload_Get m all_ok u owner (upload_run m calls d') = (Inr s', upload_run m calls d') \<and>
      up_Status s' = StatusCommitted \<and> up_CommittedSHA256 s' = Some digest) \<and>
    (digest' \<noteq> digest \<longrightarrow> isl (fst (pg_Complete m flt' u owner digest' t' (upload_run m calls d'))))"
proof -
  from completed_row [OF assms(1,2)] obtain r where r: "r \<in> set (upload_session d')" "us_id r = u"
      "us_owner r = owner_columns owner" "us_status r = StatusCommitted" "up_CommittedSHA256 (view r) = Some digest"
    by blast
  have good': "uploads_good m d'" using pg_steps_good(3) [OF assms(1), of flt u owner digest t] assms(2) by simp
  let ?d = "upload_run m calls d'"
  note E = upload_run_changes [OF good' assms(3)]
  have r2: "r \<in> set (upload_session ?d)"
    using changes_evolve [OF conjunct1 [OF E] good' r(1)] r(4) by (auto simp: evolves_def final_status_def)
  have find: "find (owned_row u owner) (upload_session ?d) = Some r"
    using find_owned [OF conjunct2 [OF E] r2 r(3)] r(2) by simp
  have scan: "upload_scanSession m r = Inr (view r)" by (rule scan_stored [OF conjunct2 [OF E] r2])
  have own: "Owner_Validate owner = (None :: upload_sentinel check)"
    using assms(5) by (simp add: Owner_Validate_None [where 's = upload_sentinel])
  have "pg_upload_Get m all_ok u owner ?d = (Inr (view r), ?d)"
    using find scan own assms(4) by (simp add: pg_upload_Get_def Let_def)
  moreover have "isl (fst (pg_Complete m flt' u owner digest' t' ?d))" if "digest' \<noteq> digest"
  proof (rule ccontr)
    assume n: "\<not> ?thesis"
    obtain res d2 where c: "pg_Complete m flt' u owner digest' t' ?d = (res, d2)" by fastforce
    with n have "d2 \<noteq> ?d \<or> \<not> isl res" by simp
    from pg_Complete_path [OF c this] obtain s0 where lock: "lockOwnedSession m flt' u owner ?d = Inr s0"
        and st: "up_Status s0 = StatusCommitted \<longrightarrow> up_CommittedSHA256 s0 = Some digest'"
          "up_Status s0 \<noteq> StatusCommitted \<longrightarrow> up_Status s0 = StatusCommitting"
      by (auto split: if_splits)
    from lock have "s0 = view r" using find scan by (auto simp: lockOwnedSession_def Let_def split: if_splits)
    with st r(4,5) that show False by auto
  qed
  ultimately show ?thesis using r(4,5) by (intro conjI impI exI [of _ "view r"]) simp_all
qed

definition toy_complete :: "(upload_err + UploadSession) \<times> upload_db" where
  "toy_complete = pg_Complete toy_mime all_ok toy_id toy_owner (replicate 32 5) (1000 * Hour + 8000)
     (toy_full StatusCommitting None)"

theorem committed_digest_immutable_witness:
  "\<exists>s'. pg_upload_Get toy_mime all_ok toy_id toy_owner (upload_run toy_mime
       [(all_ok, Upload_Abort toy_id toy_owner (1000 * Hour + 9000))] (snd toy_complete)) =
      (Inr s', upload_run toy_mime [(all_ok, Upload_Abort toy_id toy_owner (1000 * Hour + 9000))] (snd toy_complete)) \<and>
    up_Status s' = StatusCommitted \<and> up_CommittedSHA256 s' = Some (replicate 32 5)"
proof -
  have "\<not> isl (fst toy_complete)" by code_simp
  then have c: "pg_Complete toy_mime all_ok toy_id toy_owner (replicate 32 5) (1000 * Hour + 8000)
      (toy_full StatusCommitting None) = (Inr (projr (fst toy_complete)), snd toy_complete)"
    unfolding toy_complete_def [symmetric] by (cases "fst toy_complete") (auto simp: prod_eq_iff)
  have v: "validUUID toy_id" "valid_owner toy_owner" by code_simp+
  from committed_digest_immutable [OF toy_full_good(2) c _ v,
    of "[(all_ok, Upload_Abort toy_id toy_owner (1000 * Hour + 9000))]"]
  show ?thesis by simp
qed

text \<open>
  C14. Owners are isolated. Whatever call another owner makes on an upload, it is answered with an
  error, and it leaves both tables as they are.
\<close>

theorem foreign_owner_powerless:
  fixes d :: "'z upload_db_scheme"
  assumes "uploads_good m d" and "r \<in> set (upload_session d)" and "us_owner r \<noteq> owner_columns owner"
  shows "isl (fst (pg_upload_Get m flt (us_id r) owner d)) \<and>
    (pw_UploadID w = us_id r \<and> pw_Owner w = owner \<longrightarrow>
       isl (fst (pg_RecordPart m flt w d)) \<and> snd (pg_RecordPart m flt w d) = d) \<and>
    isl (fst (pg_BeginCommit m flt (us_id r) owner t d)) \<and> snd (pg_BeginCommit m flt (us_id r) owner t d) = d \<and>
    isl (fst (pg_Complete m flt (us_id r) owner digest t d)) \<and> snd (pg_Complete m flt (us_id r) owner digest t d) = d \<and>
    isl (fst (pg_Abort m flt (us_id r) owner t d)) \<and> snd (pg_Abort m flt (us_id r) owner t d) = d"
proof -
  obtain err where lock: "lockOwnedSession m flt (us_id r) owner d = Inl err"
    using lock_foreign [OF assms] by (metis sum.exhaust)
  have "find (owned_row (us_id r) owner) (upload_session d) = None"
    using the_row [OF assms(1,2)] assms(3) by (auto simp: find_None_iff_in)
  then have "isl (fst (pg_upload_Get m flt (us_id r) owner d))"
    by (simp add: pg_upload_Get_def Let_def finish_def split: dbcall.split)
  then show ?thesis
    by (simp add: lock pg_RecordPart_def pg_BeginCommit_def pg_Complete_def pg_Abort_def split: option.split)
qed

theorem foreign_owner_powerless_witness:
  "isl (fst (pg_Abort toy_mime all_ok toy_id \<lparr>Kind = OwnerAuthenticated, UserID = 8, AnonymousSessionID = []\<rparr>
     (1000 * Hour + 1) (toy_full StatusUploading None)))"
proof -
  let ?r = "toy_row 3 5 StatusUploading None"
  have r: "?r \<in> set (upload_session (toy_full StatusUploading None))" and u: "us_id ?r = toy_id"
    by (simp_all add: toy_full_def toy_row_def)
  have o: "us_owner ?r \<noteq> owner_columns \<lparr>Kind = OwnerAuthenticated, UserID = 8, AnonymousSessionID = []\<rparr>"
    by code_simp
  show ?thesis
    using foreign_owner_powerless [OF toy_full_good(1) r o, unfolded u] by blast
qed

definition toy_chunk :: chunk where
  "toy_chunk = \<lparr>ch_SHA256 = replicate 32 9, ch_BackendPartID = ''part'', ch_SentAt = 1000 * Hour + 5000\<rparr>"

text \<open>Creation and reading agree: the owner reads the session that \<open>Create\<close> returned.\<close>

lemma created_upload_reads_back:
  fixes d :: "'z upload_db_scheme"
  assumes "uploads_good m d" and "sane_call (Upload_Create s)" and "pg_upload_Create m flt s d = (Inr s', d')"
  shows "s' = s\<lparr>up_CreatedAt := pg_time (up_CreatedAt s), up_UpdatedAt := pg_time (up_UpdatedAt s),
      up_ExpiresAt := pg_time (up_ExpiresAt s)\<rparr> \<and>
    pg_upload_Get m all_ok (up_ID s) (up_Owner s) d' = (Inr s', d')"
proof -
  have c: "ust_Create (PostgresUploadStore m flt) s d = (Inr s', d')" using assms(3) by (simp add: PostgresUploadStore_def)
  note C = pg_uploads.create_ok [OF assms(1,2) c]
  then obtain r where r: "r \<in> set (upload_session d')" "us_id r = up_ID s" "s' = view r"
    using uploads_row [of m d' "up_ID s" s'] by auto
  have good': "uploads_good m d'" using C by simp
  have own: "up_Owner s' = up_Owner s" using C by (simp add: stored_as_def)
  have ro: "us_owner r = owner_columns (up_Owner s)"
    unfolding own [unfolded r(3), symmetric] by (rule stored_owner [OF uploads_good_row(1) [OF good' r(1)]])
  have V: "validateUploadForCreate m s = None" using C by (elim conjE)
  have v: "validUUID (up_ID s)" by (rule create_valid(9) [OF V])
  have o: "Owner_Validate (up_Owner s) = (None :: upload_sentinel check)"
    using create_valid(1) [OF V] by (subst Owner_Validate_None)
  have "pg_upload_Get m all_ok (up_ID s) (up_Owner s) d' = (Inr s', d')"
  proof -
    have f: "find (owned_row (up_ID s) (up_Owner s)) (upload_session d') = Some r"
      using find_owned [OF good' r(1) ro] r(2) by simp
    have sc: "upload_scanSession m r = Inr s'" using scan_stored [OF good' r(1)] r(3) by simp
    show ?thesis by (simp add: pg_upload_Get_def f sc v o)
  qed
  then show ?thesis using C by (simp add: stored_as_def)
qed

lemma valid_geometry:
  assumes "validateStoredSession m s = None" and "up_DeclaredSize s \<le> MaxInt64"
  shows "geometry s"
proof -
  have b: "0 < up_DeclaredSize s" "0 < up_ChunkSize s" "up_ChunkSize s \<le> MaxInt32"
      "expected_chunks (up_DeclaredSize s) (up_ChunkSize s) \<le> MaxInt32"
      "up_ExpectedChunks s = int32 (expected_chunks (up_DeclaredSize s) (up_ChunkSize s))"
    using assms by (simp_all add: validateStoredSession_None stored_fields_ok_def)
  have "0 \<le> (up_DeclaredSize s - 1) div up_ChunkSize s" using b by (simp add: pos_imp_zdiv_nonneg_iff)
  with b assms(2) show ?thesis by (simp add: geometry_def expected_chunks_div)
qed

lemma sizes_upto:
  assumes "geometry s" and "int n \<le> up_ExpectedChunks s"
  shows "sum_list (map (\<lambda>i. size_at s (int i)) [0..<n]) = bytes_upto s (int n)"
  using assms(2)
proof (induction n)
  case (Suc n)
  with bytes_upto_Suc [OF assms(1), of "int n"] show ?case by (simp add: add.commute)
qed (use assms(1) in simp)

text \<open>
  C15. Chunk sizes cover the file. For every session that passes the stored-session validation,
  each position has an expected size between one byte and the chunk size, computed without
  overflow, and the sizes of all positions add up to the declared size.
\<close>

theorem chunk_sizes_cover_upload:
  assumes "validateStoredSession m s = None" and "up_DeclaredSize s \<le> MaxInt64"
  defines "n \<equiv> nat (up_ExpectedChunks s)"
  shows "(\<forall>i < n. \<exists>k. expectedPartSize s (int i) = (Inr k :: upload_err + int) \<and> 0 < k \<and> k \<le> up_ChunkSize s) \<and>
    sum_list (map (\<lambda>i. projr (expectedPartSize s (int i) :: upload_err + int)) [0..<n]) = up_DeclaredSize s"
proof -
  have g: "geometry s" by (rule valid_geometry [OF assms(1,2)])
  have n: "int n = up_ExpectedChunks s" using last_chunk(1) [OF g] by (simp add: n_def)
  have e: "expectedPartSize s (int i) = (Inr (size_at s (int i)) :: upload_err + int)" if "i < n" for i
    using that n by (intro expectedPartSize_at [OF g]) auto
  have eq: "map (\<lambda>i. projr (expectedPartSize s (int i) :: upload_err + int)) [0..<n] = map (\<lambda>i. size_at s (int i)) [0..<n]"
    using e by simp
  have "sum_list (map (\<lambda>i. size_at s (int i)) [0..<n]) = up_DeclaredSize s"
    using sizes_upto [OF g, of n] n by (simp add: bytes_upto_def)
  then show ?thesis unfolding eq using e size_at_bounds [OF g] by simp
qed

theorem chunk_sizes_cover_upload_witness:
  "sum_list (map (\<lambda>i. projr (expectedPartSize toy_upload (int i) :: upload_err + int)) [0..<3]) = 5"
proof -
  have u: "up_DeclaredSize toy_upload = 5" "nat (up_ExpectedChunks toy_upload) = 3" by code_simp+
  have v: "validateStoredSession toy_mime toy_upload = None"
    using uploads_row [OF toy_started(1,2)] uploads_good_row(1) [OF toy_started(1)]
    by (metis upload_row_good_def)
  from chunk_sizes_cover_upload [OF v] u show ?thesis by simp
qed

text \<open>
  C16. Sanitized names are safe. A name that \<open>SanitizeFilename\<close> returns is not empty, has no slash,
  no backslash and no control character, is not a directory reference, is well-formed UTF-8 of at
  most 255 bytes without surrounding space, and is a fixed point of the function, so that the later
  validations accept it.
\<close>

theorem sanitized_name_safe:
  assumes "SanitizeFilename v = (Inr w :: upload_err + string)"
  shows "w \<noteq> [] \<and> w \<noteq> ''.'' \<and> w \<noteq> ''..'' \<and> CHR ''/'' \<notin> set w \<and> CHR 0x5C \<notin> set w \<and> utf8_valid w \<and>
    length w \<le> 255 \<and> \<not> has_control w \<and> TrimSpace w = w \<and> SanitizeFilename w = (Inr w :: upload_err + string)"
  using SanitizeFilename_Inr [OF assms] SanitizeFilename_fixed [OF assms] by simp

theorem sanitized_name_safe_witness:
  "SanitizeFilename (''C:'' @ [CHR 0x5C] @ ''x/ report.pdf '') = (Inr ''report.pdf'' :: upload_err + string) \<and>
   SanitizeFilename ''report.pdf'' = (Inr ''report.pdf'' :: upload_err + string)"
proof -
  have s: "SanitizeFilename (''C:'' @ [CHR 0x5C] @ ''x/ report.pdf '') = (Inr ''report.pdf'' :: upload_err + string)" by code_simp
  with sanitized_name_safe [OF s] show ?thesis by simp
qed

end
