(* ===== verification/Job_Witness.thy ===== *)
theory Job_Witness
  imports Job_Properties Upload_Properties
begin

text \<open>
  Concrete inputs for the properties of jobs: one committed upload, a job made from it, two
  workers. Each witness applies its property where every hypothesis holds.
\<close>

definition toy_seed :: Job where
  "toy_seed = \<lparr>job_ID = ''08080808-0808-4808-8808-080808080808'', job_UploadID = toy_id, job_Owner = toy_owner,
     job_Creator = \<lparr>ExternalID = 3, Login = ''ab'', Name = ''A B'', Email = []\<rparr>, job_OriginalFilename = [],
     job_InputObjectKey = [], job_InputSHA256 = no_digest, job_InputBytes = 0, job_OutputObjectKey = [],
     job_OutputSHA256 = None, job_OutputBytes = None, job_PageCount = None, job_SelectedProfile = [],
     job_TargetBytes = 100, job_TargetMet = None, job_Status = StatusQueued, job_ProgressPercent = 0,
     job_ProgressMessage = [], job_AttemptCount = 0, job_MaxAttempts = 2, job_AvailableAt = 1000 * Hour,
     job_LeaseOwner = [], job_LeaseExpiresAt = None, job_HeartbeatAt = None, job_CancelRequestedAt = None,
     job_ErrorCode = [], job_ErrorMessage = [], job_CreatedAt = 1000 * Hour, job_UpdatedAt = 1000 * Hour,
     job_StartedAt = None, job_CompletedAt = None, job_ExpiresAt = 1010 * Hour, job_DeletionRequestedAt = None,
     job_Version = 1\<rparr>"

definition toy_source :: upload_row where
  "toy_source = toy_row 3 5 StatusCommitted (Some (replicate 32 5))"

definition toy_queued :: job_row where
  "toy_queued = insert_job_row toy_seed toy_source"

definition toy_leased :: job_row where
  "toy_leased = set_claimed ''w1'' (1001 * Hour) (1002 * Hour) toy_queued"

definition toy_db :: "job_row list \<Rightarrow> job_db" where
  "toy_db rows = \<lparr>anonymous_session = [], anonymous_usage = [], anonymous_ip_usage = [],
     upload_session = [toy_source],
     upload_part = [insert_part_row (toy_write 0 2), insert_part_row (toy_write 1 2), insert_part_row (toy_write 2 1)],
     pdf_job = rows\<rparr>"

lemma toy_queued_good: "jobs_good toy_mime (toy_db [toy_queued])"
  by code_simp

lemma toy_empty_jobs: "jobs_good toy_mime (toy_db [])"
  using toy_queued_good by (simp add: jobs_good_def uploads_good_def toy_db_def)

lemma toy_claimable: "claimable (1001 * Hour) toy_queued" "job_row_check toy_leased"
  by code_simp+

lemma toy_leased_good: "jobs_good toy_mime (toy_db [toy_leased])"
proof -
  have "job_move toy_queued toy_leased"
    unfolding toy_leased_def
    by (rule claimed [OF toy_claimable(1)]) (use toy_claimable(2) in \<open>simp_all add: toy_leased_def pg_aligned_def pg_time_def\<close>)
  then have "job_change (toy_db [toy_queued]) (toy_db [toy_leased])"
    using worked [of "\<lambda>_. toy_leased" "toy_db [toy_queued]"] by (simp add: toy_db_def)
  then show ?thesis by (rule job_change_keeps_invariant [OF _ toy_queued_good])
qed

lemma toy_lease: "lease_of (toy_db [toy_leased]) (jr_id toy_leased) = Some (''w1'', 1002 * Hour)"
  by (simp add: lease_of_def toy_db_def row_lease_def toy_leased_def set_claimed_def)

lemma toy_versions: "versions_left (toy_db [toy_queued])" "versions_left (toy_db [toy_leased])"
  by (simp_all add: versions_left_def toy_db_def toy_leased_def toy_queued_def set_claimed_def insert_job_row_def
      creatorDatabaseValues_def toy_seed_def toy_owner_def)

lemma toy_worker: "validateClaim ''w1'' (1001 * Hour) (1002 * Hour) = None" "pg_text ''w1''"
  by code_simp+

lemma toy_claim:
  "pg_Claim all_ok [] ''w1'' (1001 * Hour) (1002 * Hour) (toy_db [toy_queued]) = (Inr (job_view toy_leased), toy_db [toy_leased])"
proof -
  have t: "pg_time (1001 * Hour) = 1001 * Hour" "pg_time (1002 * Hour) = 1002 * Hour" by (simp_all add: pg_time_def)
  have "sort_key claim_order (filter (\<lambda>r. claimable (1001 * Hour) r \<and> jr_id r \<notin> set []) (pdf_job (toy_db [toy_queued]))) = [toy_queued]"
    using toy_claimable(1) by (simp add: toy_db_def)
  moreover have "scanJob toy_leased = Inr (job_view toy_leased)"
    by (rule scan_stored_job, rule jobs_good_row(1) [OF toy_leased_good]) (simp add: toy_db_def)
  ultimately show ?thesis
    using toy_worker toy_claimable(2) unfolding pg_Claim_def t
    by (simp add: Let_def sql_checked_update_def toy_leased_def [symmetric]) (simp add: toy_db_def toy_leased_def)
qed

definition toy_call :: job_call where
  "toy_call = Call_Claim [] ''w1'' (1001 * Hour) (1002 * Hour)"

lemma toy_step: "job_step toy_mime (all_ok, toy_call) (toy_db [toy_queued]) = toy_db [toy_leased]"
  by (simp only: toy_call_def job_step.simps toy_claim snd_conv)

lemma toy_run: "job_run toy_mime [(all_ok, toy_call)] (toy_db [toy_queued]) = toy_db [toy_leased]"
  by (simp add: job_run_def toy_step)

lemma toy_sane: "sane_run [(all_ok, toy_call)]"
  by (simp add: toy_call_def)

theorem job_store_refines_specification_witness:
  "jobs_good toy_mime (toy_db [toy_leased]) \<and>
   (job_step toy_mime (all_ok, Call_Cancel ''x'' toy_owner 0) (toy_db [toy_leased]) = toy_db [toy_leased]
    \<or> store_change toy_mime (toy_db [toy_leased]) (job_step toy_mime (all_ok, Call_Cancel ''x'' toy_owner 0) (toy_db [toy_leased])))"
  using job_store_refines_specification [OF toy_queued_good toy_sane, of "Call_Cancel ''x'' toy_owner 0" all_ok]
  unfolding toy_run by simp

theorem stored_jobs_consistent_witness:
  "\<exists>job. scanJob toy_leased = Inr job \<and> consistent_job job"
  by (rule stored_jobs_consistent [OF toy_queued_good toy_sane]) (unfold toy_run, simp add: toy_db_def)

definition toy_recovery :: RecoveryRequest where
  "toy_recovery = \<lparr>rr_ObservedAt = 1002 * Hour, rr_RetryAt = 1002 * Hour, rr_Limit = 10\<rparr>"

theorem jobs_follow_lifecycle_witness:
  "\<exists>n \<in> set (pdf_job (job_step toy_mime (all_ok, Call_Recover [] toy_recovery) (toy_db [toy_leased]))).
     jr_id n = jr_id toy_queued \<and>
     (jr_status n \<noteq> StatusAnalyzing \<longrightarrow> CanTransitionTo StatusAnalyzing (jr_status n) \<and>
        jr_status n \<in> {StatusQueued, StatusFailed, StatusCancelled} \<and> jr_version n = jr_version toy_leased + 1)"
proof -
  have "toy_queued \<in> set (pdf_job (toy_db [toy_queued]))" by (simp add: toy_db_def)
  note L = jobs_follow_lifecycle [OF toy_queued_good toy_sane this, of all_ok "Call_Recover [] toy_recovery", unfolded toy_run]
  have "jr_status toy_leased = StatusAnalyzing" by (simp add: toy_leased_def set_claimed_def)
  moreover have "set (pdf_job (toy_db [toy_leased])) = {toy_leased}" by (simp add: toy_db_def)
  ultimately show ?thesis using L by auto
qed

theorem lease_is_exclusive_witness:
  "lease_of (job_run toy_mime [(all_ok, Call_Claim [] ''w2'' (1001 * Hour) (1003 * Hour)),
      (all_ok, Call_Cancel ''x'' toy_owner 1)] (toy_db [toy_leased])) (jr_id toy_leased) = Some (''w1'', 1002 * Hour)"
  by (rule lease_is_exclusive [OF toy_leased_good toy_lease]) simp

theorem claims_are_bounded_witness:
  "int (times_claimed toy_mime (jr_id toy_queued) [(all_ok, toy_call)] (toy_db [toy_queued])) = 1 \<and>
   int (times_claimed toy_mime (jr_id toy_queued) [(all_ok, toy_call)] (toy_db [toy_queued])) \<le> 2"
proof -
  have "lease_of (toy_db [toy_queued]) (jr_id toy_queued) = None"
    by (simp add: lease_of_def toy_db_def row_lease_def toy_queued_def insert_job_row_def split: prod.split)
  moreover have "jr_id toy_leased = jr_id toy_queued" by (simp add: toy_leased_def set_claimed_def)
  ultimately have "int (times_claimed toy_mime (jr_id toy_queued) [(all_ok, toy_call)] (toy_db [toy_queued])) = 1"
    using toy_lease by (simp add: toy_step)
  moreover have "jr_max_attempts toy_queued = 2" "jr_attempt_count toy_queued = 0"
    by (simp_all add: toy_queued_def insert_job_row_def toy_seed_def split: prod.split)
  moreover have "int (times_claimed toy_mime (jr_id toy_queued) [(all_ok, toy_call)] (toy_db [toy_queued]))
      \<le> jr_max_attempts toy_queued - jr_attempt_count toy_queued"
    by (rule claims_are_bounded [OF toy_queued_good toy_sane]) (simp add: toy_db_def)
  ultimately show ?thesis by simp
qed

theorem claim_takes_oldest_eligible_witness:
  "\<not> isl (fst (pg_Claim all_ok [] ''w1'' (1001 * Hour) (1002 * Hour) (toy_db [toy_queued]))) \<and>
   lease_of (toy_db [toy_leased]) (jr_id toy_queued) = Some (''w1'', pg_time (1002 * Hour))"
proof -
  have t: "pg_time (1001 * Hour) = 1001 * Hour" by (simp add: pg_time_def)
  have "toy_queued \<in> set (pdf_job (toy_db [toy_queued]))" by (simp add: toy_db_def)
  then have ex: "\<exists>r \<in> set (pdf_job (toy_db [toy_queued])). claimable (pg_time (1001 * Hour)) r \<and> jr_id r \<notin> set []"
    using toy_claimable(1) unfolding t by auto
  note A = claim_takes_oldest_eligible [OF toy_queued_good toy_versions(1) toy_worker, of all_ok "[]"
      "job_view toy_leased" "toy_db [toy_leased]"]
  from A ex toy_claim show ?thesis by (auto simp: toy_db_def)
qed

theorem stale_worker_rejected_witness:
  "snd (pg_Heartbeat all_ok (jr_id toy_leased) ''w2'' (1001 * Hour) (1003 * Hour) (toy_db [toy_leased])) = toy_db [toy_leased]"
  using stale_worker_rejected [OF toy_leased_good, of "jr_id toy_leased" "''w2''" "1001 * Hour"
      "\<lparr>tr_JobID = jr_id toy_leased, tr_WorkerID = ''w2'', tr_ExpectedStatus = StatusAnalyzing,
        tr_NextStatus = StatusFailed, tr_ProgressPercent = 0, tr_ProgressMessage = [], tr_ErrorCode = [],
        tr_ErrorMessage = [], tr_ObservedAt = 1001 * Hour, tr_LeaseExpiresAt = 1003 * Hour\<rparr>" all_ok "1003 * Hour"]
  by (simp add: toy_lease)

definition toy_calls :: "(faults \<times> job_call) list" where
  "toy_calls = [(all_ok, Call_Recover [] toy_recovery), (all_ok, Call_Claim [] ''w2'' (1003 * Hour) (1004 * Hour))]"

lemma leases_change_hands_by_claim_witness:
  "\<exists>pre flt call post. toy_calls = pre @ (flt, call) # post \<and>
    lease_of (job_run toy_mime pre (toy_db [toy_leased])) (jr_id toy_leased) = None \<and> claims_for call ''w2''"
proof (rule leases_change_hands_by_claim [OF toy_leased_good _ toy_lease])
  show "sane_run toy_calls" by (simp add: toy_calls_def)
  show "lease_of (job_run toy_mime toy_calls (toy_db [toy_leased])) (jr_id toy_leased) = Some (''w2'', 1004 * Hour)"
    by code_simp
qed simp

lemma Inr_of: "\<not> isl (fst x) \<Longrightarrow> x = (Inr (projr (fst x)), snd x)"
  by (cases "fst x") (auto simp: prod_eq_iff)

definition toy_cancel :: "(job_err + Job) \<times> job_db" where
  "toy_cancel = pg_job_Cancel all_ok (jr_id toy_leased) toy_owner (1001 * Hour + 5000) (toy_db [toy_leased])"

theorem cancellation_effective_idempotent_witness:
  "pg_job_Cancel all_ok (jr_id toy_leased) toy_owner (1002 * Hour) (snd toy_cancel) =
     (Inr (projr (fst toy_cancel)), snd toy_cancel)"
proof -
  have "\<not> isl (fst toy_cancel)" by code_simp
  then have "pg_job_Cancel all_ok (jr_id toy_leased) toy_owner (1001 * Hour + 5000) (toy_db [toy_leased])
      = (Inr (projr (fst toy_cancel)), snd toy_cancel)"
    using Inr_of unfolding toy_cancel_def by blast
  from cancellation_effective_idempotent [OF toy_leased_good this, of "1002 * Hour" "[]"] show ?thesis by auto
qed

definition toy_delete :: "job_sentinel check \<times> job_db" where
  "toy_delete = pg_job_Delete all_ok (jr_id toy_leased) toy_owner (1001 * Hour + 5000) (toy_db [toy_leased])"

theorem deleted_job_is_gone_witness:
  "fst (pg_job_Get all_ok (jr_id toy_leased) toy_owner (snd toy_delete)) = Inl (Sentinel JobErrNotFound)"
proof -
  have "fst toy_delete = None" by code_simp
  then have D: "pg_job_Delete all_ok (jr_id toy_leased) toy_owner (1001 * Hour + 5000) (toy_db [toy_leased]) = (None, snd toy_delete)"
    by (simp add: toy_delete_def prod_eq_iff)
  have "validUUID (jr_id toy_leased)" "valid_owner toy_owner" "owned_job (jr_id toy_leased) toy_owner toy_leased" by code_simp+
  moreover have "toy_leased \<in> set (pdf_job (toy_db [toy_leased]))" by (simp add: toy_db_def)
  moreover have "job_UploadID toy_seed = jr_upload_id toy_leased"
    by (simp add: toy_leased_def set_claimed_def toy_queued_def)
  ultimately show ?thesis
    using deleted_job_is_gone [OF toy_leased_good _ _ D, of toy_leased "[]" 1 "snd toy_delete" toy_seed]
    by (simp add: job_run_def)
qed

definition toy_created_job :: "(job_err + Job) \<times> job_db" where
  "toy_created_job = pg_job_Create all_ok toy_seed (toy_db [])"

definition toy_again :: Job where
  "toy_again = toy_seed\<lparr>job_ID := ''09090909-0909-4909-8909-090909090909''\<rparr>"

theorem job_created_once_from_upload_witness:
  "(\<exists>u \<in> {toy_source}. us_committed_sha256 u = Some (SHA256_String (job_InputSHA256 (projr (fst toy_created_job))))) \<and>
   (\<exists>job2. fst (pg_job_Create all_ok toy_again (job_run toy_mime [(all_ok, toy_call)] (snd toy_created_job))) = Inr job2 \<and>
      job_ID job2 = job_ID (projr (fst toy_created_job)))"
proof -
  have "\<not> isl (fst toy_created_job)" by code_simp
  then have c: "pg_job_Create all_ok toy_seed (toy_db []) = (Inr (projr (fst toy_created_job)), snd toy_created_job)"
    using Inr_of unfolding toy_created_job_def by blast
  have s: "Microsecond \<le> job_CreatedAt toy_seed" "job_UploadID toy_again = job_UploadID toy_seed" "job_Owner toy_again = job_Owner toy_seed"
    by (simp_all add: toy_seed_def toy_again_def)
  have a: "acceptable_seed toy_again" by code_simp
  have undeleted: "\<forall>owner t. Call_Delete (job_ID (projr (fst toy_created_job))) owner t \<notin> snd ` set [(all_ok, toy_call)]"
    by (simp add: toy_call_def)
  have "upload_session (toy_db []) = [toy_source]" by (simp add: toy_db_def)
  moreover note J = job_created_once_from_upload [OF toy_empty_jobs s(1) c toy_sane s(2) refl, of all_ok]
  ultimately have "\<exists>u \<in> set [toy_source]. us_committed_sha256 u = Some (SHA256_String (job_InputSHA256 (projr (fst toy_created_job))))"
    by (metis (no_types))
  moreover have "\<exists>job2. pg_job_Create all_ok toy_again (job_run toy_mime [(all_ok, toy_call)] (snd toy_created_job)) =
      (Inr job2, job_run toy_mime [(all_ok, toy_call)] (snd toy_created_job)) \<and> job_ID job2 = job_ID (projr (fst toy_created_job))"
    using J [THEN conjunct2, THEN conjunct2, THEN conjunct2, THEN conjunct2, THEN conjunct2, rule_format, OF conjI [OF a s(3)]] undeleted
    by blast
  ultimately show ?thesis by (metis fst_conv list.set(1,2))
qed

theorem recovery_frees_expired_leases_witness:
  "\<exists>result. fst (pg_RecoverExpired all_ok [] toy_recovery (toy_db [toy_leased])) = Inr result \<and>
     Requeued result + Cancelled result + Failed result = 1"
proof -
  have "validateRecovery toy_recovery = None"
    and "expired_batch [] (pg_time (rr_ObservedAt toy_recovery)) (rr_Limit toy_recovery) (pdf_job (toy_db [toy_leased])) = [toy_leased]"
    by (code_simp, simp add: expired_batch_def toy_recovery_def toy_db_def pg_time_def lease_expired_def toy_leased_def set_claimed_def)
  from recovery_frees_expired_leases [OF toy_leased_good toy_versions(2) this(1) this(2) [symmetric] refl]
  show ?thesis by auto
qed

lemma transition_table_sound_witness:
  "CanTransitionTo\<^sup>*\<^sup>* StatusQueued StatusValidating \<and> CanTransitionTo StatusValidating StatusFailed"
  using transition_table_sound [of StatusValidating StatusValidating]
  by (simp add: Status_Valid_def transitions_def Status_Terminal_def)

end
