(* ===== verification/Job_Pipeline.thy ===== *)
theory Job_Pipeline
  imports Job_Witness
begin

text \<open>
  From an upload to a finished job: what a worker may rely on while it holds a job, as the locale
  \<open>responsive_queue_store\<close>, and the theorem that a file which a client uploads is
  processed to the end when the database answers. It joins the managers of the packages
  \<open>upload\<close> and \<open>job\<close> and the queue of the workers.
\<close>

subsection \<open>A worker at its job\<close>

text \<open>What a worker does while it holds a job: it renews its lease or reports progress.\<close>

datatype worker_action = Renew instant | Report instant Transition

primrec work :: "'d JobQueue \<Rightarrow> string \<Rightarrow> worker_action list \<Rightarrow> 'd \<Rightarrow> job_sentinel check \<times> 'd" where
  "work queue j [] d = (None, d)"
| "work queue j (a # acts) d =
     (case a of
        Renew now \<Rightarrow>
          (case jq_Heartbeat now queue j d of
             ((_, Some err), d') \<Rightarrow> (Some err, d')
           | ((_, None), d') \<Rightarrow> work queue j acts d')
      | Report now t \<Rightarrow>
          (case jq_Transition now queue t d of
             (Inl err, d') \<Rightarrow> (Some err, d')
           | (Inr _, d') \<Rightarrow> work queue j acts d'))"

text \<open>A transition as the queue completes it.\<close>

definition filled :: "'d JobQueue \<Rightarrow> instant \<Rightarrow> Transition \<Rightarrow> Transition" where
  "filled queue now t = t\<lparr>tr_WorkerID := jq_workerID queue, tr_ObservedAt := now,
     tr_LeaseExpiresAt := now + jq_leaseDuration queue\<rparr>"

definition transition_texts :: "Transition \<Rightarrow> bool" where
  "transition_texts t \<longleftrightarrow> pg_text (tr_ProgressMessage t) \<and> pg_text (tr_ErrorCode t) \<and> pg_text (tr_ErrorMessage t)"

text \<open>
  A good plan: every action comes at or after the one before and before the lease ends, the reports follow the
  lifecycle from the status \<open>s\<close>, the progress does not fall, and the last report stops the
  job in the status \<open>final\<close>. The worker does not acknowledge a cancellation.
\<close>

fun work_plan ::
    "'d JobQueue \<Rightarrow> string \<Rightarrow> JobStatus \<Rightarrow> int \<Rightarrow> instant \<Rightarrow> instant \<Rightarrow> JobStatus \<Rightarrow> worker_action list \<Rightarrow> bool" where
  "work_plan queue j s percent since deadline final [] \<longleftrightarrow> False"
| "work_plan queue j s percent since deadline final (Renew now # acts) \<longleftrightarrow>
     since \<le> now \<and> now < deadline \<and>
     work_plan queue j s percent now (pg_time (now + jq_leaseDuration queue)) final acts"
| "work_plan queue j s percent since deadline final (Report now t # acts) \<longleftrightarrow>
     since \<le> now \<and> now < deadline \<and> tr_JobID t = j \<and> tr_ExpectedStatus t = s \<and> tr_NextStatus t \<noteq> StatusCancelled \<and>
     percent \<le> tr_ProgressPercent t \<and> transition_texts t \<and> validateTransition (filled queue now t) = None \<and>
     (if Status_Terminal (tr_NextStatus t) then acts = [] \<and> final = tr_NextStatus t
      else work_plan queue j (tr_NextStatus t) (tr_ProgressPercent t) now
        (pg_time (now + jq_leaseDuration queue)) final acts)"

text \<open>
  \<open>held d j w s p since e n\<close>: the worker \<open>w\<close> holds the job \<open>j\<close> in status \<open>s\<close> with \<open>p\<close> percent from
  \<open>since\<close> until \<open>e\<close>, nobody has asked to stop it, and its version counter has room for \<open>n\<close> updates;
  \<open>stored d j\<close> is the job; \<open>first_in_line d t j n\<close> says that a claim at \<open>t\<close> finds this job first.
\<close>

locale responsive_queue_store =
  fixes store :: "'d QueueStore" and stored :: "'d \<Rightarrow> string \<Rightarrow> Job option"
    and held :: "'d \<Rightarrow> string \<Rightarrow> string \<Rightarrow> JobStatus \<Rightarrow> int \<Rightarrow> instant \<Rightarrow> instant \<Rightarrow> nat \<Rightarrow> bool"
    and first_in_line :: "'d \<Rightarrow> instant \<Rightarrow> string \<Rightarrow> nat \<Rightarrow> bool"
  assumes claim_live: "first_in_line d t j (Suc n) \<Longrightarrow> validateClaim w t e = None \<Longrightarrow> pg_text w \<Longrightarrow>
      \<exists>claimed. fst (qst_Claim store w t e d) = Inr claimed \<and> job_ID claimed = j \<and>
        held (snd (qst_Claim store w t e d)) j w StatusAnalyzing 0 t (pg_time e) n"
    and renew_live: "held d j w s p b e (Suc n) \<Longrightarrow> b \<le> t \<Longrightarrow> t < e \<Longrightarrow> t < e' \<Longrightarrow>
      \<exists>job. fst (qst_Heartbeat store j w t e' d) = (job, None) \<and>
        held (snd (qst_Heartbeat store j w t e' d)) j w s p t (pg_time e') n"
    and report_live: "held d (tr_JobID x) (tr_WorkerID x) (tr_ExpectedStatus x) p b e (Suc n) \<Longrightarrow>
      b \<le> tr_ObservedAt x \<Longrightarrow> tr_ObservedAt x < e \<Longrightarrow> p \<le> tr_ProgressPercent x \<Longrightarrow>
      validateTransition x = None \<Longrightarrow> transition_texts x \<Longrightarrow> tr_NextStatus x \<noteq> StatusCancelled \<Longrightarrow>
      \<exists>job. fst (qst_Transition store x d) = Inr job \<and> stored (snd (qst_Transition store x d)) (tr_JobID x) = Some job \<and>
        job_Status job = tr_NextStatus x \<and> job_ProgressPercent job = tr_ProgressPercent x \<and>
        (\<not> Status_Terminal (tr_NextStatus x) \<longrightarrow>
          held (snd (qst_Transition store x d)) (tr_JobID x) (tr_WorkerID x) (tr_NextStatus x) (tr_ProgressPercent x)
            (tr_ObservedAt x) (pg_time (tr_LeaseExpiresAt x)) n)"
begin

lemma work_finishes:
  assumes "jq_store queue = store" and "0 < jq_leaseDuration queue"
    and "held d j (jq_workerID queue) s p b e (length acts)" and "work_plan queue j s p b e final acts"
  shows "\<exists>d' job. work queue j acts d = (None, d') \<and> stored d' j = Some job \<and> job_Status job = final"
  using assms(3,4)
proof (induction acts arbitrary: d s p b e)
  case (Cons a acts)
  show ?case
  proof (cases a)
    case (Renew now)
    have t: "b \<le> now" "now < e" "now < now + jq_leaseDuration queue" using Cons.prems(2) assms(2) by (simp_all add: Renew)
    obtain job d' where r: "qst_Heartbeat store j (jq_workerID queue) now (now + jq_leaseDuration queue) d = ((job, None), d')"
        "held d' j (jq_workerID queue) s p now (pg_time (now + jq_leaseDuration queue)) (length acts)"
      using renew_live [OF _ t, of d j "jq_workerID queue" s p "length acts"] Cons.prems(1) by (metis length_Cons prod.collapse)
    have plan: "work_plan queue j s p now (pg_time (now + jq_leaseDuration queue)) final acts"
      using Cons.prems(2) by (simp add: Renew)
    from Cons.IH [OF r(2) plan] show ?thesis by (simp add: Renew jq_Heartbeat_def assms(1) r(1))
  next
    case (Report now t)
    let ?t = "filled queue now t"
    have plan: "b \<le> now" "now < e" "tr_JobID t = j" "tr_ExpectedStatus t = s" "tr_NextStatus t \<noteq> StatusCancelled"
        "p \<le> tr_ProgressPercent t" "transition_texts t" "validateTransition ?t = None"
      using Cons.prems(2) by (simp_all add: Report)
    have f: "tr_JobID ?t = j" "tr_WorkerID ?t = jq_workerID queue" "tr_ExpectedStatus ?t = s" "tr_ObservedAt ?t = now"
        "tr_NextStatus ?t = tr_NextStatus t" "tr_ProgressPercent ?t = tr_ProgressPercent t"
        "tr_LeaseExpiresAt ?t = now + jq_leaseDuration queue" "transition_texts ?t"
      using plan by (simp_all add: filled_def transition_texts_def)
    obtain job d' where r: "qst_Transition store ?t d = (Inr job, d')" "stored d' j = Some job"
        "job_Status job = tr_NextStatus t"
        "\<not> Status_Terminal (tr_NextStatus t) \<longrightarrow> held d' j (jq_workerID queue) (tr_NextStatus t) (tr_ProgressPercent t)
          now (pg_time (now + jq_leaseDuration queue)) (length acts)"
      using report_live [of d ?t p b e "length acts"] Cons.prems(1) plan unfolding f
      by (metis f(8) length_Cons prod.collapse)
    have w: "jq_Transition now queue t d = (Inr job, d')"
      using r(1) plan(8) by (simp add: jq_Transition_def filled_def assms(1))
    show ?thesis
    proof (cases "Status_Terminal (tr_NextStatus t)")
      case True
      then have "acts = []" "final = tr_NextStatus t" using Cons.prems(2) by (simp_all add: Report)
      then show ?thesis using r by (simp add: Report w)
    next
      case False
      then have "work_plan queue j (tr_NextStatus t) (tr_ProgressPercent t) now
          (pg_time (now + jq_leaseDuration queue)) final acts"
        using Cons.prems(2) by (simp add: Report)
      from Cons.IH [OF r(4) [rule_format, OF False] this] show ?thesis by (simp add: Report w)
    qed
  qed
qed simp

lemma claimed_job_finishes:
  assumes "jq_store queue = store" and "0 < jq_leaseDuration queue" and "pg_text (jq_workerID queue)"
    and "validateClaim (jq_workerID queue) t (t + jq_leaseDuration queue) = None"
    and "first_in_line d t j (Suc (length acts))"
    and "work_plan queue j StatusAnalyzing 0 t (pg_time (t + jq_leaseDuration queue)) final acts"
  shows "\<exists>claimed d1 d2 job. jq_Claim t queue d = (Inr claimed, d1) \<and> job_ID claimed = j \<and>
    work queue j acts d1 = (None, d2) \<and> stored d2 j = Some job \<and> job_Status job = final"
proof -
  obtain claimed d1 where c: "qst_Claim store (jq_workerID queue) t (t + jq_leaseDuration queue) d = (Inr claimed, d1)"
      "job_ID claimed = j"
      "held d1 j (jq_workerID queue) StatusAnalyzing 0 t (pg_time (t + jq_leaseDuration queue)) (length acts)"
    using claim_live [OF assms(5,4,3)] by (metis prod.collapse)
  from work_finishes [OF assms(1,2) c(3) assms(6)] c(1,2) show ?thesis
    by (auto simp: jq_Claim_def assms(1))
qed

end

subsection \<open>The PostgreSQL queue answers\<close>

definition stored_job :: "'z job_db_scheme \<Rightarrow> string \<Rightarrow> Job option" where
  "stored_job d j = map_option job_view (find (\<lambda>r. jr_id r = j \<and> jr_deletion_requested_at r = None) (pdf_job d))"

definition works_on :: "string \<Rightarrow> string \<Rightarrow> JobStatus \<Rightarrow> int \<Rightarrow> instant \<Rightarrow> instant \<Rightarrow> nat \<Rightarrow> job_row \<Rightarrow> bool" where
  "works_on j w s p b e n r \<longleftrightarrow> jr_id r = j \<and> jr_status r = s \<and> active_status s \<and> jr_lease_owner r = Some w \<and>
     jr_lease_expires_at r = Some e \<and> \<not> stop_requested r \<and> jr_progress_percent r = p \<and>
     jr_created_at r \<le> b \<and> jr_version r + int n \<le> MaxInt64 \<and> validWorkerID w \<and> pg_text w"

definition job_held ::
    "mime \<Rightarrow> 'z job_db_scheme \<Rightarrow> string \<Rightarrow> string \<Rightarrow> JobStatus \<Rightarrow> int \<Rightarrow> instant \<Rightarrow> instant \<Rightarrow> nat \<Rightarrow> bool" where
  "job_held m d j w s p b e n \<longleftrightarrow> jobs_good m d \<and> (\<exists>r \<in> set (pdf_job d). works_on j w s p b e n r)"

definition job_first :: "mime \<Rightarrow> string list \<Rightarrow> 'z job_db_scheme \<Rightarrow> instant \<Rightarrow> string \<Rightarrow> nat \<Rightarrow> bool" where
  "job_first m locked d t j n \<longleftrightarrow> jobs_good m d \<and> j \<notin> set locked \<and>
     (\<exists>r \<in> set (pdf_job d). jr_id r = j \<and> claimable (pg_time t) r \<and> jr_version r + int n \<le> MaxInt64 \<and>
       (\<forall>q \<in> set (pdf_job d). claimable (pg_time t) q \<and> jr_id q \<notin> set locked \<and> jr_id q \<noteq> j \<longrightarrow>
          claim_order r < claim_order q))"

lemma stored_row:
  assumes "jobs_good m d" and "r \<in> set (pdf_job d)" and "jr_deletion_requested_at r = None"
  shows "stored_job d (jr_id r) = Some (job_view r)"
  using find_conj_key [where P = "\<lambda>r. jr_deletion_requested_at r = None", OF find_job [OF assms(1,2)] assms(3)] assms(1)
  by (simp add: stored_job_def jobs_good_def)

lemma after_creation:
  assumes "job_row_good r" and "jr_created_at r \<le> t"
  shows "jr_created_at r \<le> pg_time t" and "0 < t"
proof -
  have "pg_aligned (jr_created_at r)" "0 < jr_created_at r"
    using assms(1) by (simp_all add: job_row_good_def identity_good_def)
  then show "jr_created_at r \<le> pg_time t" "0 < t"
    using pg_time_mono [OF assms(2)] assms(2) by (simp_all add: pg_aligned_def)
qed

lemma renewed_check:
  assumes good: "job_row_good r" and "jr_created_at r \<le> at" and "jr_version r < MaxInt64"
  shows "job_row_check (set_renewed at lease r)"
  using good_check [OF good] assms(2,3) by (simp add: job_check_defs set_renewed_def le_max_iff_disj)

lemma transition_columns:
  assumes "validateTransition t = None"
  shows "0 \<le> tr_ProgressPercent t" "tr_ProgressPercent t \<le> 100" "length (tr_ProgressMessage t) \<le> 512"
    "tr_NextStatus t = StatusFailed \<Longrightarrow> length (tr_ErrorCode t) \<le> 128 \<and> length (tr_ErrorMessage t) \<le> 1024"
    "validWorkerID (tr_WorkerID t)"
  using assms by (auto simp: validateTransition_def validBoundedText_def maxProgressBytes_def maxErrorCodeBytes_def
    maxErrorMessageBytes_def split: if_splits option.splits)

lemma moved_check:
  assumes good: "job_row_good r" and v: "validateTransition t = None" and "jr_created_at r \<le> pg_time (tr_ObservedAt t)"
    and "jr_version r < MaxInt64"
  shows "job_row_check (set_moved t r)"
proof -
  note B = transition_bounds [OF v] and L = transition_columns [OF v]
  have st: "case tr_NextStatus t of JobStatusOther v \<Rightarrow> False | _ \<Rightarrow> True"
    using B(3) by (simp add: Status_Valid_def transitions_def split: JobStatus.splits)
  have C: "job_row_check r" by (rule good_check [OF good])
  have done_at: "null_or (\<lambda>u. jr_created_at r \<le> u) (coalesce (jr_completed_at r) (max (pg_time (tr_ObservedAt t)) (jr_created_at r)))"
    using C by (cases "jr_completed_at r") (simp_all add: job_check_defs)
  have err: "null_or (\<lambda>v. length v \<le> n) (nullableString x)" if "length x \<le> n" for x :: string and n
    using that by (simp add: nullableString_def)
  show ?thesis
    using C st done_at L B(3) assms(3,4) err [of "tr_ErrorCode t" 128] err [of "tr_ErrorMessage t" 1024]
    by (auto simp: job_check_defs set_moved_def Let_def le_max_iff_disj)
qed

lemma update_returning_live:
  assumes good: "jobs_good m d" and r: "r \<in> set (pdf_job d)" "P r" and only: "\<And>q. P q \<Longrightarrow> jr_id q = jr_id r"
    and "sendable" and move: "job_move r (f r)" and chk: "job_row_check (f r)"
  shows "\<exists>d'. update_returning all_ok op sendable P f missing d = (Inr (job_view (f r)), d') \<and>
    jobs_good m d' \<and> f r \<in> set (pdf_job d')"
proof -
  have one: "q = r" if "q \<in> set (pdf_job d)" "P q" for q using the_job [OF good r(1) that(1)] only [OF that(2)] by blast
  let ?rows = "sql_update P f (pdf_job d)"
  have u: "sql_checked_update job_row_check P f (pdf_job d) = Some ?rows"
    using one chk by (auto simp: sql_checked_update_def list_all_iff)
  have "find P (pdf_job d) \<noteq> None" using r by (auto simp: find_None_iff)
  then obtain q where q: "find P (pdf_job d) = Some q" by auto
  with one have "q = r" using find_Some_in [OF q] by blast
  moreover have "scanJob (f r) = Inr (job_view (f r))"
    by (rule scan_stored_job [OF move_keeps_good [OF move jobs_good_row(1) [OF good r(1)]]])
  moreover have "job_change d (d\<lparr>pdf_job := ?rows\<rparr>)"
    by (rule checked_update_change [OF u]) (use one move in blast)
  then have "jobs_good m (d\<lparr>pdf_job := ?rows\<rparr>)" by (rule job_change_keeps_invariant [OF _ good])
  moreover have "f r \<in> set ?rows" using r by (force simp: sql_update_def)
  ultimately show ?thesis using u q assms(5) by (simp add: update_returning_def)
qed

lemma held_row:
  assumes "job_held m d j w s p b e n"
  obtains r where "jobs_good m d" "r \<in> set (pdf_job d)" "works_on j w s p b e n r" "job_row_good r" "validUUID j"
proof -
  obtain r where r: "jobs_good m d" "r \<in> set (pdf_job d)" "works_on j w s p b e n r"
    using assms by (auto simp: job_held_def)
  have "job_row_good r" using jobs_good_row(1) [OF r(1,2)] .
  then have "validUUID j" using r(3) by (simp add: works_on_def job_row_good_def identity_good_def)
  with r \<open>job_row_good r\<close> show ?thesis by (rule that)
qed

lemma holding: "works_on j w s p b e n r \<Longrightarrow> t < e \<Longrightarrow> holds_lease j w (pg_time t) r"
  using pg_time_le [of t] unfolding works_on_def holds_lease_def by (auto simp del: pg_time_le)

lemma pg_report_live:
  assumes "job_held m d (tr_JobID x) (tr_WorkerID x) (tr_ExpectedStatus x) p b e (Suc n)"
    and t: "b \<le> tr_ObservedAt x" "tr_ObservedAt x < e" and p: "p \<le> tr_ProgressPercent x"
    and v: "validateTransition x = None" and "transition_texts x" and "tr_NextStatus x \<noteq> StatusCancelled"
  shows "\<exists>job. fst (pg_Transition all_ok x d) = Inr job \<and>
    stored_job (snd (pg_Transition all_ok x d)) (tr_JobID x) = Some job \<and>
    job_Status job = tr_NextStatus x \<and> job_ProgressPercent job = tr_ProgressPercent x \<and>
    (\<not> Status_Terminal (tr_NextStatus x) \<longrightarrow>
      job_held m (snd (pg_Transition all_ok x d)) (tr_JobID x) (tr_WorkerID x) (tr_NextStatus x) (tr_ProgressPercent x)
        (tr_ObservedAt x) (pg_time (tr_LeaseExpiresAt x)) n)"
proof -
  from assms(1) obtain r where r: "jobs_good m d" "r \<in> set (pdf_job d)"
      "works_on (tr_JobID x) (tr_WorkerID x) (tr_ExpectedStatus x) p b e (Suc n) r" "job_row_good r"
    by (rule held_row)
  note W = r(3) [unfolded works_on_def]
  note B = transition_bounds [OF v] and after = after_creation(1) [OF r(4), of "tr_ObservedAt x"]
  have mv: "movable x r" using holding [OF r(3) t(2)] W p assms(7) by (simp add: movable_def)
  have chk: "job_row_check (set_moved x r)" by (rule moved_check [OF r(4) v]) (use after t W in simp_all)
  have only: "\<And>q. movable x q \<Longrightarrow> jr_id q = jr_id r" using W by (simp add: movable_def holds_lease_def)
  have texts: "pg_text (tr_WorkerID x) \<and> pg_text (tr_ProgressMessage x) \<and> pg_text (tr_ErrorCode x) \<and> pg_text (tr_ErrorMessage x)"
    using W assms(6) by (simp add: transition_texts_def)
  obtain d' where d': "pg_Transition all_ok x d = (Inr (job_view (set_moved x r)), d')" "jobs_good m d'"
      "set_moved x r \<in> set (pdf_job d')"
    using update_returning_live [where f = "set_moved x" and P = "movable x",
      OF r(1,2) mv only texts moved [OF v mv chk] chk] v
    by (auto simp: pg_Transition_def)
  have st: "stored_job d' (tr_JobID x) = Some (job_view (set_moved x r))"
    using stored_row [OF d'(2,3)] W by (simp add: set_moved_def Let_def stop_requested_def)
  have "works_on (tr_JobID x) (tr_WorkerID x) (tr_NextStatus x) (tr_ProgressPercent x) (tr_ObservedAt x)
      (pg_time (tr_LeaseExpiresAt x)) n (set_moved x r)" if a: "\<not> Status_Terminal (tr_NextStatus x)"
    using W a t B(3-5) transition_columns(5) [OF v]
    by (cases "tr_NextStatus x") (auto simp: works_on_def set_moved_def Let_def stop_requested_def Status_Valid_def transitions_def)
  with d' st show ?thesis by (auto simp: job_held_def set_moved_def Let_def)
qed

lemma pg_renew_live:
  assumes "job_held m d j w s p b e (Suc n)" and t: "b \<le> t" "t < e" "t < e'"
  shows "\<exists>job. fst (pg_Heartbeat all_ok j w t e' d) = (job, None) \<and>
    job_held m (snd (pg_Heartbeat all_ok j w t e' d)) j w s p t (pg_time e') n"
proof -
  from assms(1) obtain r where r: "jobs_good m d" "r \<in> set (pdf_job d)" "works_on j w s p b e (Suc n) r"
      "job_row_good r" "validUUID j" by (rule held_row)
  note W = r(3) [unfolded works_on_def]
  let ?f = "set_renewed (pg_time t) (pg_time e')"
  have after: "jr_created_at r \<le> pg_time t" "0 < t" using after_creation [OF r(4), of t] t W by simp_all
  have v: "validateHeartbeat j w t e' = None"
    using r(5) W t after by (simp add: validateHeartbeat_def validateClaim_def IsZero_def)
  have chk: "job_row_check (?f r)" by (rule renewed_check [OF r(4) after(1)]) (use W in simp)
  have move: "job_move r (?f r)"
    by (rule renewed [OF _ _ _ _ _ chk]) (use W pg_time_mono [of t e'] t in simp_all)
  have only: "\<And>q. holds_lease j w (pg_time t) q \<Longrightarrow> jr_id q = jr_id r" using W by (simp add: holds_lease_def)
  obtain d' where d': "update_returning all_ok ''heartbeat'' (pg_text w) (holds_lease j w (pg_time t)) ?f ErrLeaseLost d =
      (Inr (job_view (?f r)), d')" "jobs_good m d'" "?f r \<in> set (pdf_job d')"
    using update_returning_live [where f = ?f and P = "holds_lease j w (pg_time t)",
      OF r(1,2) holding [OF r(3) t(2)] only _ move chk] W
    by blast
  have "works_on j w s p t (pg_time e') n (?f r)"
    using W t by (auto simp: works_on_def set_renewed_def stop_requested_def)
  with d' v W show ?thesis
    by (auto simp: pg_Heartbeat_def job_held_def stop_requested_def set_renewed_def)
qed

lemma pg_claim_live:
  assumes "job_first m locked d t j (Suc n)" and v: "validateClaim w t e = None" and "pg_text w"
  shows "\<exists>claimed. fst (pg_Claim all_ok locked w t e d) = Inr claimed \<and> job_ID claimed = j \<and>
    job_held m (snd (pg_Claim all_ok locked w t e d)) j w StatusAnalyzing 0 t (pg_time e) n"
proof -
  obtain r where good: "jobs_good m d" "j \<notin> set locked" and r: "r \<in> set (pdf_job d)" "jr_id r = j" "claimable (pg_time t) r"
      "jr_version r + int (Suc n) \<le> MaxInt64"
      "\<forall>q \<in> set (pdf_job d). claimable (pg_time t) q \<and> jr_id q \<notin> set locked \<and> jr_id q \<noteq> j \<longrightarrow> claim_order r < claim_order q"
    using assms(1) by (auto simp: job_first_def)
  note G = jobs_good_row(1) [OF good(1) r(1)] and T = claim_times [OF v]
  let ?f = "set_claimed w (pg_time t) (pg_time e)"
  have chk: "job_row_check (?f r)" by (rule claim_check [OF G r(3)]) (use T r(4) in simp_all)
  have move: "job_move r (?f r)" by (rule claimed [OF r(3) _ _ _ chk]) (use T in simp_all)
  let ?waiting = "filter (\<lambda>q. claimable (pg_time t) q \<and> jr_id q \<notin> set locked) (pdf_job d)"
  have "r \<in> set (sort_key claim_order ?waiting)" using r(1-3) good(2) by simp
  then obtain c rest where c: "sort_key claim_order ?waiting = c # rest"
    by (cases "sort_key claim_order ?waiting") (simp only: list.set empty_iff, blast)
  have K: "c \<in> set (pdf_job d)" "claimable (pg_time t) c \<and> jr_id c \<notin> set locked"
      "\<forall>q \<in> set (pdf_job d). claimable (pg_time t) q \<and> jr_id q \<notin> set locked \<longrightarrow> claim_order c \<le> claim_order q"
    using claim_candidate [OF c] by blast+
  have "\<not> claim_order r < claim_order c" using bspec [OF K(3) r(1)] r(2,3) good(2) by (simp add: not_less)
  then have "jr_id c = jr_id r" using bspec [OF r(5) K(1)] K(2) r(2) by argo
  then have "c = r" by (rule the_job [OF good(1) r(1) K(1)])
  note U = checked_update_at [OF good(1) r(1), of ?f, OF chk]
  let ?d = "d\<lparr>pdf_job := sql_update (\<lambda>q. jr_id q = jr_id r) ?f (pdf_job d)\<rparr>"
  have "job_change d ?d"
    by (rule checked_update_change [OF U]) (use the_job [OF good(1) r(1)] move in blast)
  then have "jobs_good m ?d" by (rule job_change_keeps_invariant [OF _ good(1)])
  moreover have "?f r \<in> set (pdf_job ?d)" using r(1) by (force simp: sql_update_def)
  moreover have "works_on j w StatusAnalyzing 0 t (pg_time e) n (?f r)"
  proof -
    have "jr_created_at r \<le> jr_available_at r" "jr_progress_percent r = 0"
      using G r(3) by (simp_all add: job_row_good_def job_check_defs state_good_def outcome_good_def claimable_def)
    moreover have "jr_available_at r \<le> t" using r(3) pg_time_le [of t] unfolding claimable_def by linarith
    ultimately show ?thesis
      using r(2-4) T assms(3) by (simp add: works_on_def set_claimed_def stop_requested_def claimable_def)
  qed
  moreover have "pg_Claim all_ok locked w t e d = (Inr (job_view (?f r)), ?d)"
    using v assms(3) c \<open>c = r\<close> U scan_stored_job [OF move_keeps_good [OF move G]] by (simp add: pg_Claim_def Let_def)
  ultimately show ?thesis using r(2) by (auto simp: job_held_def set_claimed_def)
qed

interpretation pg_queue: responsive_queue_store "PostgresQueueStore all_ok locked" stored_job "job_held m" "job_first m locked"
proof
  fix d :: "'z job_db_scheme" and t j n w e
  assume "job_first m locked d t j (Suc n)" "validateClaim w t e = None" "pg_text w"
  then show "\<exists>claimed. fst (qst_Claim (PostgresQueueStore all_ok locked) w t e d) = Inr claimed \<and> job_ID claimed = j \<and>
      job_held m (snd (qst_Claim (PostgresQueueStore all_ok locked) w t e d)) j w StatusAnalyzing 0 t (pg_time e) n"
    unfolding PostgresQueueStore_def QueueStore.simps by (rule pg_claim_live)
next
  fix d :: "'z job_db_scheme" and j w s p b e n t e'
  assume "job_held m d j w s p b e (Suc n)" "b \<le> t" "t < e" "t < e'"
  then show "\<exists>job. fst (qst_Heartbeat (PostgresQueueStore all_ok locked) j w t e' d) = (job, None) \<and>
      job_held m (snd (qst_Heartbeat (PostgresQueueStore all_ok locked) j w t e' d)) j w s p t (pg_time e') n"
    unfolding PostgresQueueStore_def QueueStore.simps by (rule pg_renew_live)
next
  fix d :: "'z job_db_scheme" and x p b e n
  assume "job_held m d (tr_JobID x) (tr_WorkerID x) (tr_ExpectedStatus x) p b e (Suc n)" "b \<le> tr_ObservedAt x"
    "tr_ObservedAt x < e" "p \<le> tr_ProgressPercent x" "validateTransition x = None" "transition_texts x"
    "tr_NextStatus x \<noteq> StatusCancelled"
  then show "\<exists>job. fst (qst_Transition (PostgresQueueStore all_ok locked) x d) = Inr job \<and>
      stored_job (snd (qst_Transition (PostgresQueueStore all_ok locked) x d)) (tr_JobID x) = Some job \<and>
      job_Status job = tr_NextStatus x \<and> job_ProgressPercent job = tr_ProgressPercent x \<and>
      (\<not> Status_Terminal (tr_NextStatus x) \<longrightarrow> job_held m (snd (qst_Transition (PostgresQueueStore all_ok locked) x d))
        (tr_JobID x) (tr_WorkerID x) (tr_NextStatus x) (tr_ProgressPercent x) (tr_ObservedAt x)
        (pg_time (tr_LeaseExpiresAt x)) n)"
    unfolding PostgresQueueStore_def QueueStore.simps by (rule pg_report_live)
qed

subsection \<open>A job from a committed upload\<close>

lemma new_job_seed [simp]:
  "job_ID (new_job manager j request now) = j" "job_UploadID (new_job manager j request now) = cr_UploadID request"
  "job_Owner (new_job manager j request now) = cr_Owner request"
  "job_Creator (new_job manager j request now) = cr_Creator request"
  "job_CreatedAt (new_job manager j request now) = now" "job_UpdatedAt (new_job manager j request now) = now"
  "job_AvailableAt (new_job manager j request now) = now"
  "job_ExpiresAt (new_job manager j request now) = now + jm_retention manager"
  "job_TargetBytes (new_job manager j request now) = jm_targetBytes manager"
  "job_MaxAttempts (new_job manager j request now) = jm_maxAttempts manager"
  by (simp_all add: new_job_def)

lemma new_job_valid:
  assumes "validUUID j" and "validUUID (cr_UploadID request)" and "validateCreator (cr_Owner request) (cr_Creator request) = None"
    and "0 < jm_targetBytes manager" "0 < jm_maxAttempts manager" "0 < jm_retention manager" and "0 < now"
  shows "validateJobSeed (new_job manager j request now) = None"
  using assms by (simp add: validateJobSeed_def job_times_invalid_def IsZero_def) (simp add: new_job_def)

lemma pg_job_Create_live:
  assumes good: "jobs_good m d" and u: "u \<in> set (upload_session d)" "committed_source (job_UploadID s) (job_Owner s) u"
    and v: "validateJobSeed s = None" and chk: "job_row_check (insert_job_row s u)"
    and "Microsecond \<le> job_CreatedAt s" and texts: "creator_texts (job_Creator s)"
    and fresh: "\<forall>q \<in> set (pdf_job d). jr_id q \<noteq> job_ID s \<and> jr_upload_id q \<noteq> job_UploadID s"
    and owner: "owner_exists (owner_columns (job_Owner s)) d"
  shows "pg_job_Create all_ok s d =
      (Inr (job_view (insert_job_row s u)), d\<lparr>pdf_job := pdf_job d @ [insert_job_row s u]\<rparr>) \<and>
    jobs_good m (d\<lparr>pdf_job := pdf_job d @ [insert_job_row s u]\<rparr>)"
proof -
  let ?row = "insert_job_row s u"
  have U: "uploads_good m d" using good by (simp add: jobs_good_def)
  have D: "inj_on us_id (set (upload_session d))" "inj_on us_object_key (set (upload_session d))"
    using U by (simp_all add: uploads_good_def distinct_map)
  have "find (committed_source (job_UploadID s) (job_Owner s)) (upload_session d) \<noteq> None"
    using u by (auto simp: find_None_iff)
  then obtain u' where u': "find (committed_source (job_UploadID s) (job_Owner s)) (upload_session d) = Some u'" by auto
  have "u' = u"
    by (rule inj_onD [OF D(1) _ _ u(1)]) (use find_Some_in [OF u'] u(2) in \<open>auto simp: committed_source_def\<close>)
  with u' have find: "find (committed_source (job_UploadID s) (job_Owner s)) (upload_session d) = Some u" by simp
  have none: "find (\<lambda>r. jr_upload_id r = job_UploadID s) (pdf_job d) = None" using fresh by (simp add: find_None_iff)
  have keys: "jr_input_object_key q \<noteq> us_object_key u" if q: "q \<in> set (pdf_job d)" for q
  proof
    assume k: "jr_input_object_key q = us_object_key u"
    obtain w where w: "w \<in> set (upload_session d)" "from_upload w q" using jobs_good_row(2) [OF good q] by blast
    have "w = u" by (rule inj_onD [OF D(2) _ w(1) u(1)]) (use w(2) k in \<open>simp add: from_upload_def\<close>)
    then show False using w(2) u(2) fresh q by (auto simp: from_upload_def committed_source_def)
  qed
  have pos: "0 < jr_created_at ?row" using pg_time_pos [OF assms(6)] by simp
  have gr: "job_row_good ?row" using seed_row_good [OF U u(1) v u(2) chk pos] by blast
  have cj: "created_job ?row = Inr (job_view ?row)"
    using scan_stored_job [OF gr] by (simp add: created_job_def)
  have "job_change d (d\<lparr>pdf_job := pdf_job d @ [?row]\<rparr>)"
    by (rule queued [OF v u refl chk pos]) (use fresh in \<open>simp add: list_all_iff\<close>)
  then have "jobs_good m (d\<lparr>pdf_job := pdf_job d @ [?row]\<rparr>)" by (rule job_change_keeps_invariant [OF _ good])
  moreover have "pg_job_Create all_ok s d = (Inr (job_view ?row), d\<lparr>pdf_job := pdf_job d @ [?row]\<rparr>)"
    using v texts find chk none keys fresh owner cj by (auto simp: pg_job_Create_def Let_def list_ex_iff)
  ultimately show ?thesis by blast
qed

text \<open>What is configured: the managers as their constructors make them, and a worker with a name.\<close>

definition job_service :: "'z job_db_scheme JobManager \<Rightarrow> 'z job_db_scheme JobQueue \<Rightarrow> string list \<Rightarrow> bool" where
  "job_service manager queue locked \<longleftrightarrow>
     jm_store manager = PostgresJobStore all_ok \<and> 0 < jm_targetBytes manager \<and>
     0 < jm_maxAttempts manager \<and> jm_maxAttempts manager \<le> MaxInt32 \<and> Microsecond \<le> jm_retention manager \<and>
     jq_store queue = PostgresQueueStore all_ok locked \<and> validWorkerID (jq_workerID queue) \<and>
     pg_text (jq_workerID queue) \<and> 0 < jq_leaseDuration queue"

text \<open>
  No job that is waiting when the worker claims comes before one that becomes available at \<open>now\<close>.
\<close>

definition queue_idle :: "'z job_db_scheme \<Rightarrow> instant \<Rightarrow> string list \<Rightarrow> bool" where
  "queue_idle d t locked \<longleftrightarrow> (\<forall>q \<in> set (pdf_job d). \<not> (claimable (pg_time t) q \<and> jr_id q \<notin> set locked))"

text \<open>The calls of a worker are a run of the store.\<close>

lemma claim_and_work_run:
  assumes "jq_store queue = PostgresQueueStore flt locked" and "jq_Claim t queue d = (Inr claimed, d1)"
    and "work queue j acts d1 = (res, d2)"
  shows "\<exists>calls. sane_run calls \<and> d2 = job_run m calls d"
proof -
  have step: "\<exists>calls. sane_run calls \<and> snd (work queue j acts d) = job_run m calls d" for d
  proof (induction acts arbitrary: d)
    case Nil
    show ?case by (intro exI [of _ "[]"]) (simp add: job_run_def)
  next
    case (Cons a acts)
    have "\<exists>c. sane_run c \<and> (snd (work queue j (a # acts) d) = job_run m c d \<or>
        snd (work queue j (a # acts) d) = snd (work queue j acts (job_run m c d)))"
    proof (cases a)
      case (Renew now)
      obtain job err d' where h: "pg_Heartbeat flt j (jq_workerID queue) now (now + jq_leaseDuration queue) d = ((job, err), d')"
        by (metis surj_pair)
      then show ?thesis
        by (intro exI [of _ "[(flt, Call_Heartbeat j (jq_workerID queue) now (now + jq_leaseDuration queue))]"])
          (cases err; simp add: Renew jq_Heartbeat_def assms(1) PostgresQueueStore_def job_run_def)
    next
      case (Report now x)
      obtain r d' where h: "pg_Transition flt (filled queue now x) d = (r, d')" by fastforce
      show ?thesis
      proof (cases "validateTransition (filled queue now x)")
        case None
        then show ?thesis using h
          by (intro exI [of _ "[(flt, Call_Transition (filled queue now x))]"])
            (cases r; simp add: Report jq_Transition_def assms(1) PostgresQueueStore_def job_run_def filled_def)
      qed (intro exI [of _ "[]"], simp add: Report jq_Transition_def job_run_def filled_def)
    qed
    then obtain c where c: "sane_run c" "snd (work queue j (a # acts) d) = job_run m c d \<or>
        snd (work queue j (a # acts) d) = snd (work queue j acts (job_run m c d))" by blast
    from Cons.IH [of "job_run m c d"] obtain cs where "sane_run cs"
        "snd (work queue j acts (job_run m c d)) = job_run m (c @ cs) d"
      by (auto simp: job_run_def)
    with c show ?case by (metis Un_iff set_append)
  qed
  let ?claim = "(flt, Call_Claim locked (jq_workerID queue) t (t + jq_leaseDuration queue))"
  have "d1 = job_run m [?claim] d"
    using assms(1,2) by (simp add: jq_Claim_def PostgresQueueStore_def job_run_def)
  moreover obtain calls where "sane_run calls" "d2 = job_run m calls d1" using step [of d1] assms(3) by auto
  ultimately show ?thesis by (intro exI [of _ "?claim # calls"]) (simp add: job_run_def)
qed

lemma read_after_run:
  assumes good: "jobs_good m d" and "sane_run calls" and r: "r \<in> set (pdf_job d)" "jr_owner r = owner_columns owner" "jr_id r = j"
    and "stored_job (job_run m calls d) j = Some result" and "validUUID j" and "job_Owner_Validate owner = None"
  shows "pg_job_Get all_ok j owner (job_run m calls d) = (Inr result, job_run m calls d) \<and>
    (\<exists>r'. same_identity r r' \<and> result = job_view r')"
proof -
  let ?d = "job_run m calls d"
  have good': "jobs_good m ?d" using job_run_changes [OF good assms(2)] by blast
  obtain q where q: "q \<in> set (pdf_job ?d)" "same_identity r q"
    using run_evolves [OF good assms(2) r(1)] by (auto simp: job_evolves_def)
  obtain q' where q': "q' \<in> set (pdf_job ?d)" "jr_id q' = j" "jr_deletion_requested_at q' = None" "result = job_view q'"
    using assms(6) by (auto simp: stored_job_def dest!: find_Some_in)
  have "q' = q" by (rule the_job [OF good' q(1) q'(1)]) (use q(2) q'(2) r(3) in \<open>simp add: same_identity_def\<close>)
  have "find (\<lambda>p. jr_id p = j) (pdf_job ?d) = Some q" using find_job [OF good' q(1)] q'(2) \<open>q' = q\<close> by simp
  then have "find (\<lambda>p. jr_id p = j \<and> (jr_owner p = owner_columns owner \<and> jr_deletion_requested_at p = None)) (pdf_job ?d) = Some q"
    by (rule find_conj_key) (use q(2) q' \<open>q' = q\<close> r(2) good' in \<open>simp_all add: same_identity_def jobs_good_def\<close>)
  moreover have "scanJob q = Inr result"
    using scan_stored_job [OF jobs_good_row(1) [OF good' q(1)]] q'(4) \<open>q' = q\<close> by simp
  ultimately show ?thesis
    using assms(7,8) q(2) q'(4) \<open>q' = q\<close> by (auto simp: pg_job_Get_def conj_assoc)
qed

lemma queued_job_finishes:
  assumes good: "jobs_good m d" and svc: "job_service manager queue locked"
    and u: "u \<in> set (upload_session d)" "committed_source (cr_UploadID request) (cr_Owner request) u"
    and c: "validateCreator (cr_Owner request) (cr_Creator request) = None" "creator_texts (cr_Creator request)"
    and own: "owner_exists (owner_columns (cr_Owner request)) d"
    and g: "generateUUID random = Some (j, rest)"
    and fresh: "\<forall>q \<in> set (pdf_job d). jr_id q \<noteq> j \<and> jr_upload_id q \<noteq> cr_UploadID request"
    and now: "Microsecond \<le> now" and t: "now \<le> t" "pg_time t < pg_time (now + jm_retention manager)"
    and idle: "queue_idle d t locked" "j \<notin> set locked"
    and plan: "work_plan queue j StatusAnalyzing 0 t (pg_time (t + jq_leaseDuration queue)) final acts"
    and len: "int (length acts) + 2 \<le> MaxInt64"
  shows "\<exists>job d1 claimed d2 d3 result. jm_Create random now manager request d = (Inr job, d1) \<and>
    jq_Claim t queue d1 = (Inr claimed, d2) \<and> job_ID claimed = job_ID job \<and>
    work queue (job_ID job) acts d2 = (None, d3) \<and> jm_Get manager (job_ID job) (cr_Owner request) d3 = (Inr result, d3) \<and>
    job_Status result = final \<and> job_UploadID result = cr_UploadID request \<and>
    job_InputSHA256 result = stored_digest (text_or_empty (us_committed_sha256 u)) \<and>
    job_InputBytes result = us_declared_size u"
proof -
  let ?s = "new_job manager j request now"
  let ?row = "insert_job_row ?s u" and ?d1 = "d\<lparr>pdf_job := pdf_job d @ [insert_job_row (new_job manager j request now) u]\<rparr>"
  note S = svc [unfolded job_service_def]
  have U: "uploads_good m d" using good by (simp add: jobs_good_def)
  have "validUUID (us_id u)"
    using uploads_good_row(1) [OF U u(1)] by (simp add: upload_row_good_def validateStoredSession_None stored_fields_ok_def)
  then have uid: "validUUID (cr_UploadID request)" using u(2) by (simp add: committed_source_def)
  have pos: "0 < now" using now by simp
  have v: "validateJobSeed ?s = None"
    by (rule new_job_valid [OF generateUUID_valid [OF g] uid c(1)]) (use S pos in simp_all)
  have chk: "job_row_check ?row" by (rule seed_row_check [OF U u(1)]) (use S u(2) v c(2) in \<open>simp_all add: acceptable_seed_def\<close>)
  have C: "pg_job_Create all_ok ?s d = (Inr (job_view ?row), ?d1) \<and> jobs_good m ?d1"
    by (rule pg_job_Create_live [OF good u(1) _ v chk]) (use u(2) now c(2) fresh own in simp_all)
  have create: "jm_Create random now manager request d = (Inr (job_view ?row), ?d1)"
    using S uid c(1) g C by (simp add: jm_Create_def PostgresJobStore_def)
  have cl: "claimable (pg_time t) ?row"
    using pg_time_mono [OF t(1)] t(2) S by (simp add: claimable_def insert_job_row_def split: prod.split)
  have first: "job_first m locked ?d1 t j (Suc (length acts))"
    using C cl idle len by (auto simp: job_first_def queue_idle_def)
  have vc: "validateClaim (jq_workerID queue) t (t + jq_leaseDuration queue) = None"
    using S pos t(1) by (simp add: validateClaim_def IsZero_def)
  obtain claimed d2 d3 result where W: "jq_Claim t queue ?d1 = (Inr claimed, d2)" "job_ID claimed = j"
      "work queue j acts d2 = (None, d3)" "stored_job d3 j = Some result" "job_Status result = final"
    using pg_queue.claimed_job_finishes [OF _ _ _ vc first plan] S by blast
  obtain calls where calls: "sane_run calls" "d3 = job_run m calls ?d1"
    using claim_and_work_run [OF _ W(1,3)] S by blast
  have own: "jr_owner ?row = owner_columns (cr_Owner request)" "jr_id ?row = j" by simp_all
  have vo: "job_Owner_Validate (cr_Owner request) = None"
    using seed_facts(4) [OF v] by (simp add: job_Owner_Validate_None)
  from read_after_run [OF conjunct2 [OF C] calls(1) _ own W(4) [unfolded calls(2)] generateUUID_valid [OF g] vo]
  have "pg_job_Get all_ok j (cr_Owner request) d3 = (Inr result, d3)" "\<exists>r. same_identity ?row r \<and> result = job_view r"
    unfolding calls(2) by auto
  with W create S show ?thesis
    by (auto simp: jm_Get_def PostgresJobStore_def same_identity_def)
qed

subsection \<open>From the upload to the finished job\<close>

lemma upload_change_sessions: "upload_change m d d' \<Longrightarrow> anonymous_session d' = anonymous_session d"
  by (induction rule: upload_change.induct) simp_all

lemma owner_exists_same: "anonymous_session d' = anonymous_session d \<Longrightarrow> owner_exists cols d' \<longleftrightarrow> owner_exists cols d"
  by (simp only: owner_exists_def)

lemma upload_changes_keep:
  assumes "(upload_change m)\<^sup>*\<^sup>* d d'" and "jobs_good m d"
  shows "jobs_good m d' \<and> pdf_job d' = pdf_job d \<and> anonymous_session d' = anonymous_session d"
  using assms
proof (induction rule: converse_rtranclp_induct)
  case (step x y)
  from step.IH [OF upload_change_keeps_jobs [OF step.hyps(1) step.prems]] upload_change_jobs [OF step.hyps(1)]
    upload_change_sessions [OF step.hyps(1)]
  show ?case by simp
qed simp

lemma upload_call_changes:
  assumes "uploads_good m d"
  shows "(upload_change m)\<^sup>*\<^sup>* d (snd (pg_RecordPart m flt w d))" "(upload_change m)\<^sup>*\<^sup>* d (snd (pg_BeginCommit m flt u owner t d))"
    "(upload_change m)\<^sup>*\<^sup>* d (snd (pg_Complete m flt u owner digest t d))"
  using upload_step_change [OF assms, of "Upload_RecordPart w" flt]
    upload_step_change [OF assms, of "Upload_BeginCommit u owner t" flt]
    upload_step_change [OF assms, of "Upload_Complete u owner digest t" flt]
  by auto

lemma send_parts_changes:
  assumes "um_store manager = PostgresUploadStore m flt" and "uploads_good m d"
  shows "(upload_change m)\<^sup>*\<^sup>* d (snd (send_parts manager owner s i cs d)) \<and>
    uploads_good m (snd (send_parts manager owner s i cs d))"
  using assms(2)
proof (induction cs arbitrary: i d)
  case (Cons c cs)
  let ?w = "\<lparr>pw_UploadID = up_ID s, pw_Owner = owner, pw_Index = i, pw_ByteSize = size_at s i,
        pw_SHA256 = ch_SHA256 c, pw_BackendPartID = ch_BackendPartID c, pw_ObservedAt = ch_SentAt c\<rparr>"
  obtain res d1 where d1: "pg_RecordPart m flt ?w d = (res, d1)" by fastforce
  have c: "(upload_change m)\<^sup>*\<^sup>* d d1" "uploads_good m d1"
    using upload_call_changes(1) [OF Cons.prems, of flt ?w] pg_steps_good(1) [OF Cons.prems, of flt ?w] d1 by simp_all
  have r: "um_RecordPart (ch_SentAt c) manager owner (up_ID s) i (size_at s i) (ch_SHA256 c) (ch_BackendPartID c) d = (res, d1)"
    using d1 by (simp add: um_RecordPart_def assms(1) PostgresUploadStore_def)
  show ?case using c Cons.IH [OF c(2), of "i + 1"] by (cases res) (auto simp: r intro: rtranclp_trans)
qed simp

lemma started_upload:
  assumes "uploads_good m d" and "um_store manager = PostgresUploadStore m flt" and "um_maxBytes manager \<le> MaxInt64"
    and "Microsecond \<le> now" and "um_Start m random now manager owner filename contentType bytes_declared d = (Inr s, d1)"
  shows "upload_change m d d1 \<and> owner_exists (owner_columns owner) d1 \<and>
    (\<exists>r \<in> set (upload_session d1). us_id r = up_ID s \<and> us_declared_size r = bytes_declared \<and> us_owner r = owner_columns owner) \<and>
    up_ID s \<notin> us_id ` set (upload_session d) \<and> validUUID (up_ID s) \<and> valid_owner owner"
proof -
  from assms(5,2) obtain name ct u rest
    where c: "pg_upload_Create m flt (new_upload manager u owner name ct bytes_declared
        (expected_chunks bytes_declared (um_chunkBytes manager)) now) d = (Inr s, d1)"
      and sz: "bytes_declared \<le> um_maxBytes manager"
    by (auto simp: um_Start_def Let_def PostgresUploadStore_def split: option.splits sum.splits if_splits prod.splits)
  let ?s = "new_upload manager u owner name ct bytes_declared (expected_chunks bytes_declared (um_chunkBytes manager)) now"
  have b: "Microsecond \<le> up_CreatedAt ?s" "up_DeclaredSize ?s \<le> MaxInt64" using assms(3,4) sz by (simp_all add: new_upload_def)
  have C: "upload_change m d d1" "d1 = d\<lparr>upload_session := upload_session d @ [insert_upload_row ?s]\<rparr>"
      "s = view (insert_upload_row ?s)" "validateUploadForCreate m ?s = None"
    using pg_upload_Create_change [OF b c] by auto
  have "owner_exists (us_owner (insert_upload_row ?s)) d \<and>
      \<not> list_ex (\<lambda>r. us_id r = us_id (insert_upload_row ?s)) (upload_session d)"
    using c by (auto simp: pg_upload_Create_def Let_def finish_def list_ex_iff split: option.splits if_splits sum.splits dbcall.splits)
  moreover have "owner_exists cols d1 \<longleftrightarrow> owner_exists cols d" for cols
    by (rule owner_exists_same [OF upload_change_sessions [OF C(1)]])
  ultimately show ?thesis
    using C create_valid(1,9) [OF C(4)] by (auto simp: insert_upload_row_def new_upload_def view_def upload_of_row_def list_ex_iff)
qed

lemma uploaded_source:
  assumes good: "jobs_good m d" and st: "um_store manager = PostgresUploadStore m all_ok" and "um_maxBytes manager \<le> MaxInt64"
    and "Microsecond \<le> now"
    and start: "um_Start m random now manager owner filename contentType declaredSize d = (Inr s, d1)"
    and parts: "send_parts manager owner s 0 cs d1 = (None, d2)"
    and freeze: "um_BeginCommit t manager owner (up_ID s) d2 = (Inr plan, d3)"
    and complete: "um_Complete t' manager owner (up_ID s) digest d3 = (Inr s', d4)"
  shows "jobs_good m d4 \<and> pdf_job d4 = pdf_job d \<and> owner_exists (owner_columns owner) d4 \<and>
    (\<forall>q \<in> set (pdf_job d). jr_upload_id q \<noteq> up_ID s) \<and>
    (\<exists>u \<in> set (upload_session d4). committed_source (up_ID s) owner u \<and> us_declared_size u = declaredSize \<and>
       stored_digest (text_or_empty (us_committed_sha256 u)) = digest)"
proof -
  have U: "uploads_good m d" using good by (simp add: jobs_good_def)
  note S = started_upload [OF U st assms(3,4) start]
  have J1: "jobs_good m d1" "pdf_job d1 = pdf_job d"
    using S upload_change_keeps_jobs [OF _ good] upload_change_jobs by blast+
  then have U1: "uploads_good m d1" by (simp add: jobs_good_def)
  have P: "(upload_change m)\<^sup>*\<^sup>* d1 d2" "uploads_good m d2"
    using send_parts_changes [OF st U1, of owner s 0 cs] parts by simp_all
  have b: "pg_BeginCommit m all_ok (up_ID s) owner t d2 = (Inr plan, d3)"
    using freeze by (simp add: um_BeginCommit_def st PostgresUploadStore_def)
  have B: "(upload_change m)\<^sup>*\<^sup>* d2 d3" "uploads_good m d3"
    using upload_call_changes(2) [OF P(2), of all_ok "up_ID s" owner t] pg_steps_good(2) [OF P(2), of all_ok "up_ID s" owner t] b
    by simp_all
  have c: "pg_Complete m all_ok (up_ID s) owner digest t' d3 = (Inr s', d4)"
    using complete by (simp add: um_Complete_def st PostgresUploadStore_def)
  have C: "(upload_change m)\<^sup>*\<^sup>* d3 d4" "uploads_good m d4"
    using upload_call_changes(3) [OF B(2), of all_ok "up_ID s" owner digest t']
      pg_steps_good(3) [OF B(2), of all_ok "up_ID s" owner digest t'] c by simp_all
  have D: "(upload_change m)\<^sup>*\<^sup>* d1 d4" using P(1) B(1) C(1) by (meson rtranclp_trans)
  note K = upload_changes_keep [OF D J1(1)]
  obtain u where u: "u \<in> set (upload_session d4)" "us_id u = up_ID s" "us_owner u = owner_columns owner"
      "us_status u = StatusCommitted" "up_CommittedSHA256 (view u) = Some digest"
    using completed_row [OF B(2) c] by blast
  obtain r where r: "r \<in> set (upload_session d1)" "us_id r = up_ID s" "us_declared_size r = declaredSize" using S by blast
  obtain u' where u': "u' \<in> set (upload_session d4)" "same_metadata r u'"
    using changes_evolve [OF D U1 r(1)] by (auto simp: evolves_def)
  have "inj_on us_id (set (upload_session d4))" using C(2) by (simp add: uploads_good_def distinct_map)
  then have "u' = u" by (rule inj_onD [OF _ _ u'(1) u(1)]) (use u(2) u'(2) r(2) in \<open>simp add: same_metadata_def\<close>)
  note G = uploads_good_row [OF C(2) u(1)]
  have chk: "us_committed_sha256 u \<noteq> None" "us_committed_at u \<noteq> None"
    using G(1) u(4) by (simp_all add: upload_row_good_def upload_row_check_def)
  have full: "us_received_chunks u = us_expected_chunks u" "us_received_bytes u = bytes_upto (view u) (us_received_chunks u)"
    using G(2) u(4) by (simp_all add: progress_good_def)
  have "committed_source (up_ID s) owner u"
    using u chk full by (simp add: committed_source_def bytes_upto_def)
  moreover have "stored_digest (text_or_empty (us_committed_sha256 u)) = digest"
    using u(5) chk(1) by (auto simp: view_def upload_of_row_def)
  moreover have "us_declared_size u = declaredSize" using u'(2) r(3) \<open>u' = u\<close> by (simp add: same_metadata_def)
  moreover have "jr_upload_id q \<noteq> up_ID s" if q: "q \<in> set (pdf_job d)" for q
  proof -
    obtain w where "w \<in> set (upload_session d)" "from_upload w q" using jobs_good_row(2) [OF good q] by blast
    then show ?thesis using S by (force simp: from_upload_def)
  qed
  moreover have "owner_exists (owner_columns owner) d4"
    using owner_exists_same [of d4 d1 "owner_columns owner"] K S by simp
  ultimately show ?thesis using K J1(2) u(1) by auto
qed

definition upload_service :: "mime \<Rightarrow> 'z job_db_scheme UploadManager \<Rightarrow> bool" where
  "upload_service m manager \<longleftrightarrow> um_store manager = PostgresUploadStore m all_ok \<and> um_maxBytes manager \<le> MaxInt64 \<and>
     0 < um_chunkBytes manager \<and> um_chunkBytes manager \<le> MaxInt32"

text \<open>
  C28. A file that is uploaded is processed. While the database answers, the chunks of a started
  upload that come in order and in time are all recorded, the upload is frozen and completed, a job can be created from
  it, a worker that finds no other waiting job claims it, and when the worker renews its lease in
  time and reports along the lifecycle, none of its calls is refused: the owner then reads the job in
  the status that the worker reported last, with the digest and the size of the file.
\<close>

theorem uploaded_file_is_processed:
  assumes "jobs_good m d" and "upload_service m um" and "job_service manager queue locked"
    and "Microsecond \<le> now" and "um_Start m random now um owner filename contentType declaredSize d = (Inr s, d1)"
    and "int (length cs) = up_ExpectedChunks s" and "\<forall>c \<in> set cs. chunk_ok s c"
    and "up_CreatedAt s \<le> t" "t \<le> t'" "t' < up_ExpiresAt s" and "length digest = 32"
    and "validateCreator owner creator = None" and "creator_texts creator"
    and "generateUUID random' = Some (j, rest)" and "\<forall>q \<in> set (pdf_job d). jr_id q \<noteq> j" and "j \<notin> set locked"
    and "Microsecond \<le> queuedAt" and "queuedAt \<le> claimedAt" and "pg_time claimedAt < pg_time (queuedAt + jm_retention manager)"
    and "queue_idle d claimedAt locked"
    and "work_plan queue j StatusAnalyzing 0 claimedAt (pg_time (claimedAt + jq_leaseDuration queue)) final acts"
    and "int (length acts) + 2 \<le> MaxInt64"
  shows "\<exists>d2 plan d3 s' d4 job d5 claimed d6 d7 result.
    send_parts um owner s 0 cs d1 = (None, d2) \<and>
    um_BeginCommit t um owner (up_ID s) d2 = (Inr plan, d3) \<and>
    um_Complete t' um owner (up_ID s) digest d3 = (Inr s', d4) \<and>
    jm_Create random' queuedAt manager \<lparr>cr_UploadID = up_ID s, cr_Owner = owner, cr_Creator = creator\<rparr> d4 = (Inr job, d5) \<and>
    jq_Claim claimedAt queue d5 = (Inr claimed, d6) \<and> job_ID claimed = job_ID job \<and>
    work queue (job_ID job) acts d6 = (None, d7) \<and>
    jm_Get manager (job_ID job) owner d7 = (Inr result, d7) \<and> job_Status result = final \<and>
    job_UploadID result = up_ID s \<and> job_InputSHA256 result = digest \<and> job_InputBytes result = declaredSize"
proof -
  note up = assms(2) [unfolded upload_service_def]
  have U: "uploads_good m d" using assms(1) by (simp add: jobs_good_def)
  have st: "um_store um = PostgresUploadStore m all_ok" "um_maxBytes um \<le> MaxInt64" using up by simp_all
  have ids: "validUUID (up_ID s)" "valid_owner owner" using started_upload [OF U st assms(4,5)] by blast+
  obtain d2 plan d3 s' d4 where P: "send_parts um owner s 0 cs d1 = (None, d2)"
      "um_BeginCommit t um owner (up_ID s) d2 = (Inr plan, d3)"
      "um_Complete t' um owner (up_ID s) digest d3 = (Inr s', d4)"
    using pg_responsive_uploads.upload_completes [OF U st _ _ assms(4-11) ids] up by blast
  note Q = uploaded_source [OF assms(1) st assms(4,5) P]
  let ?request = "\<lparr>cr_UploadID = up_ID s, cr_Owner = owner, cr_Creator = creator\<rparr>"
  obtain u where u: "u \<in> set (upload_session d4)" "committed_source (up_ID s) owner u" "us_declared_size u = declaredSize"
      "stored_digest (text_or_empty (us_committed_sha256 u)) = digest" using Q by blast
  have fresh: "\<forall>q \<in> set (pdf_job d4). jr_id q \<noteq> j \<and> jr_upload_id q \<noteq> cr_UploadID ?request"
    and idle: "queue_idle d4 claimedAt locked"
    using Q assms(15,20) by (simp_all add: queue_idle_def)
  have "\<exists>job d5 claimed d6 d7 result. jm_Create random' queuedAt manager ?request d4 = (Inr job, d5) \<and>
      jq_Claim claimedAt queue d5 = (Inr claimed, d6) \<and> job_ID claimed = job_ID job \<and>
      work queue (job_ID job) acts d6 = (None, d7) \<and> jm_Get manager (job_ID job) (cr_Owner ?request) d7 = (Inr result, d7) \<and>
      job_Status result = final \<and> job_UploadID result = cr_UploadID ?request \<and>
      job_InputSHA256 result = stored_digest (text_or_empty (us_committed_sha256 u)) \<and> job_InputBytes result = us_declared_size u"
    by (rule queued_job_finishes [OF conjunct1 [OF Q] assms(3) u(1) _ _ _ _ assms(14) fresh assms(17-19) idle assms(16,21,22)])
      (use Q u assms(12,13) in simp_all)
  with P u show ?thesis by auto
qed

definition toy_service_db :: job_db where
  "toy_service_db = \<lparr>anonymous_session = [], anonymous_usage = [], anonymous_ip_usage = [],
     upload_session = [], upload_part = [], pdf_job = []\<rparr>"

definition toy_uploads :: "job_db UploadManager" where
  "toy_uploads = \<lparr>um_store = PostgresUploadStore toy_mime all_ok, um_maxBytes = 100, um_chunkBytes = 2, um_sessionTTL = Hour\<rparr>"

definition toy_jobs :: "job_db JobManager" where
  "toy_jobs = \<lparr>jm_store = PostgresJobStore all_ok, jm_targetBytes = 100, jm_retention = 10 * Hour, jm_maxAttempts = 2\<rparr>"

definition toy_queue :: "job_db JobQueue" where
  "toy_queue = \<lparr>jq_store = PostgresQueueStore all_ok [], jq_workerID = ''w1'', jq_leaseDuration = Minute,
     jq_retryDelay = Minute, jq_recoveryBatch = 10\<rparr>"

definition toy_begun :: "(upload_err + UploadSession) \<times> job_db" where
  "toy_begun = um_Start toy_mime (replicate 16 7) (1000 * Hour) toy_uploads toy_owner ''a.pdf'' ''application/pdf'' 5 toy_service_db"

definition toy_file :: UploadSession where
  "toy_file = projr (fst toy_begun)"

definition toy_job_id :: string where
  "toy_job_id = ''08080808-0808-4808-8808-080808080808''"

definition toy_report :: "JobStatus \<Rightarrow> JobStatus \<Rightarrow> int \<Rightarrow> Transition" where
  "toy_report s s' p = \<lparr>tr_JobID = toy_job_id, tr_WorkerID = [], tr_ExpectedStatus = s, tr_NextStatus = s',
     tr_ProgressPercent = p, tr_ProgressMessage = [], tr_ErrorCode = [], tr_ErrorMessage = [],
     tr_ObservedAt = 0, tr_LeaseExpiresAt = 0\<rparr>"

definition toy_actions :: "worker_action list" where
  "toy_actions = [Renew (1000 * Hour + 30 * Second), Report (1000 * Hour + 80 * Second) (toy_report StatusAnalyzing StatusOptimizing 40),
     Report (1000 * Hour + 90 * Second) (toy_report StatusOptimizing StatusValidating 80),
     Report (1000 * Hour + 100 * Second) (toy_report StatusValidating StatusCompleted 100)]"

lemma toy_services: "jobs_good m toy_service_db" "upload_service toy_mime toy_uploads" "job_service toy_jobs toy_queue []"
proof -
  have w: "validWorkerID ''w1''" "pg_text ''w1''" by code_simp+
  show "jobs_good m toy_service_db" by (simp add: jobs_good_def uploads_good_def toy_service_db_def)
  show "upload_service toy_mime toy_uploads" by (simp add: upload_service_def toy_uploads_def)
  show "job_service toy_jobs toy_queue []" using w by (simp add: job_service_def toy_jobs_def toy_queue_def)
qed

lemma toy_begun_ok: "um_Start toy_mime (replicate 16 7) (1000 * Hour) toy_uploads toy_owner ''a.pdf'' ''application/pdf'' 5
    toy_service_db = (Inr toy_file, snd toy_begun)"
proof -
  have "\<not> isl (fst toy_begun)" by code_simp
  then show ?thesis unfolding toy_file_def toy_begun_def [symmetric] by (simp add: prod_eq_iff)
qed

lemma toy_file_times: "up_CreatedAt toy_file = 1000 * Hour" "up_ExpiresAt toy_file = 1001 * Hour" "up_ExpectedChunks toy_file = 3"
  by code_simp+

lemma toy_work_plan: "work_plan toy_queue toy_job_id StatusAnalyzing 0 (1000 * Hour + 9000)
    (pg_time (1000 * Hour + 9000 + jq_leaseDuration toy_queue)) StatusCompleted toy_actions"
  by code_simp

theorem uploaded_file_is_processed_witness:
  "\<exists>d2 plan d3 s' d4 job d5 claimed d6 d7 result.
    send_parts toy_uploads toy_owner toy_file 0 [toy_chunk, toy_chunk, toy_chunk] (snd toy_begun) = (None, d2) \<and>
    um_BeginCommit (1000 * Hour + 6000) toy_uploads toy_owner (up_ID toy_file) d2 = (Inr plan, d3) \<and>
    um_Complete (1000 * Hour + 7000) toy_uploads toy_owner (up_ID toy_file) (replicate 32 5) d3 = (Inr s', d4) \<and>
    jm_Create (replicate 16 8) (1000 * Hour + 8000) toy_jobs
      \<lparr>cr_UploadID = up_ID toy_file, cr_Owner = toy_owner, cr_Creator = job_Creator toy_seed\<rparr> d4 = (Inr job, d5) \<and>
    jq_Claim (1000 * Hour + 9000) toy_queue d5 = (Inr claimed, d6) \<and> job_ID claimed = job_ID job \<and>
    work toy_queue (job_ID job) toy_actions d6 = (None, d7) \<and>
    jm_Get toy_jobs (job_ID job) toy_owner d7 = (Inr result, d7) \<and> job_Status result = StatusCompleted \<and>
    job_UploadID result = up_ID toy_file \<and> job_InputSHA256 result = replicate 32 5 \<and> job_InputBytes result = 5"
proof (rule uploaded_file_is_processed [OF toy_services _ toy_begun_ok])
  have "pg_text ''part''" "TrimSpace ''part'' \<noteq> []" by code_simp+
  then show "\<forall>c \<in> set [toy_chunk, toy_chunk, toy_chunk]. chunk_ok toy_file c"
    by (simp add: chunk_ok_def toy_chunk_def IsZero_def toy_file_times maxBackendIDBytes_def)
  show "validateCreator toy_owner (job_Creator toy_seed) = None" "creator_texts (job_Creator toy_seed)" by code_simp+
  show "generateUUID (replicate 16 8) = Some (toy_job_id, [])" by code_simp
  show "work_plan toy_queue toy_job_id StatusAnalyzing 0 (1000 * Hour + 9000)
      (pg_time (1000 * Hour + 9000 + jq_leaseDuration toy_queue)) StatusCompleted toy_actions" by (rule toy_work_plan)
qed (simp_all add: toy_file_times toy_jobs_def toy_service_db_def queue_idle_def toy_actions_def pg_time_def)

end
