(* ===== verification/Strconv.thy ===== *)
theory Strconv
  imports Prelude
begin

text \<open>
  The parts of Go's \<open>strconv\<close>, \<open>time\<close> and \<open>strings\<close> that read settings: \<open>ParseInt\<close> in base 10
  with 64 bits, \<open>ParseBool\<close>, \<open>ParseDuration\<close> and \<open>ToLower\<close>. An error is \<open>None\<close>; its text is a
  function of the input, which the callers put into their own messages.
\<close>

subsection \<open>Integers\<close>

definition is_digit :: "char \<Rightarrow> bool" where
  "is_digit c \<longleftrightarrow> 0x30 \<le> code c \<and> code c \<le> 0x39"

definition digit_value :: "char \<Rightarrow> nat" where
  "digit_value c = code c - 0x30"

definition digits_value :: "string \<Rightarrow> nat" where
  "digits_value s = foldl (\<lambda>x c. 10 * x + digit_value c) 0 s"

text \<open>A sign, at least one digit and nothing else; the magnitude must fit 64 bits.\<close>

definition ParseInt :: "string \<Rightarrow> int option" where
  "ParseInt s =
     (let neg = (s \<noteq> [] \<and> hd s = CHR ''-'');
          rest = (if s \<noteq> [] \<and> (hd s = CHR ''-'' \<or> hd s = CHR ''+'') then tl s else s)
      in if rest = [] \<or> \<not> list_all is_digit rest then None
         else let un = int (digits_value rest) in
           if \<not> neg \<and> un \<ge> 2 ^ 63 then None
           else if neg \<and> un > 2 ^ 63 then None
           else Some (if neg then - un else un))"

lemma ParseInt_range: "ParseInt s = Some n \<Longrightarrow> MinInt64 \<le> n \<and> n \<le> MaxInt64"
  by (auto simp: ParseInt_def Let_def split: if_splits)

text \<open>The decimal notation of a number, the form in which settings are written.\<close>

fun decimal :: "nat \<Rightarrow> string" where
  "decimal n = (if n < 10 then [char_of (0x30 + n)] else decimal (n div 10) @ [char_of (0x30 + n mod 10)])"

declare decimal.simps [simp del]

definition FormatInt :: "int \<Rightarrow> string" where
  "FormatInt n = (if n < 0 then CHR ''-'' # decimal (nat (- n)) else decimal (nat n))"

lemma code_char_of: "n < 256 \<Longrightarrow> code (char_of n) = n"
  by (simp add: code_def)

lemma decimal_digits: "list_all is_digit (decimal n) \<and> decimal n \<noteq> []"
proof (induction n rule: decimal.induct)
  case (1 n)
  have "is_digit (char_of (0x30 + n mod 10))"
    using code_char_of [of "0x30 + n mod 10"] by (simp add: is_digit_def)
  moreover have "n < 10 \<Longrightarrow> is_digit (char_of (0x30 + n))"
    using code_char_of [of "0x30 + n"] by (simp add: is_digit_def)
  ultimately show ?case using 1 by (subst (1 2) decimal.simps) simp
qed

lemma decimal_value: "digits_value (decimal n) = n"
proof (induction n rule: decimal.induct)
  case (1 n)
  have "digit_value (char_of (0x30 + n mod 10)) = n mod 10"
    using code_char_of [of "0x30 + n mod 10"] by (simp add: digit_value_def)
  moreover have "n < 10 \<Longrightarrow> digit_value (char_of (0x30 + n)) = n"
    using code_char_of [of "0x30 + n"] by (simp add: digit_value_def)
  ultimately show ?case
    using 1 by (subst decimal.simps) (simp add: digits_value_def)
qed

lemma digit_not_sign: "is_digit c \<Longrightarrow> c \<noteq> CHR ''-'' \<and> c \<noteq> CHR ''+''"
  by (auto simp: is_digit_def code_def)

lemma ParseInt_FormatInt:
  assumes "MinInt64 \<le> n" "n \<le> MaxInt64"
  shows "ParseInt (FormatInt n) = Some n"
proof (cases "n < 0")
  case True
  with assms decimal_digits [of "nat (- n)"] show ?thesis
    by (simp add: ParseInt_def FormatInt_def decimal_value)
next
  case False
  obtain c s where cs: "decimal (nat n) = c # s" using decimal_digits [of "nat n"] by (cases "decimal (nat n)") auto
  then have "is_digit c" using decimal_digits [of "nat n"] by simp
  then have "c \<noteq> CHR ''-'' \<and> c \<noteq> CHR ''+''" by (rule digit_not_sign)
  with False assms cs decimal_digits [of "nat n"] decimal_value [of "nat n"] show ?thesis
    by (simp add: ParseInt_def FormatInt_def)
qed

subsection \<open>Booleans and case\<close>

definition ParseBool :: "string \<Rightarrow> bool option" where
  "ParseBool s =
     (if s \<in> {''1'', ''t'', ''T'', ''TRUE'', ''true'', ''True''} then Some True
      else if s \<in> {''0'', ''f'', ''F'', ''FALSE'', ''false'', ''False''} then Some False
      else None)"

text \<open>
  \<open>strings.ToLower\<close>, as far as ASCII results are concerned: besides the upper-case letters, the
  runes U+0130 and U+212A are the only ones whose lower case is ASCII; every other rune
  outside ASCII stays outside.
\<close>

fun ToLower :: "string \<Rightarrow> string" where
  "ToLower [] = []"
| "ToLower [a] = [if 0x41 \<le> code a \<and> code a \<le> 0x5A then char_of (code a + 0x20) else a]"
| "ToLower [a, b] =
     (if a = CHR 0xC4 \<and> b = CHR 0xB0 then ''i''
      else (if 0x41 \<le> code a \<and> code a \<le> 0x5A then char_of (code a + 0x20) else a) # ToLower [b])"
| "ToLower (a # b # c # s) =
     (if a = CHR 0xC4 \<and> b = CHR 0xB0 then CHR ''i'' # ToLower (c # s)
      else if a = CHR 0xE2 \<and> b = CHR 0x84 \<and> c = CHR 0xAA then CHR ''k'' # ToLower s
      else (if 0x41 \<le> code a \<and> code a \<le> 0x5A then char_of (code a + 0x20) else a) # ToLower (b # c # s))"

subsection \<open>Durations\<close>

text \<open>
  The loops of \<open>time.ParseDuration\<close>, with its \<open>uint64\<close> counters. A fraction is scaled in
  floating point: \<open>frac f unit scale\<close> stands for \<open>uint64(float64(f) * (float64(unit) / scale))\<close>,
  the one expression that is a parameter; \<open>scale\<close> is a power of ten.
\<close>

fun leadingInt :: "nat \<Rightarrow> string \<Rightarrow> (nat \<times> string) option" where
  "leadingInt x [] = Some (x, [])"
| "leadingInt x (c # s) =
     (if \<not> is_digit c then Some (x, c # s)
      else if x > 2 ^ 63 div 10 then None
      else let x = x * 10 + digit_value c in if x > 2 ^ 63 then None else leadingInt x s)"

fun leadingFraction :: "nat \<Rightarrow> nat \<Rightarrow> bool \<Rightarrow> string \<Rightarrow> nat \<times> nat \<times> string" where
  "leadingFraction x scale overflow [] = (x, scale, [])"
| "leadingFraction x scale overflow (c # s) =
     (if \<not> is_digit c then (x, scale, c # s)
      else if overflow \<or> x > (2 ^ 63 - 1) div 10 \<or> x * 10 + digit_value c > 2 ^ 63
        then leadingFraction x scale True s
      else leadingFraction (x * 10 + digit_value c) (scale * 10) False s)"

definition unitMap :: "string \<Rightarrow> nat option" where
  "unitMap = map_of [(''ns'', 1), (''us'', 1000), ([CHR 0xC2, CHR 0xB5, CHR ''s''], 1000),
     ([CHR 0xCE, CHR 0xBC, CHR ''s''], 1000), (''ms'', 1000000), (''s'', 1000000000),
     (''m'', 60000000000), (''h'', 3600000000000)]"

definition unit_char :: "char \<Rightarrow> bool" where
  "unit_char c \<longleftrightarrow> c \<noteq> CHR ''.'' \<and> \<not> is_digit c"

text \<open>One number with its unit: its nanoseconds and the rest of the input.\<close>

definition duration_term :: "(nat \<Rightarrow> nat \<Rightarrow> nat \<Rightarrow> nat) \<Rightarrow> string \<Rightarrow> (nat \<times> string) option" where
  "duration_term frac s =
     (if s = [] \<or> \<not> (hd s = CHR ''.'' \<or> is_digit (hd s)) then None
      else case leadingInt 0 s of None \<Rightarrow> None | Some (v, r) \<Rightarrow>
      let pre = (length r \<noteq> length s);
          point = (r \<noteq> [] \<and> hd r = CHR ''.'');
          (f, scale, q) = (if point then leadingFraction 0 1 False (tl r) else (0, 1, r));
          post = (point \<and> length q \<noteq> length (tl r))
      in if \<not> pre \<and> \<not> post then None
         else let u = takeWhile unit_char q; t = dropWhile unit_char q in
           if u = [] then None
           else case unitMap u of None \<Rightarrow> None | Some unit \<Rightarrow>
             if v > 2 ^ 63 div unit then None
             else let v = v * unit; w = (if f > 0 then (v + frac f unit scale) mod 2 ^ 64 else v) in
               if f > 0 \<and> w > 2 ^ 63 then None else Some (w, t))"

lemma leadingInt_shorter: "leadingInt x s = Some (y, r) \<Longrightarrow> length r \<le> length s"
  by (induction s arbitrary: x) (auto simp: Let_def split: if_splits intro: le_SucI)

lemma leadingFraction_shorter: "leadingFraction x k b s = (y, j, r) \<Longrightarrow> length r \<le> length s"
  by (induction s arbitrary: x k b) (auto split: if_splits intro: le_SucI)

lemma dropWhile_shorter: "takeWhile P s \<noteq> [] \<Longrightarrow> length (dropWhile P s) < length s"
  by (metis append_Nil le_neq_implies_less length_append add_le_same_cancel2 length_dropWhile_le
      not_le takeWhile_dropWhile_id add_cancel_left_left length_0_conv)

lemma duration_term_shorter:
  assumes "duration_term frac s = Some (v, t)"
  shows "length t < length s"
proof -
  obtain x r where r: "leadingInt 0 s = Some (x, r)"
    using assms by (auto simp: duration_term_def split: if_splits option.splits)
  define q where "q = (if r \<noteq> [] \<and> hd r = CHR ''.'' then snd (snd (leadingFraction 0 1 False (tl r))) else r)"
  have "length q \<le> length r"
    using leadingFraction_shorter [of 0 1 False "tl r" _ _ q]
    by (cases "leadingFraction 0 1 False (tl r)") (auto simp: q_def)
  moreover have "takeWhile unit_char q \<noteq> [] \<and> t = dropWhile unit_char q"
    using assms r by (auto simp: duration_term_def q_def Let_def split: if_splits option.splits prod.splits)
  ultimately show ?thesis
    using leadingInt_shorter [OF r] dropWhile_shorter [of unit_char q] by simp
qed

function duration_sum :: "(nat \<Rightarrow> nat \<Rightarrow> nat \<Rightarrow> nat) \<Rightarrow> nat \<Rightarrow> string \<Rightarrow> nat option" where
  "duration_sum frac d s =
     (if s = [] then Some d
      else case duration_term frac s of None \<Rightarrow> None | Some (v, t) \<Rightarrow>
        let d = (d + v) mod 2 ^ 64 in if d > 2 ^ 63 then None else duration_sum frac d t)"
  by pat_completeness auto
termination
  by (relation "measure (\<lambda>(frac, d, s). length s)") (auto dest: duration_term_shorter)

declare duration_sum.simps [simp del]

definition ParseDuration :: "(nat \<Rightarrow> nat \<Rightarrow> nat \<Rightarrow> nat) \<Rightarrow> string \<Rightarrow> duration option" where
  "ParseDuration frac s =
     (let neg = (s \<noteq> [] \<and> hd s = CHR ''-'');
          rest = (if s \<noteq> [] \<and> (hd s = CHR ''-'' \<or> hd s = CHR ''+'') then tl s else s)
      in if rest = ''0'' then Some 0
         else if rest = [] then None
         else case duration_sum frac 0 rest of None \<Rightarrow> None | Some d \<Rightarrow>
           if neg then Some (int64 (- int64 (int d)))
           else if d > 2 ^ 63 - 1 then None
           else Some (int d))"

subsection \<open>Reading back what was written\<close>

definition graphic :: "char \<Rightarrow> bool" where
  "graphic c \<longleftrightarrow> 0x21 \<le> code c \<and> code c \<le> 0x7E"

lemma white_space_ends: "list_all (\<lambda>p. p \<noteq> [] \<and> \<not> graphic (hd p) \<and> \<not> graphic (last p)) white_space"
  by code_simp

lemma cut_first_graphic:
  assumes "s \<noteq> []" and "graphic (hd s)" and "list_all (\<lambda>p. p \<noteq> [] \<and> \<not> graphic (hd p)) ps"
  shows "cut_first ps s = None"
proof -
  have "take (length p) s \<noteq> p" if "p \<in> set ps" for p
  proof
    assume t: "take (length p) s = p"
    have "p \<noteq> []" "\<not> graphic (hd p)" using assms(3) that by (auto simp: list_all_iff)
    moreover from this t assms(1) have "hd p = hd s" by (metis hd_take length_greater_0_conv)
    ultimately show False using assms(2) by simp
  qed
  then show ?thesis by (auto simp: cut_first_None_iff)
qed

lemma TrimSpace_graphic:
  assumes "s \<noteq> []" and "graphic (hd s)" and "graphic (last s)"
  shows "TrimSpace s = s"
proof -
  have "cut_first white_space s = None"
    by (rule cut_first_graphic [OF assms(1,2)]) (use white_space_ends in \<open>auto simp: list_all_iff\<close>)
  moreover have "cut_first (map rev white_space) (rev s) = None"
    by (rule cut_first_graphic)
      (use assms white_space_ends in \<open>auto simp: list_all_iff hd_rev\<close>)
  ultimately show ?thesis by (simp add: TrimSpace_fixed_iff)
qed

lemma digit_graphic: "is_digit c \<Longrightarrow> graphic c"
  by (simp add: is_digit_def graphic_def)

lemma FormatInt_shape:
  "FormatInt n \<noteq> [] \<and> graphic (hd (FormatInt n)) \<and> graphic (last (FormatInt n))"
proof -
  have d: "graphic (hd (decimal k)) \<and> graphic (last (decimal k)) \<and> decimal k \<noteq> []" for k
    using decimal_digits [of k] digit_graphic by (simp add: list_all_iff)
  have "graphic (CHR ''-'')" by (simp add: graphic_def code_def)
  with d show ?thesis by (simp add: FormatInt_def)
qed

lemma TrimSpace_FormatInt [simp]: "TrimSpace (FormatInt n) = FormatInt n"
  using FormatInt_shape TrimSpace_graphic by blast

lemma foldl_digits_ge: "x \<le> foldl (\<lambda>x c. 10 * x + digit_value c) x ds"
proof (induction ds arbitrary: x)
  case (Cons c ds)
  have "x \<le> 10 * x + digit_value c" by simp
  also have "\<dots> \<le> foldl (\<lambda>x c. 10 * x + digit_value c) (10 * x + digit_value c) ds" by (rule Cons)
  finally show ?case by simp
qed simp

lemma leadingInt_digits:
  assumes "list_all is_digit ds" and "foldl (\<lambda>x c. 10 * x + digit_value c) x ds \<le> 2 ^ 63"
    and "r = [] \<or> \<not> is_digit (hd r)"
  shows "leadingInt x (ds @ r) = Some (foldl (\<lambda>x c. 10 * x + digit_value c) x ds, r)"
  using assms(1,2)
proof (induction ds arbitrary: x)
  case Nil
  then show ?case using assms(3) by (cases r) auto
next
  case (Cons c ds)
  have "10 * x + digit_value c \<le> 2 ^ 63"
    using foldl_digits_ge [of "10 * x + digit_value c" ds] Cons.prems(2) by simp
  then show ?case using Cons by (simp add: Let_def mult.commute)
qed

text \<open>A whole number of one unit.\<close>

lemma ParseDuration_unit:
  assumes "unitMap u = Some k" and "list_all unit_char u" and "u \<noteq> []" and "n * k < 2 ^ 63" and "0 < k"
  shows "ParseDuration frac (decimal n @ u) = Some (int (n * k))"
proof -
  let ?s = "decimal n @ u"
  note D = decimal_digits [of n]
  obtain c cs where c: "decimal n = c # cs" "is_digit c" using D by (cases "decimal n") auto
  have "n \<le> n * k" using assms(5) by simp
  then have n: "n \<le> 2 ^ 63" using assms(4) by linarith
  have ud: "\<not> is_digit (hd u)" "hd u \<noteq> CHR ''.''" using assms(2,3) by (cases u; simp add: unit_char_def)+
  have L: "leadingInt 0 ?s = Some (n, u)"
    using leadingInt_digits [of "decimal n" 0 u] D n ud(1) decimal_value [of n] by (simp add: digits_value_def)
  have TD: "takeWhile unit_char u = u" "dropWhile unit_char u = []"
    using assms(2) by (simp_all add: takeWhile_eq_all_conv list_all_iff)
  have "\<not> n > 2 ^ 63 div k" using assms(4,5) by (simp add: not_less less_eq_div_iff_mult_less_eq)
  then have T: "duration_term frac ?s = Some (n * k, [])"
    unfolding duration_term_def L Let_def option.case prod.case
    using c ud assms(1,3) by (simp add: TD cong: if_cong)
  have mod: "n * k mod 2 ^ 64 = n * k" using assms(4) by simp
  then have S: "duration_sum frac 0 ?s = Some (n * k)"
    using T c assms(4) by (subst duration_sum.simps) (simp add: duration_sum.simps)
  have "?s \<noteq> ''0''" using c(1) assms(3) by (cases cs) auto
  moreover have "c \<noteq> CHR ''-'' \<and> c \<noteq> CHR ''+''" by (rule digit_not_sign [OF c(2)])
  ultimately show ?thesis using S c(1) assms(3,4) by (simp add: ParseDuration_def Let_def)
qed

lemma ParseDuration_range:
  assumes "ParseDuration frac s = Some n"
  shows "MinInt64 \<le> n \<and> n \<le> MaxInt64"
proof -
  have "MinInt64 \<le> int64 x \<and> int64 x \<le> MaxInt64" for x
    using signed_take_bit_int_greater_eq_minus_exp [of 63 x] signed_take_bit_int_less_exp [of 63 x]
    by (simp add: int64_def)
  then show ?thesis
    using assms by (auto simp: ParseDuration_def Let_def split: if_splits option.splits)
qed

end
