(* ===== verification/Config.thy ===== *)
theory Config
  imports Strconv
begin

text \<open>
  The process configuration, \<open>internal/config/config.go\<close>: \<open>Load\<close> reads the environment, \<open>Validate\<close>
  collects every problem. An error message is its format with the values it shows, so that
  what a message reveals is part of the model; \<open>errors.Join\<close> is the list of its problems. The
  floating-point scaling of \<open>time.ParseDuration\<close> and the scheme and host that \<open>url.Parse\<close> finds are
  parameters.
\<close>

subsection \<open>Types\<close>

abbreviation defaultMaxUploadBytes :: int where "defaultMaxUploadBytes \<equiv> 256 * 1024 * 1024"
abbreviation defaultChunkBytes :: int where "defaultChunkBytes \<equiv> 8 * 1024 * 1024"
abbreviation defaultTargetBytes :: int where "defaultTargetBytes \<equiv> 75 * 1024 * 1024"

abbreviation defaultAnonymousQuotaWindow :: duration where "defaultAnonymousQuotaWindow \<equiv> 24 * Hour"
abbreviation defaultAnonymousQuotaSessionsPerIP :: int where "defaultAnonymousQuotaSessionsPerIP \<equiv> 20"
abbreviation defaultAnonymousQuotaUploadsPerSession :: int where "defaultAnonymousQuotaUploadsPerSession \<equiv> 10"
abbreviation defaultAnonymousQuotaUploadsPerIP :: int where "defaultAnonymousQuotaUploadsPerIP \<equiv> 50"
abbreviation defaultAnonymousQuotaJobsPerSession :: int where "defaultAnonymousQuotaJobsPerSession \<equiv> 10"
abbreviation defaultAnonymousQuotaJobsPerIP :: int where "defaultAnonymousQuotaJobsPerIP \<equiv> 50"
abbreviation defaultAnonymousQuotaBytesPerSession :: int where "defaultAnonymousQuotaBytesPerSession \<equiv> 1024 * 1024 * 1024"
abbreviation defaultAnonymousQuotaBytesPerIP :: int where "defaultAnonymousQuotaBytesPerIP \<equiv> 5 * 1024 * 1024 * 1024"

datatype AuthMode = AuthRequired | AuthOptional | AuthAnonymous | AuthOther string

definition auth_text :: "AuthMode \<Rightarrow> string" where
  "auth_text mode =
     (case mode of AuthRequired \<Rightarrow> ''required'' | AuthOptional \<Rightarrow> ''optional''
      | AuthAnonymous \<Rightarrow> ''anonymous'' | AuthOther v \<Rightarrow> v)"

type_synonym LookupEnv = "string \<Rightarrow> string option"
type_synonym problem = "string \<times> string list"

record environment =
  env_frac :: "nat \<Rightarrow> nat \<Rightarrow> nat \<Rightarrow> nat"
  env_url :: "string \<Rightarrow> (string \<times> string) option"

record AnonymousQuotas =
  aq_Window :: duration
  aq_SessionsPerIP :: int
  aq_UploadsPerSession :: int
  aq_UploadsPerIP :: int
  aq_JobsPerSession :: int
  aq_JobsPerIP :: int
  aq_BytesPerSession :: int
  aq_BytesPerIP :: int

record Anonymous =
  an_TokenPepper :: string
  an_SessionTTL :: duration
  an_Quotas :: AnonymousQuotas

record Database =
  db_Driver :: string
  db_Host :: string
  db_Port :: int
  db_Name :: string
  db_User :: string
  db_Password :: string
  db_SSLMode :: string
  db_ConnectTimeout :: duration
  db_HealthTimeout :: duration
  db_MigrationTimeout :: duration
  db_MaxConnections :: int
  db_MinConnections :: int
  db_MaxConnectionAge :: duration
  db_MaxConnectionIdle :: duration
  db_HealthCheckPeriod :: duration

record ObjectStore =
  os_Endpoint :: string
  os_Region :: string
  os_Bucket :: string
  os_AccessKeyID :: string
  os_SecretAccessKey :: string
  os_PathStyle :: bool

record Config =
  cfg_Auth :: AuthMode
  cfg_MaxUploadBytes :: int
  cfg_UploadChunkBytes :: int
  cfg_UploadSessionTTL :: duration
  cfg_PDFTargetBytes :: int
  cfg_JobRetention :: duration
  cfg_WorkerConcurrency :: int
  cfg_Anonymous :: Anonymous
  cfg_Database :: Database
  cfg_ObjectStore :: ObjectStore

subsection \<open>Reading values\<close>

definition setting :: "LookupEnv \<Rightarrow> string \<Rightarrow> string \<Rightarrow> string" where
  "setting lookup name fallback =
     (case lookup name of Some raw \<Rightarrow> TrimSpace raw | None \<Rightarrow> fallback)"

definition parsed_setting ::
    "(string \<Rightarrow> 'v option) \<Rightarrow> LookupEnv \<Rightarrow> string \<Rightarrow> 'v \<Rightarrow> problem + 'v" where
  "parsed_setting parse lookup name fallback =
     (let raw = setting lookup name [] in
      if raw = [] then Inr fallback
      else case parse raw of None \<Rightarrow> Inl (''parse %s: %w'', [name, raw]) | Some parsed \<Rightarrow> Inr parsed)"

definition intValue :: "LookupEnv \<Rightarrow> string \<Rightarrow> int \<Rightarrow> problem + int" where
  "intValue = parsed_setting ParseInt"

definition int64Value :: "LookupEnv \<Rightarrow> string \<Rightarrow> int \<Rightarrow> problem + int" where
  "int64Value = parsed_setting ParseInt"

definition durationValue :: "environment \<Rightarrow> LookupEnv \<Rightarrow> string \<Rightarrow> duration \<Rightarrow> problem + duration" where
  "durationValue env = parsed_setting (ParseDuration (env_frac env))"

definition boolValue :: "LookupEnv \<Rightarrow> string \<Rightarrow> bool \<Rightarrow> problem + bool" where
  "boolValue = parsed_setting ParseBool"

definition parseAuthMode :: "string \<Rightarrow> problem + AuthMode" where
  "parseAuthMode raw =
     (let mode = ToLower (TrimSpace raw) in
      if mode = ''required'' then Inr AuthRequired
      else if mode = ''optional'' then Inr AuthOptional
      else if mode = ''anonymous'' then Inr AuthAnonymous
      else Inl (''AUTH_MODE must be required, optional, or anonymous, got %q'', [raw]))"

definition validSSLMode :: "string \<Rightarrow> bool" where
  "validSSLMode mode \<longleftrightarrow>
     mode \<in> {''disable'', ''allow'', ''prefer'', ''require'', ''verify-ca'', ''verify-full''}"

text \<open>Sequencing of the early returns of the readers.\<close>

definition and_then :: "'e + 'a \<Rightarrow> ('a \<Rightarrow> 'e + 'b) \<Rightarrow> 'e + 'b" where
  "and_then r f = (case r of Inl e \<Rightarrow> Inl e | Inr v \<Rightarrow> f v)"

lemma and_then_simps [simp]: "and_then (Inl e) f = Inl e" "and_then (Inr v) f = f v"
  by (simp_all add: and_then_def)

lemma and_then_Inr: "and_then r f = Inr w \<longleftrightarrow> (\<exists>v. r = Inr v \<and> f v = Inr w)"
  by (auto simp: and_then_def split: sum.splits)

lemma and_then_cong [fundef_cong, cong]:
  "r = r' \<Longrightarrow> (\<And>v. r' = Inr v \<Longrightarrow> f v = g v) \<Longrightarrow> and_then r f = and_then r' g"
  by (auto simp: and_then_def split: sum.splits)

definition anonymousQuotasFromEnvironment :: "environment \<Rightarrow> LookupEnv \<Rightarrow> problem + AnonymousQuotas" where
  "anonymousQuotasFromEnvironment env lookup =
     and_then (durationValue env lookup ''ANONYMOUS_QUOTA_WINDOW'' defaultAnonymousQuotaWindow) (\<lambda>window.
     and_then (int64Value lookup ''ANONYMOUS_QUOTA_SESSIONS_PER_IP'' defaultAnonymousQuotaSessionsPerIP) (\<lambda>sessionsPerIP.
     and_then (int64Value lookup ''ANONYMOUS_QUOTA_UPLOADS_PER_SESSION'' defaultAnonymousQuotaUploadsPerSession) (\<lambda>uploadsPerSession.
     and_then (int64Value lookup ''ANONYMOUS_QUOTA_UPLOADS_PER_IP'' defaultAnonymousQuotaUploadsPerIP) (\<lambda>uploadsPerIP.
     and_then (int64Value lookup ''ANONYMOUS_QUOTA_JOBS_PER_SESSION'' defaultAnonymousQuotaJobsPerSession) (\<lambda>jobsPerSession.
     and_then (int64Value lookup ''ANONYMOUS_QUOTA_JOBS_PER_IP'' defaultAnonymousQuotaJobsPerIP) (\<lambda>jobsPerIP.
     and_then (int64Value lookup ''ANONYMOUS_QUOTA_BYTES_PER_SESSION'' defaultAnonymousQuotaBytesPerSession) (\<lambda>bytesPerSession.
     and_then (int64Value lookup ''ANONYMOUS_QUOTA_BYTES_PER_IP'' defaultAnonymousQuotaBytesPerIP) (\<lambda>bytesPerIP.
       Inr \<lparr>aq_Window = window, aq_SessionsPerIP = sessionsPerIP, aq_UploadsPerSession = uploadsPerSession,
            aq_UploadsPerIP = uploadsPerIP, aq_JobsPerSession = jobsPerSession, aq_JobsPerIP = jobsPerIP,
            aq_BytesPerSession = bytesPerSession, aq_BytesPerIP = bytesPerIP\<rparr>))))))))"

definition databaseFromEnvironment :: "environment \<Rightarrow> LookupEnv \<Rightarrow> problem + Database" where
  "databaseFromEnvironment env lookup =
     and_then (intValue lookup ''DB_PORT'' 5432) (\<lambda>port.
     and_then (durationValue env lookup ''DB_CONNECT_TIMEOUT'' (5 * Second)) (\<lambda>connectTimeout.
     and_then (durationValue env lookup ''DB_HEALTH_TIMEOUT'' (2 * Second)) (\<lambda>healthTimeout.
     and_then (durationValue env lookup ''DB_MIGRATION_TIMEOUT'' (2 * Minute)) (\<lambda>migrationTimeout.
     and_then (intValue lookup ''DB_MAX_CONNECTIONS'' 10) (\<lambda>maxConnections.
     and_then (intValue lookup ''DB_MIN_CONNECTIONS'' 0) (\<lambda>minConnections.
     and_then (durationValue env lookup ''DB_MAX_CONNECTION_AGE'' (30 * Minute)) (\<lambda>maxConnectionAge.
     and_then (durationValue env lookup ''DB_MAX_CONNECTION_IDLE'' (5 * Minute)) (\<lambda>maxConnectionIdle.
     and_then (durationValue env lookup ''DB_HEALTH_CHECK_PERIOD'' (30 * Second)) (\<lambda>healthCheckPeriod.
       Inr \<lparr>db_Driver = setting lookup ''DB_DRIVER'' ''postgres'', db_Host = setting lookup ''DB_HOST'' ''127.0.0.1'',
            db_Port = port, db_Name = setting lookup ''DB_NAME'' ''go_pdf_forge'',
            db_User = setting lookup ''DB_USER'' ''go_pdf_forge'', db_Password = setting lookup ''DB_PASSWORD'' [],
            db_SSLMode = setting lookup ''DB_SSL_MODE'' ''disable'', db_ConnectTimeout = connectTimeout,
            db_HealthTimeout = healthTimeout, db_MigrationTimeout = migrationTimeout,
            db_MaxConnections = maxConnections, db_MinConnections = minConnections,
            db_MaxConnectionAge = maxConnectionAge, db_MaxConnectionIdle = maxConnectionIdle,
            db_HealthCheckPeriod = healthCheckPeriod\<rparr>)))))))))"

subsection \<open>Validation\<close>

definition plain :: "bool \<Rightarrow> string \<Rightarrow> problem list" where
  "plain bad text = (if bad then [(text, [])] else [])"

definition quotas_validate :: "AnonymousQuotas \<Rightarrow> problem list" where
  "quotas_validate q =
     plain (aq_Window q < Minute \<or> aq_Window q smod Second \<noteq> 0)
       ''ANONYMOUS_QUOTA_WINDOW must be at least one minute and use whole seconds'' @
     concat (map (\<lambda>(name, v). if v \<le> 0 \<or> v > MaxInt32 then [(''%s must be between 1 and %d'', [name])] else [])
       [(''ANONYMOUS_QUOTA_SESSIONS_PER_IP'', aq_SessionsPerIP q),
        (''ANONYMOUS_QUOTA_UPLOADS_PER_SESSION'', aq_UploadsPerSession q),
        (''ANONYMOUS_QUOTA_UPLOADS_PER_IP'', aq_UploadsPerIP q),
        (''ANONYMOUS_QUOTA_JOBS_PER_SESSION'', aq_JobsPerSession q),
        (''ANONYMOUS_QUOTA_JOBS_PER_IP'', aq_JobsPerIP q)]) @
     concat (map (\<lambda>(name, v). if v \<le> 0 then [(''%s must be positive'', [name])] else [])
       [(''ANONYMOUS_QUOTA_BYTES_PER_SESSION'', aq_BytesPerSession q),
        (''ANONYMOUS_QUOTA_BYTES_PER_IP'', aq_BytesPerIP q)])"

definition Database_validate :: "Database \<Rightarrow> problem list" where
  "Database_validate d =
     plain (db_Driver d \<noteq> ''postgres'') ''DB_DRIVER must be postgres'' @
     plain (TrimSpace (db_Host d) = []) ''DB_HOST is required'' @
     plain (db_Port d < 1 \<or> db_Port d > 65535) ''DB_PORT must be between 1 and 65535'' @
     plain (TrimSpace (db_Name d) = []) ''DB_NAME is required'' @
     plain (TrimSpace (db_User d) = []) ''DB_USER is required'' @
     plain (db_Password d = []) ''DB_PASSWORD is required'' @
     (if db_SSLMode d = [] then [(''DB_SSL_MODE is required'', [])]
      else plain (\<not> validSSLMode (db_SSLMode d))
        ''DB_SSL_MODE must be disable, allow, prefer, require, verify-ca, or verify-full'') @
     plain (db_ConnectTimeout d \<le> 0) ''DB_CONNECT_TIMEOUT must be positive'' @
     plain (db_HealthTimeout d \<le> 0) ''DB_HEALTH_TIMEOUT must be positive'' @
     plain (db_MigrationTimeout d \<le> 0) ''DB_MIGRATION_TIMEOUT must be positive'' @
     plain (db_MaxConnections d \<le> 0) ''DB_MAX_CONNECTIONS must be positive'' @
     plain (db_MinConnections d < 0) ''DB_MIN_CONNECTIONS must not be negative'' @
     plain (db_MinConnections d > db_MaxConnections d) ''DB_MIN_CONNECTIONS must not exceed DB_MAX_CONNECTIONS'' @
     plain (db_MaxConnectionAge d \<le> 0) ''DB_MAX_CONNECTION_AGE must be positive'' @
     plain (db_MaxConnectionIdle d \<le> 0) ''DB_MAX_CONNECTION_IDLE must be positive'' @
     plain (db_HealthCheckPeriod d \<le> 0) ''DB_HEALTH_CHECK_PERIOD must be positive''"

definition Config_Validate :: "environment \<Rightarrow> Config \<Rightarrow> problem list" where
  "Config_Validate env cfg =
     (case parseAuthMode (auth_text (cfg_Auth cfg)) of Inl err \<Rightarrow> [err] | Inr mode \<Rightarrow> []) @
     plain (cfg_MaxUploadBytes cfg \<le> 0) ''MAX_UPLOAD_BYTES must be positive'' @
     plain (cfg_UploadChunkBytes cfg \<le> 0 \<or> cfg_UploadChunkBytes cfg > MaxInt32)
       ''UPLOAD_CHUNK_BYTES must be between 1 and %d'' @
     plain (cfg_MaxUploadBytes cfg > 0 \<and> cfg_UploadChunkBytes cfg > cfg_MaxUploadBytes cfg)
       ''UPLOAD_CHUNK_BYTES must not exceed MAX_UPLOAD_BYTES'' @
     plain (cfg_UploadSessionTTL cfg \<le> 0) ''UPLOAD_SESSION_TTL must be positive'' @
     plain (cfg_PDFTargetBytes cfg \<le> 0) ''PDF_TARGET_BYTES must be positive'' @
     plain (cfg_JobRetention cfg \<le> 0) ''JOB_RETENTION must be positive'' @
     plain (cfg_WorkerConcurrency cfg \<le> 0) ''WORKER_CONCURRENCY must be positive'' @
     plain (cfg_Auth cfg \<noteq> AuthRequired \<and> length (an_TokenPepper (cfg_Anonymous cfg)) < 32)
       ''ANONYMOUS_TOKEN_PEPPER must contain at least 32 bytes'' @
     plain (an_SessionTTL (cfg_Anonymous cfg) \<le> 0) ''ANONYMOUS_SESSION_TTL must be positive'' @
     quotas_validate (an_Quotas (cfg_Anonymous cfg)) @
     Database_validate (cfg_Database cfg) @
     (case env_url env (os_Endpoint (cfg_ObjectStore cfg)) of
        None \<Rightarrow> [(''S3_ENDPOINT must be an absolute URL'', [])]
      | Some (scheme, host) \<Rightarrow>
          if scheme = [] \<or> host = [] then [(''S3_ENDPOINT must be an absolute URL'', [])]
          else plain (scheme \<noteq> ''http'' \<and> scheme \<noteq> ''https'') ''S3_ENDPOINT scheme must be http or https'') @
     plain (TrimSpace (os_Region (cfg_ObjectStore cfg)) = []) ''S3_REGION is required'' @
     plain (TrimSpace (os_Bucket (cfg_ObjectStore cfg)) = []) ''S3_BUCKET is required'' @
     plain (os_AccessKeyID (cfg_ObjectStore cfg) = []) ''S3_ACCESS_KEY_ID is required'' @
     plain (os_SecretAccessKey (cfg_ObjectStore cfg) = []) ''S3_SECRET_ACCESS_KEY is required''"

subsection \<open>Loading\<close>

text \<open>The zero values that \<open>Load\<close> returns with an error of a reader.\<close>

definition zero_database :: Database where
  "zero_database = \<lparr>db_Driver = [], db_Host = [], db_Port = 0, db_Name = [], db_User = [], db_Password = [],
     db_SSLMode = [], db_ConnectTimeout = 0, db_HealthTimeout = 0, db_MigrationTimeout = 0, db_MaxConnections = 0,
     db_MinConnections = 0, db_MaxConnectionAge = 0, db_MaxConnectionIdle = 0, db_HealthCheckPeriod = 0\<rparr>"

definition zero_config :: Config where
  "zero_config = \<lparr>cfg_Auth = AuthOther [], cfg_MaxUploadBytes = 0, cfg_UploadChunkBytes = 0, cfg_UploadSessionTTL = 0,
     cfg_PDFTargetBytes = 0, cfg_JobRetention = 0, cfg_WorkerConcurrency = 0,
     cfg_Anonymous = \<lparr>an_TokenPepper = [], an_SessionTTL = 0,
       an_Quotas = \<lparr>aq_Window = 0, aq_SessionsPerIP = 0, aq_UploadsPerSession = 0, aq_UploadsPerIP = 0,
         aq_JobsPerSession = 0, aq_JobsPerIP = 0, aq_BytesPerSession = 0, aq_BytesPerIP = 0\<rparr>\<rparr>,
     cfg_Database = zero_database,
     cfg_ObjectStore = \<lparr>os_Endpoint = [], os_Region = [], os_Bucket = [], os_AccessKeyID = [],
       os_SecretAccessKey = [], os_PathStyle = False\<rparr>\<rparr>"

definition read_config :: "environment \<Rightarrow> LookupEnv \<Rightarrow> problem + Config" where
  "read_config env lookup =
     and_then (parseAuthMode (setting lookup ''AUTH_MODE'' (auth_text AuthOptional))) (\<lambda>auth.
     and_then (int64Value lookup ''MAX_UPLOAD_BYTES'' defaultMaxUploadBytes) (\<lambda>maxUpload.
     and_then (int64Value lookup ''UPLOAD_CHUNK_BYTES'' defaultChunkBytes) (\<lambda>chunkSize.
     and_then (durationValue env lookup ''UPLOAD_SESSION_TTL'' (24 * Hour)) (\<lambda>uploadSessionTTL.
     and_then (int64Value lookup ''PDF_TARGET_BYTES'' defaultTargetBytes) (\<lambda>targetSize.
     and_then (durationValue env lookup ''JOB_RETENTION'' (48 * Hour)) (\<lambda>retention.
     and_then (intValue lookup ''WORKER_CONCURRENCY'' 1) (\<lambda>workerConcurrency.
     and_then (durationValue env lookup ''ANONYMOUS_SESSION_TTL'' (48 * Hour)) (\<lambda>anonymousSessionTTL.
     and_then (anonymousQuotasFromEnvironment env lookup) (\<lambda>anonymousQuotas.
     and_then (databaseFromEnvironment env lookup) (\<lambda>database.
     and_then (boolValue lookup ''S3_PATH_STYLE'' True) (\<lambda>pathStyle.
       Inr \<lparr>cfg_Auth = auth, cfg_MaxUploadBytes = maxUpload, cfg_UploadChunkBytes = chunkSize,
            cfg_UploadSessionTTL = uploadSessionTTL, cfg_PDFTargetBytes = targetSize, cfg_JobRetention = retention,
            cfg_WorkerConcurrency = workerConcurrency,
            cfg_Anonymous = \<lparr>an_TokenPepper = setting lookup ''ANONYMOUS_TOKEN_PEPPER'' [],
              an_SessionTTL = anonymousSessionTTL, an_Quotas = anonymousQuotas\<rparr>,
            cfg_Database = database,
            cfg_ObjectStore = \<lparr>os_Endpoint = setting lookup ''S3_ENDPOINT'' ''http://127.0.0.1:3900'',
              os_Region = setting lookup ''S3_REGION'' ''garage'', os_Bucket = setting lookup ''S3_BUCKET'' ''go-pdf-forge'',
              os_AccessKeyID = setting lookup ''S3_ACCESS_KEY_ID'' [],
              os_SecretAccessKey = setting lookup ''S3_SECRET_ACCESS_KEY'' [], os_PathStyle = pathStyle\<rparr>\<rparr>)))))))))))"

text \<open>The result and the problems of the error; no problem is \<open>nil\<close>.\<close>

definition Load :: "environment \<Rightarrow> LookupEnv option \<Rightarrow> Config \<times> problem list" where
  "Load env lookup =
     (case lookup of None \<Rightarrow> (zero_config, [(''environment lookup is required'', [])])
      | Some lookup \<Rightarrow>
          (case read_config env lookup of
             Inl err \<Rightarrow> (zero_config, [err])
           | Inr cfg \<Rightarrow> (cfg, Config_Validate env cfg)))"

definition LoadDatabase :: "environment \<Rightarrow> LookupEnv option \<Rightarrow> Database \<times> problem list" where
  "LoadDatabase env lookup =
     (case lookup of None \<Rightarrow> (zero_database, [(''environment lookup is required'', [])])
      | Some lookup \<Rightarrow>
          (case databaseFromEnvironment env lookup of
             Inl err \<Rightarrow> (zero_database, [err])
           | Inr database \<Rightarrow> (database, Database_validate database)))"

subsection \<open>Settings are read as written\<close>

lemma TrimSpace_duration:
  assumes "u \<in> {''ns'', ''us'', ''ms'', ''s'', ''m'', ''h''}"
  shows "TrimSpace (decimal n @ u) = decimal n @ u"
proof (rule TrimSpace_graphic)
  have D: "graphic (hd (decimal n))" "decimal n \<noteq> []"
    using decimal_digits [of n] digit_graphic by (auto simp: list_all_iff)
  then show "graphic (hd (decimal n @ u))" "decimal n @ u \<noteq> []" by simp_all
  have "u \<noteq> [] \<and> graphic (last u)" using assms by (auto simp: graphic_def code_def)
  then show "graphic (last (decimal n @ u))" by simp
qed

lemma units_known:
  assumes "u \<in> {''ns'', ''us'', ''ms'', ''s'', ''m'', ''h''}"
  shows "\<exists>k. unitMap u = Some k \<and> 0 < k \<and> list_all unit_char u \<and> u \<noteq> []"
  using assms by (auto simp: unitMap_def unit_char_def is_digit_def code_def)

text \<open>
  C30. Settings are read as they are written: a number in decimal notation, even with white space
  around it, is read as itself exactly when it fits 64 bits, a duration written as a number
  and a unit is that many nanoseconds, a blank setting has its default, and whatever
  text is given, a value that is accepted fits \<open>int64\<close> when the default does.
\<close>

theorem settings_read_as_written:
  assumes "lookup name = Some raw"
  shows "(TrimSpace raw = FormatInt n \<and> MinInt64 \<le> n \<and> n \<le> MaxInt64 \<longrightarrow> int64Value lookup name dflt = Inr n) \<and>
    (u \<in> {''ns'', ''us'', ''ms'', ''s'', ''m'', ''h''} \<and> TrimSpace raw = decimal i @ u \<and>
      int i * int (the (unitMap u)) \<le> MaxInt64 \<longrightarrow>
      durationValue env lookup name dflt = Inr (int i * int (the (unitMap u)))) \<and>
    (TrimSpace raw = [] \<longrightarrow> int64Value lookup name dflt = Inr dflt \<and> durationValue env lookup name dflt = Inr dflt) \<and>
    (MinInt64 \<le> dflt \<and> dflt \<le> MaxInt64 \<longrightarrow>
      (\<forall>v. int64Value lookup name dflt = Inr v \<or> durationValue env lookup name dflt = Inr v \<longrightarrow>
        MinInt64 \<le> v \<and> v \<le> MaxInt64))"
proof (intro conjI impI allI)
  have s: "setting lookup name [] = TrimSpace raw" by (simp add: setting_def assms)
  show "int64Value lookup name dflt = Inr n" if "TrimSpace raw = FormatInt n \<and> MinInt64 \<le> n \<and> n \<le> MaxInt64"
    using that FormatInt_shape [of n] ParseInt_FormatInt [of n] by (simp add: int64Value_def parsed_setting_def s)
  show "durationValue env lookup name dflt = Inr (int i * int (the (unitMap u)))"
    if h: "u \<in> {''ns'', ''us'', ''ms'', ''s'', ''m'', ''h''} \<and> TrimSpace raw = decimal i @ u \<and>
      int i * int (the (unitMap u)) \<le> MaxInt64"
  proof -
    obtain k where k: "unitMap u = Some k" "0 < k" "list_all unit_char u" "u \<noteq> []" using units_known h by blast
    then have "int (i * k) < int (2 ^ 63)" using h by simp
    then have "i * k < 2 ^ 63" by (simp only: of_nat_less_iff)
    with ParseDuration_unit [OF k(1,3,4) _ k(2)] h k(1,4) show ?thesis
      by (simp add: durationValue_def parsed_setting_def s)
  qed
  show "int64Value lookup name dflt = Inr dflt" "durationValue env lookup name dflt = Inr dflt" if "TrimSpace raw = []"
    using that by (simp_all add: int64Value_def durationValue_def parsed_setting_def s)
  fix v assume d: "MinInt64 \<le> dflt \<and> dflt \<le> MaxInt64"
    and v: "int64Value lookup name dflt = Inr v \<or> durationValue env lookup name dflt = Inr v"
  show "MinInt64 \<le> v" "v \<le> MaxInt64"
    using v d ParseInt_range ParseDuration_range
    by (auto simp: int64Value_def durationValue_def parsed_setting_def Let_def split: if_splits option.splits)
qed

definition toy_environment :: environment where
  "toy_environment = \<lparr>env_frac = (\<lambda>f unit scale. f * unit div scale), env_url = (\<lambda>text. Some (''http'', text))\<rparr>"

definition toy_lookup :: LookupEnv where
  "toy_lookup = [''UPLOAD_SESSION_TTL'' \<mapsto> '' 90s ''] (''MAX_UPLOAD_BYTES'' \<mapsto> ''-5'')"

theorem settings_read_as_written_witness:
  "durationValue toy_environment toy_lookup ''UPLOAD_SESSION_TTL'' Hour = Inr (90 * Second) \<and>
   int64Value toy_lookup ''MAX_UPLOAD_BYTES'' 7 = Inr (- 5)"
proof -
  have "TrimSpace '' 90s '' = decimal 90 @ ''s''" "TrimSpace ''-5'' = FormatInt (- 5)" by code_simp+
  moreover have "the (unitMap ''s'') = 1000000000" by (simp add: unitMap_def)
  moreover have "toy_lookup ''UPLOAD_SESSION_TTL'' = Some '' 90s ''" "toy_lookup ''MAX_UPLOAD_BYTES'' = Some ''-5''"
    by (simp_all add: toy_lookup_def)
  ultimately show ?thesis
    using settings_read_as_written [of toy_lookup "''UPLOAD_SESSION_TTL''" "'' 90s ''" 0 Hour "''s''" 90 toy_environment]
      settings_read_as_written [of toy_lookup "''MAX_UPLOAD_BYTES''" "''-5''" "- 5" 7 "''s''" 0 toy_environment]
    by simp
qed

subsection \<open>Errors do not reveal secrets\<close>

definition secret_names :: "string set" where
  "secret_names = {''ANONYMOUS_TOKEN_PEPPER'', ''DB_PASSWORD'', ''S3_SECRET_ACCESS_KEY''}"

text \<open>Two environments that differ in their secrets only, and agree on which secrets are there.\<close>

definition same_but_secrets :: "LookupEnv \<Rightarrow> LookupEnv \<Rightarrow> bool" where
  "same_but_secrets l l' \<longleftrightarrow> (\<forall>name. name \<notin> secret_names \<longrightarrow> l name = l' name) \<and>
     (setting l ''DB_PASSWORD'' [] = [] \<longleftrightarrow> setting l' ''DB_PASSWORD'' [] = []) \<and>
     (setting l ''S3_SECRET_ACCESS_KEY'' [] = [] \<longleftrightarrow> setting l' ''S3_SECRET_ACCESS_KEY'' [] = []) \<and>
     (length (setting l ''ANONYMOUS_TOKEN_PEPPER'' []) < 32 \<longleftrightarrow>
      length (setting l' ''ANONYMOUS_TOKEN_PEPPER'' []) < 32)"

lemma public_setting:
  assumes "same_but_secrets l l'" and "name \<notin> secret_names"
  shows "setting l name = setting l' name" and "int64Value l name = int64Value l' name"
    and "intValue l name = intValue l' name" and "durationValue env l name = durationValue env l' name"
    and "boolValue l name = boolValue l' name"
proof -
  have "l name = l' name" using assms by (simp add: same_but_secrets_def)
  then show s: "setting l name = setting l' name" by (simp add: setting_def fun_eq_iff)
  show "int64Value l name = int64Value l' name" "intValue l name = intValue l' name"
    "durationValue env l name = durationValue env l' name" "boolValue l name = boolValue l' name"
    by (simp_all add: int64Value_def intValue_def durationValue_def boolValue_def parsed_setting_def s fun_eq_iff)
qed

lemma quotas_public: "same_but_secrets l l' \<Longrightarrow> anonymousQuotasFromEnvironment env l = anonymousQuotasFromEnvironment env l'"
  unfolding anonymousQuotasFromEnvironment_def
  by (simp add: public_setting [of l l'] secret_names_def)

lemma database_public:
  assumes "same_but_secrets l l'"
  shows "databaseFromEnvironment env l =
    map_sum id (\<lambda>d. d\<lparr>db_Password := setting l ''DB_PASSWORD'' []\<rparr>) (databaseFromEnvironment env l')"
  unfolding databaseFromEnvironment_def
  by (simp add: public_setting [OF assms] secret_names_def and_then_def split: sum.split)

text \<open>A configuration without its secrets.\<close>

definition hide_database :: "Database \<Rightarrow> Database" where
  "hide_database d = d\<lparr>db_Password := []\<rparr>"

definition hide_secrets :: "Config \<Rightarrow> Config" where
  "hide_secrets cfg = cfg\<lparr>
     cfg_Anonymous := (cfg_Anonymous cfg)\<lparr>an_TokenPepper := []\<rparr>,
     cfg_Database := hide_database (cfg_Database cfg),
     cfg_ObjectStore := (cfg_ObjectStore cfg)\<lparr>os_SecretAccessKey := []\<rparr>\<rparr>"

lemma database_password: "databaseFromEnvironment env l = Inr d \<Longrightarrow> db_Password d = setting l ''DB_PASSWORD'' []"
  unfolding databaseFromEnvironment_def by (auto simp: and_then_Inr)

lemma Database_validate_public:
  assumes "hide_database d = hide_database d'" and "db_Password d = [] \<longleftrightarrow> db_Password d' = []"
  shows "Database_validate d = Database_validate d'"
  using assms by (cases d; cases d') (simp add: Database_validate_def hide_database_def)

lemma read_config_public:
  assumes "same_but_secrets l l'"
  shows "map_sum id hide_secrets (read_config env l) = map_sum id hide_secrets (read_config env l')"
  unfolding read_config_def
  by (simp add: public_setting [OF assms] quotas_public [OF assms] database_public [OF assms] secret_names_def
      and_then_def hide_secrets_def hide_database_def split: sum.split)

lemma Config_Validate_public:
  assumes "hide_secrets cfg = hide_secrets cfg'"
    and "db_Password (cfg_Database cfg) = [] \<longleftrightarrow> db_Password (cfg_Database cfg') = []"
    and "length (an_TokenPepper (cfg_Anonymous cfg)) < 32 \<longleftrightarrow> length (an_TokenPepper (cfg_Anonymous cfg')) < 32"
    and "os_SecretAccessKey (cfg_ObjectStore cfg) = [] \<longleftrightarrow> os_SecretAccessKey (cfg_ObjectStore cfg') = []"
  shows "Config_Validate env cfg = Config_Validate env cfg'"
proof -
  have D: "Database_validate (cfg_Database cfg) = Database_validate (cfg_Database cfg')"
    by (rule Database_validate_public [OF _ assms(2)]) (use assms(1) in \<open>cases cfg; cases cfg'; simp add: hide_secrets_def\<close>)
  obtain a s o' a' s' o'' where "cfg_Anonymous cfg = a" "cfg_Anonymous cfg' = a'"
    "cfg_ObjectStore cfg = s" "cfg_ObjectStore cfg' = s'" by blast
  then show ?thesis
    using assms(1,3,4) D by (cases cfg; cases cfg'; cases a; cases a'; cases s; cases s')
      (simp add: Config_Validate_def hide_secrets_def)
qed

lemma read_config_secrets:
  assumes "read_config env l = Inr cfg"
  shows "db_Password (cfg_Database cfg) = setting l ''DB_PASSWORD'' []"
    and "an_TokenPepper (cfg_Anonymous cfg) = setting l ''ANONYMOUS_TOKEN_PEPPER'' []"
    and "os_SecretAccessKey (cfg_ObjectStore cfg) = setting l ''S3_SECRET_ACCESS_KEY'' []"
    and "databaseFromEnvironment env l = Inr (cfg_Database cfg)"
  using assms database_password [of env l] unfolding read_config_def by (auto simp: and_then_Inr)

text \<open>
  C31. Whatever the secrets are, the problems reported on loading the configuration, or the
  database part of it for the migration command, are the same: two environments that differ
  only in the values of the token pepper, the database password and the secret access key
  (both present or both absent, both long enough or both too short) give the same messages,
  with the same values shown in them, and configurations that differ only in these secrets.
\<close>

theorem secrets_do_not_leak:
  assumes "same_but_secrets l l'"
  shows "snd (Load env (Some l)) = snd (Load env (Some l')) \<and>
    hide_secrets (fst (Load env (Some l))) = hide_secrets (fst (Load env (Some l'))) \<and>
    snd (LoadDatabase env (Some l)) = snd (LoadDatabase env (Some l')) \<and>
    hide_database (fst (LoadDatabase env (Some l))) = hide_database (fst (LoadDatabase env (Some l')))"
proof -
  have S: "setting l ''DB_PASSWORD'' [] = [] \<longleftrightarrow> setting l' ''DB_PASSWORD'' [] = []"
    "setting l ''S3_SECRET_ACCESS_KEY'' [] = [] \<longleftrightarrow> setting l' ''S3_SECRET_ACCESS_KEY'' [] = []"
    "length (setting l ''ANONYMOUS_TOKEN_PEPPER'' []) < 32 \<longleftrightarrow> length (setting l' ''ANONYMOUS_TOKEN_PEPPER'' []) < 32"
    using assms by (simp_all add: same_but_secrets_def)
  have L: "snd (Load env (Some l)) = snd (Load env (Some l')) \<and>
    hide_secrets (fst (Load env (Some l))) = hide_secrets (fst (Load env (Some l')))"
  proof (cases "read_config env l'")
    case (Inl e)
    with read_config_public [OF assms, of env] show ?thesis by (cases "read_config env l") (simp_all add: Load_def)
  next
    case (Inr cfg')
    then obtain cfg where cfg: "read_config env l = Inr cfg" "hide_secrets cfg = hide_secrets cfg'"
      using read_config_public [OF assms, of env] by (cases "read_config env l") simp_all
    have "Config_Validate env cfg = Config_Validate env cfg'"
      by (rule Config_Validate_public [OF cfg(2)])
        (use S in \<open>simp_all only: read_config_secrets(1-3) [OF cfg(1)] read_config_secrets(1-3) [OF Inr]\<close>)
    then show ?thesis by (simp add: Load_def cfg Inr)
  qed
  have D: "snd (LoadDatabase env (Some l)) = snd (LoadDatabase env (Some l')) \<and>
    hide_database (fst (LoadDatabase env (Some l))) = hide_database (fst (LoadDatabase env (Some l')))"
  proof (cases "databaseFromEnvironment env l'")
    case (Inr d)
    then have "databaseFromEnvironment env l = Inr (d\<lparr>db_Password := setting l ''DB_PASSWORD'' []\<rparr>)"
      by (simp add: database_public [OF assms])
    moreover have "db_Password d = setting l' ''DB_PASSWORD'' []" using database_password Inr by blast
    ultimately show ?thesis using Inr S(1) by (simp add: LoadDatabase_def hide_database_def Database_validate_def)
  qed (simp add: LoadDatabase_def database_public [OF assms])
  from L D show ?thesis by blast
qed

definition toy_secrets :: "string \<Rightarrow> LookupEnv" where
  "toy_secrets p = [''DB_PASSWORD'' \<mapsto> p, ''DB_PORT'' \<mapsto> ''x'']"

theorem secrets_do_not_leak_witness:
  "toy_secrets ''one'' \<noteq> toy_secrets ''two'' \<and>
   snd (LoadDatabase toy_environment (Some (toy_secrets ''one''))) = snd (LoadDatabase toy_environment (Some (toy_secrets ''two''))) \<and>
   snd (LoadDatabase toy_environment (Some (toy_secrets ''one''))) = [(''parse %s: %w'', [''DB_PORT'', ''x''])]"
proof -
  have "same_but_secrets (toy_secrets ''one'') (toy_secrets ''two'')"
    by (simp add: same_but_secrets_def secret_names_def toy_secrets_def setting_def) code_simp
  moreover have "toy_secrets ''one'' ''DB_PASSWORD'' \<noteq> toy_secrets ''two'' ''DB_PASSWORD''"
    by (simp add: toy_secrets_def)
  moreover have "intValue (toy_secrets ''one'') ''DB_PORT'' 5432 = Inl (''parse %s: %w'', [''DB_PORT'', ''x''])"
    by (simp add: toy_secrets_def) code_simp
  then have "snd (LoadDatabase toy_environment (Some (toy_secrets ''one''))) = [(''parse %s: %w'', [''DB_PORT'', ''x''])]"
    by (simp add: LoadDatabase_def databaseFromEnvironment_def)
  ultimately show ?thesis using secrets_do_not_leak [of "toy_secrets ''one''" "toy_secrets ''two''" toy_environment] by metis
qed

end
