(* ===== verification/Substrings.thy ===== *)
theory Substrings
  imports Prelude
begin

text \<open>
  Searching in strings, as the packages \<open>strings\<close> and \<open>path\<close> do it: \<open>HasPrefix\<close>, \<open>HasSuffix\<close>,
  \<open>Index\<close>, \<open>Count\<close>, \<open>ReplaceAll\<close>, \<open>path.Ext\<close>, \<open>path.Clean\<close> and \<open>path.Join\<close>, with the lemmas that
  relate \<open>Index\<close> and \<open>Count\<close> to the positions at which a substring occurs.
\<close>

subsection \<open>Occurrences\<close>

definition HasPrefix :: "string \<Rightarrow> string \<Rightarrow> bool" where
  "HasPrefix s u \<longleftrightarrow> take (length u) s = u"

definition HasSuffix :: "string \<Rightarrow> string \<Rightarrow> bool" where
  "HasSuffix s u \<longleftrightarrow> HasPrefix (rev s) (rev u)"

fun Index :: "string \<Rightarrow> string \<Rightarrow> nat option" where
  "Index [] u = (if u = [] then Some 0 else None)"
| "Index (c # s) u = (if HasPrefix (c # s) u then Some 0 else map_option Suc (Index s u))"

text \<open>
  \<open>strings.Count\<close> counts matches from left to right without overlap; the number says how many
  bytes of the last match are still to be passed over. The substring is not empty.
\<close>

fun count_from :: "nat \<Rightarrow> string \<Rightarrow> string \<Rightarrow> nat" where
  "count_from k [] u = 0"
| "count_from (Suc k) (c # s) u = count_from k s u"
| "count_from 0 (c # s) u =
     (if HasPrefix (c # s) u then Suc (count_from (length u - 1) s u) else count_from 0 s u)"

definition Count :: "string \<Rightarrow> string \<Rightarrow> nat" where
  "Count s u = count_from 0 s u"

definition occurrences :: "string \<Rightarrow> string \<Rightarrow> nat set" where
  "occurrences u s = {i. i < length s \<and> HasPrefix (drop i s) u}"

lemma HasPrefix_iff: "HasPrefix s u \<longleftrightarrow> (\<exists>t. s = u @ t)"
  unfolding HasPrefix_def by (metis append_eq_conv_conj append_take_drop_id)

lemma HasPrefix_append [simp]: "HasPrefix (u @ t) u"
  by (simp add: HasPrefix_def)

lemma HasSuffix_iff: "HasSuffix s u \<longleftrightarrow> (\<exists>t. s = t @ u)"
  unfolding HasSuffix_def HasPrefix_iff by (metis rev_append rev_rev_ident)

lemma occurrences_Nil [simp]: "occurrences u [] = {}"
  by (simp add: occurrences_def)

lemma occurrences_Cons:
  "occurrences u (c # s) = (if HasPrefix (c # s) u then {0} else {}) \<union> Suc ` occurrences u s"
proof (rule set_eqI)
  fix i show "i \<in> occurrences u (c # s) \<longleftrightarrow>
    i \<in> (if HasPrefix (c # s) u then {0} else {}) \<union> Suc ` occurrences u s"
    by (cases i) (auto simp: occurrences_def image_iff)
qed

lemma finite_occurrences [simp]: "finite (occurrences u s)"
  by (simp add: occurrences_def)

lemma occurrence_split: "i \<in> occurrences u s \<Longrightarrow> s = take i s @ u @ drop (i + length u) s"
proof -
  assume "i \<in> occurrences u s"
  then obtain t where t: "drop i s = u @ t" by (auto simp: occurrences_def HasPrefix_iff)
  then have "drop (i + length u) s = t" by (metis append_eq_conv_conj drop_drop add.commute)
  then show ?thesis using t append_take_drop_id [of i s] by simp
qed

lemma occurrence_at: "u \<noteq> [] \<Longrightarrow> length a \<in> occurrences u (a @ u @ b)"
  by (simp add: occurrences_def)

lemma Index_None_iff: "u \<noteq> [] \<Longrightarrow> Index s u = None \<longleftrightarrow> occurrences u s = {}"
  by (induction s) (auto simp: occurrences_Cons)

lemma Index_Some: "u \<noteq> [] \<Longrightarrow> Index s u = Some i \<Longrightarrow> i \<in> occurrences u s \<and> (\<forall>j \<in> occurrences u s. i \<le> j)"
  by (induction s arbitrary: i) (auto simp: occurrences_Cons split: if_splits)

lemma Index_unique: "u \<noteq> [] \<Longrightarrow> occurrences u s = {i} \<Longrightarrow> Index s u = Some i"
  using Index_None_iff [of u s] Index_Some [of u s] by (cases "Index s u") auto

text \<open>A string none of whose proper prefixes is also one of its suffixes cannot overlap itself.\<close>

definition border_free :: "string \<Rightarrow> bool" where
  "border_free u \<longleftrightarrow> list_all (\<lambda>k. \<not> HasPrefix u (drop k u)) [1..<length u]"

lemma no_overlap:
  assumes "border_free u" and "i \<in> occurrences u s" and "j \<in> occurrences u s" and "i < j"
  shows "i + length u \<le> j"
proof (rule ccontr)
  assume near: "\<not> i + length u \<le> j"
  define k where "k = j - i"
  obtain t where t: "drop i s = u @ t" using assms(2) by (auto simp: occurrences_def HasPrefix_iff)
  obtain r where r: "drop j s = u @ r" using assms(3) by (auto simp: occurrences_def HasPrefix_iff)
  have "drop k (u @ t) = u @ r" using r assms(4) by (simp add: k_def flip: t)
  then have "drop k u @ t = u @ r" using near k_def by simp
  then have "take (length (drop k u)) (drop k u @ t) = take (length (drop k u)) (u @ r)" by (rule arg_cong)
  then have "HasPrefix u (drop k u)" by (simp add: HasPrefix_def)
  moreover have "k \<in> set [1..<length u]" using near assms(4) by (auto simp: k_def)
  ultimately show False using assms(1) by (auto simp: border_free_def list_all_iff)
qed

lemma count_from_occurrences:
  assumes "border_free u" and "u \<noteq> []"
  shows "count_from k s u = card {i \<in> occurrences u s. k \<le> i}"
proof (induction s arbitrary: k)
  case (Cons c s)
  have shift: "{i \<in> Suc ` occurrences u s. Suc n \<le> i} = Suc ` {i \<in> occurrences u s. n \<le> i}" for n by auto
  have keep: "card {i \<in> Suc ` occurrences u s. Suc n \<le> i} = count_from n s u" for n
    by (simp add: shift Cons.IH card_image)
  show ?case
  proof (cases k)
    case (Suc n)
    have "{i \<in> occurrences u (c # s). k \<le> i} = {i \<in> Suc ` occurrences u s. Suc n \<le> i}"
      by (auto simp: occurrences_Cons Suc split: if_splits)
    then show ?thesis by (simp add: Suc keep)
  next
    case 0
    show ?thesis
    proof (cases "HasPrefix (c # s) u")
      case True
      have "0 \<in> occurrences u (c # s)" using True by (simp add: occurrences_Cons)
      then have "{i \<in> occurrences u (c # s). 0 \<le> i} =
          insert 0 {i \<in> Suc ` occurrences u s. Suc (length u - 1) \<le> i}"
        using no_overlap [OF assms(1), of 0 "c # s"] assms(2)
        by (fastforce simp: occurrences_Cons True)
      then have "card {i \<in> occurrences u (c # s). 0 \<le> i} = Suc (count_from (length u - 1) s u)"
        by (simp only: keep [symmetric]) (subst card_insert_disjoint; auto)
      then show ?thesis by (simp add: 0 True)
    next
      case False
      have "{i \<in> occurrences u (c # s). 0 \<le> i} = {i \<in> Suc ` occurrences u s. Suc 0 \<le> i}"
        by (auto simp: occurrences_Cons False)
      then show ?thesis by (simp add: 0 False keep)
    qed
  qed
qed simp

lemma Count_occurrences: "border_free u \<Longrightarrow> u \<noteq> [] \<Longrightarrow> Count s u = card (occurrences u s)"
  by (simp add: Count_def count_from_occurrences)

subsection \<open>Replacement\<close>

fun replace_from :: "nat \<Rightarrow> string \<Rightarrow> string \<Rightarrow> string \<Rightarrow> string" where
  "replace_from k [] u v = []"
| "replace_from (Suc k) (c # s) u v = replace_from k s u v"
| "replace_from 0 (c # s) u v =
     (if HasPrefix (c # s) u then v @ replace_from (length u - 1) s u v else c # replace_from 0 s u v)"

definition ReplaceAll :: "string \<Rightarrow> string \<Rightarrow> string \<Rightarrow> string" where
  "ReplaceAll s u v = replace_from 0 s u v"

subsection \<open>Paths\<close>

definition path_Ext :: "string \<Rightarrow> string" where
  "path_Ext p =
     (let name = takeWhile (\<lambda>c. c \<noteq> CHR ''/'') (rev p) in
      if CHR ''.'' \<in> set name then CHR ''.'' # rev (takeWhile (\<lambda>c. c \<noteq> CHR ''.'') name) else [])"

fun split_at :: "char \<Rightarrow> string \<Rightarrow> string list" where
  "split_at c [] = [[]]"
| "split_at c (d # s) =
     (if d = c then [] # split_at c s else case split_at c s of [] \<Rightarrow> [[d]] | t # ts \<Rightarrow> (d # t) # ts)"

fun join_with :: "string \<Rightarrow> string list \<Rightarrow> string" where
  "join_with sep [] = []"
| "join_with sep [t] = t"
| "join_with sep (t # u # ts) = t @ sep @ join_with sep (u # ts)"

definition clean_element :: "bool \<Rightarrow> string list \<Rightarrow> string \<Rightarrow> string list" where
  "clean_element rooted out e =
     (if e = [] \<or> e = ''.'' then out
      else if e = ''..'' then
        (if out = [] then (if rooted then [] else [e])
         else if last out = ''..'' then out @ [e] else butlast out)
      else out @ [e])"

definition path_Clean :: "string \<Rightarrow> string" where
  "path_Clean p =
     (let rooted = HasPrefix p ''/'';
          cleaned = (if rooted then ''/'' else []) @
            join_with ''/'' (foldl (clean_element rooted) [] (split_at (CHR ''/'') p))
      in if cleaned = [] then ''.'' else cleaned)"

definition path_Join :: "string \<Rightarrow> string \<Rightarrow> string" where
  "path_Join a b =
     (if a = [] \<and> b = [] then [] else path_Clean (if a = [] then b else a @ ''/'' @ b))"

text \<open>\<open>net.JoinHostPort\<close> puts a host with a colon into brackets.\<close>

definition JoinHostPort :: "string \<Rightarrow> string \<Rightarrow> string" where
  "JoinHostPort host port =
     (if CHR '':'' \<in> set host then ''['' @ host @ '']:'' @ port else host @ '':'' @ port)"

end
