(* ===== verification/Migration.thy ===== *)
theory Migration
  imports Config Substrings "HOL-Library.Multiset"
begin

text \<open>
  Loading the embedded SQL migrations, \<open>internal/database/migrate.go\<close>: \<open>LoadMigrations\<close> reads a
  directory, \<open>splitMigration\<close> divides a file at its two markers. A file is the string of its bytes.
  The file system and SHA-256 are arguments; a message is its format with the values it shows.
\<close>

definition upMarker :: string where "upMarker = ''-- migrate:up''"
definition downMarker :: string where "downMarker = ''-- migrate:down''"

record Migration =
  mg_Version :: string
  mg_Name :: string
  mg_UpSQL :: string
  mg_DownSQL :: string
  mg_Checksum :: bytes

record migration_source =
  fs_ReadDir :: "string \<Rightarrow> (string \<times> bool) list option"
  fs_ReadFile :: "string \<Rightarrow> string option"

definition ChecksumHex :: "Migration \<Rightarrow> string" where
  "ChecksumHex migration = hex_EncodeToString (mg_Checksum migration)"

text \<open>The submatches of \<open>^([0-9]{14})_([a-z0-9][a-z0-9_]*)\.sql$\<close>.\<close>

definition name_start :: "char \<Rightarrow> bool" where
  "name_start c \<longleftrightarrow> is_digit c \<or> CHR ''a'' \<le> c \<and> c \<le> CHR ''z''"

definition name_char :: "char \<Rightarrow> bool" where
  "name_char c \<longleftrightarrow> name_start c \<or> c = CHR ''_''"

definition migrationFilename :: "string \<Rightarrow> (string \<times> string) option" where
  "migrationFilename file =
     (let version = take 14 file; rest = drop 14 file; name = take (length rest - 5) (drop 1 rest) in
      if length version = 14 \<and> list_all is_digit version \<and> HasPrefix rest ''_'' \<and> HasSuffix rest ''.sql''
          \<and> length rest \<ge> 6 \<and> name_start (hd name) \<and> list_all name_char name
        then Some (version, name) else None)"

definition splitMigration :: "string \<Rightarrow> problem + string \<times> string" where
  "splitMigration content =
     (case Index content upMarker of
        None \<Rightarrow> Inl (''missing -- migrate:up marker'', [])
      | Some upIndex \<Rightarrow>
      (case Index content downMarker of
        None \<Rightarrow> Inl (''missing -- migrate:down marker'', [])
      | Some downIndex \<Rightarrow>
      if Count content upMarker \<noteq> 1 \<or> Count content downMarker \<noteq> 1
        then Inl (''migration markers must appear exactly once'', [])
      else if downIndex \<le> upIndex then Inl (''down marker must follow up marker'', [])
      else if downIndex < upIndex + length upMarker then Inl (''panic: slice bounds out of range'', [])
      else
        let upSQL = TrimSpace (drop (upIndex + length upMarker) (take downIndex content));
            downSQL = TrimSpace (drop (downIndex + length downMarker) content)
        in if upSQL = [] then Inl (''up migration is empty'', [])
           else if downSQL = [] then Inl (''down migration is empty'', [])
           else Inr (upSQL, downSQL)))"

text \<open>
  The loop of \<open>LoadMigrations\<close> over the directory's entries, with the versions seen so far and
  the migrations found; \<open>%w\<close> of a wrapped message adds the values the message shows.
\<close>

fun load_entries ::
    "(string \<Rightarrow> bytes) \<Rightarrow> migration_source \<Rightarrow> string \<Rightarrow> (string \<times> bool) list \<Rightarrow> (string \<rightharpoonup> string) \<Rightarrow>
      Migration list \<Rightarrow> problem + Migration list" where
  "load_entries sum256 source directory [] versions migrations = Inr migrations"
| "load_entries sum256 source directory ((fname, is_dir) # entries) versions migrations =
     (if is_dir \<or> path_Ext fname \<noteq> ''.sql''
        then load_entries sum256 source directory entries versions migrations
      else case migrationFilename fname of
        None \<Rightarrow> Inl (''invalid migration filename %q'', [fname])
      | Some (version, name) \<Rightarrow>
      (case versions version of
        Some previous \<Rightarrow> Inl (''migration version %s is duplicated by %q and %q'', [version, previous, fname])
      | None \<Rightarrow>
      (case fs_ReadFile source (path_Join directory fname) of
        None \<Rightarrow> Inl (''read migration %q: %w'', [fname])
      | Some content \<Rightarrow>
      (case splitMigration content of
        Inl (text, shown) \<Rightarrow> Inl (''parse migration %q: '' @ text, fname # shown)
      | Inr (upSQL, downSQL) \<Rightarrow>
          load_entries sum256 source directory entries (versions(version \<mapsto> fname))
            (migrations @ [\<lparr>mg_Version = version, mg_Name = name, mg_UpSQL = upSQL, mg_DownSQL = downSQL,
               mg_Checksum = sum256 content\<rparr>])))))"

definition LoadMigrations ::
    "(string \<Rightarrow> bytes) \<Rightarrow> migration_source option \<Rightarrow> string \<Rightarrow> problem + Migration list" where
  "LoadMigrations sum256 source directory =
     (case source of None \<Rightarrow> Inl (''migration source is required'', [])
      | Some source \<Rightarrow>
          let directory = (if directory = [] then ''.'' else directory) in
          (case fs_ReadDir source directory of
             None \<Rightarrow> Inl (''read migration directory: %w'', [])
           | Some entries \<Rightarrow>
          (case load_entries sum256 source directory entries Map.empty [] of
             Inl err \<Rightarrow> Inl err
           | Inr migrations \<Rightarrow>
               if migrations = [] then Inl (''no SQL migrations found'', [])
               else Inr (sort_key mg_Version migrations))))"

text \<open>The migrator is its migrations; the logger takes no part in the result.\<close>

record Migrator =
  mr_migrations :: "Migration list"

definition NewMigrator ::
    "(string \<Rightarrow> bytes) \<Rightarrow> migration_source option \<Rightarrow> string \<Rightarrow> problem + Migrator" where
  "NewMigrator sum256 source directory =
     and_then (LoadMigrations sum256 source directory) (\<lambda>migrations. Inr \<lparr>mr_migrations = migrations\<rparr>)"

definition Migrations :: "Migrator \<Rightarrow> Migration list" where
  "Migrations migrator = mr_migrations migrator"

subsection \<open>Splitting a file\<close>

lemma markers: "border_free upMarker" "border_free downMarker" "upMarker \<noteq> []" "downMarker \<noteq> []"
  by code_simp+

lemma markers_apart:
  assumes "i \<in> occurrences upMarker s" and "j \<in> occurrences downMarker s" and "i < j"
  shows "i + length upMarker \<le> j"
proof (rule ccontr)
  assume near: "\<not> i + length upMarker \<le> j"
  define k where "k = j - i"
  obtain t where t: "drop i s = upMarker @ t" using assms(1) by (auto simp: occurrences_def HasPrefix_iff)
  obtain r where r: "drop j s = downMarker @ r" using assms(2) by (auto simp: occurrences_def HasPrefix_iff)
  have n: "length upMarker = 13" "length downMarker = 15" by (simp_all add: upMarker_def downMarker_def)
  have k: "k \<in> set [1..<13]" using near assms(3) n by (auto simp: k_def)
  have "drop k (upMarker @ t) = downMarker @ r" using r assms(3) by (simp add: k_def flip: t)
  then have "take (13 - k) (drop k (upMarker @ t)) = take (13 - k) (downMarker @ r)" by simp
  then have "take (13 - k) (drop k upMarker) = take (13 - k) downMarker"
    using k n by simp
  moreover have "list_all (\<lambda>k. take (13 - k) (drop k upMarker) \<noteq> take (13 - k) downMarker) [1..<13]" by code_simp
  ultimately show False using k by (simp only: list_all_iff)
qed

lemma split_accepts:
  assumes s: "s = a @ upMarker @ b @ downMarker @ c"
    and up: "occurrences upMarker s = {length a}"
    and down: "occurrences downMarker s = {length (a @ upMarker @ b)}"
    and filled: "TrimSpace b \<noteq> []" "TrimSpace c \<noteq> []"
  shows "splitMigration s = Inr (TrimSpace b, TrimSpace c)"
proof -
  have i: "Index s upMarker = Some (length a)" "Index s downMarker = Some (length (a @ upMarker @ b))"
    using up down markers by (simp_all add: Index_unique)
  have n: "Count s upMarker = 1" "Count s downMarker = 1"
    using up down markers by (simp_all add: Count_occurrences)
  have l: "length upMarker > 0" using markers by simp
  have d: "drop (length a + length upMarker) (take (length (a @ upMarker @ b)) s) = b"
    "drop (length (a @ upMarker @ b) + length downMarker) s = c"
    by (simp_all add: s)
  show ?thesis using filled l unfolding splitMigration_def i option.case n d by simp
qed

lemma split_sections:
  assumes "splitMigration s = Inr (x, y)"
  shows "\<exists>a b c. s = a @ upMarker @ b @ downMarker @ c \<and> occurrences upMarker s = {length a} \<and>
    occurrences downMarker s = {length (a @ upMarker @ b)} \<and>
    x = TrimSpace b \<and> x \<noteq> [] \<and> y = TrimSpace c \<and> y \<noteq> []"
proof -
  obtain i j where i: "Index s upMarker = Some i" and j: "Index s downMarker = Some j"
    using assms by (auto simp: splitMigration_def split: option.splits)
  have h: "Count s upMarker = 1" "Count s downMarker = 1" "i + length upMarker \<le> j"
    "x = TrimSpace (drop (i + length upMarker) (take j s))" "x \<noteq> []"
    "y = TrimSpace (drop (j + length downMarker) s)" "y \<noteq> []"
    using assms unfolding splitMigration_def i j option.case by (simp_all add: Let_def split: if_splits)
  have I: "i \<in> occurrences upMarker s" "j \<in> occurrences downMarker s"
    using Index_Some i j markers by blast+
  then have o: "occurrences upMarker s = {i}" "occurrences downMarker s = {j}"
    using h(1,2) markers by (auto simp: Count_occurrences card_1_singleton_iff)
  define a b c where "a = take i s" and "b = drop (i + length upMarker) (take j s)" and "c = drop (j + length downMarker) s"
  have il: "i < length s" "j < length s" using I by (simp_all add: occurrences_def)
  have s2: "s = take j s @ downMarker @ c" using occurrence_split [OF I(2)] by (simp add: c_def)
  have tj: "take j s = a @ upMarker @ b"
  proof -
    obtain t where t: "drop i s = upMarker @ t" using I(1) by (auto simp: occurrences_def HasPrefix_iff)
    have "take j s = a @ take (j - i) (drop i s)"
      using h(3) by (simp add: a_def) (metis add_leD1 le_add_diff_inverse take_add)
    moreover have "take (j - i) (drop i s) = upMarker @ take (j - i - length upMarker) t"
      using h(3) by (simp add: t)
    moreover have "b = take (j - i - length upMarker) t"
      using h(3) t by (simp add: b_def drop_take diff_diff_add) (metis append_eq_conv_conj drop_drop add.commute)
    ultimately show ?thesis by simp
  qed
  have "s = a @ upMarker @ b @ downMarker @ c" using s2 tj by simp
  moreover have "length a = i" using il by (simp add: a_def)
  moreover have "length (a @ upMarker @ b) = j" using il by (simp flip: tj)
  ultimately have "s = a @ upMarker @ b @ downMarker @ c \<and> occurrences upMarker s = {length a} \<and>
    occurrences downMarker s = {length (a @ upMarker @ b)} \<and>
    x = TrimSpace b \<and> x \<noteq> [] \<and> y = TrimSpace c \<and> y \<noteq> []"
    using o h(4-7) by (simp only: b_def c_def) simp
  then show ?thesis by blast
qed

text \<open>
  C32. A migration file is accepted exactly when each marker occurs in it exactly once, the up
  marker first, and neither section is blank; its two scripts are then the trimmed text between
  the markers and after the second one, and text before the first is ignored. The markers
  cannot overlap, so that the slice between them is always in range.
\<close>

theorem migration_file_sections:
  "(splitMigration s = Inr (x, y) \<longleftrightarrow>
     (\<exists>a b c. s = a @ upMarker @ b @ downMarker @ c \<and> occurrences upMarker s = {length a} \<and>
        occurrences downMarker s = {length (a @ upMarker @ b)} \<and>
        x = TrimSpace b \<and> x \<noteq> [] \<and> y = TrimSpace c \<and> y \<noteq> [])) \<and>
   splitMigration s \<noteq> Inl (''panic: slice bounds out of range'', [])"
proof (intro conjI iffI)
  assume "splitMigration s = Inr (x, y)"
  then show "\<exists>a b c. s = a @ upMarker @ b @ downMarker @ c \<and> occurrences upMarker s = {length a} \<and>
    occurrences downMarker s = {length (a @ upMarker @ b)} \<and>
    x = TrimSpace b \<and> x \<noteq> [] \<and> y = TrimSpace c \<and> y \<noteq> []" by (rule split_sections)
next
  show "splitMigration s = Inr (x, y)" if "\<exists>a b c. s = a @ upMarker @ b @ downMarker @ c \<and>
    occurrences upMarker s = {length a} \<and> occurrences downMarker s = {length (a @ upMarker @ b)} \<and>
    x = TrimSpace b \<and> x \<noteq> [] \<and> y = TrimSpace c \<and> y \<noteq> []"
    using that split_accepts by blast
next
  show "splitMigration s \<noteq> Inl (''panic: slice bounds out of range'', [])"
  proof (cases "Index s upMarker"; cases "Index s downMarker")
    fix i j assume ij: "Index s upMarker = Some i" "Index s downMarker = Some j"
    have "\<not> j \<le> i \<Longrightarrow> \<not> j < i + length upMarker"
      using markers_apart [of i s j] Index_Some [OF _ ij(1)] Index_Some [OF _ ij(2)] markers by simp
    then show ?thesis by (simp add: splitMigration_def ij Let_def)
  qed (simp_all add: splitMigration_def)
qed

subsection \<open>Loading a directory\<close>

text \<open>What a directory is to hold: its SQL files, each read on its own.\<close>

definition sql_files :: "(string \<times> bool) list \<Rightarrow> string list" where
  "sql_files entries = map fst (filter (\<lambda>(fname, is_dir). \<not> is_dir \<and> path_Ext fname = ''.sql'') entries)"

definition loaded :: "(string \<Rightarrow> bytes) \<Rightarrow> migration_source \<Rightarrow> string \<Rightarrow> string \<Rightarrow> Migration option" where
  "loaded sum256 source directory fname =
     (case (migrationFilename fname, fs_ReadFile source (path_Join directory fname)) of
        (Some (version, name), Some content) \<Rightarrow>
          (case splitMigration content of
             Inl err \<Rightarrow> None
           | Inr (up, down) \<Rightarrow> Some \<lparr>mg_Version = version, mg_Name = name, mg_UpSQL = up, mg_DownSQL = down,
               mg_Checksum = sum256 content\<rparr>)
      | _ \<Rightarrow> None)"

lemma sql_files_simps [simp]:
  "sql_files [] = []"
  "sql_files ((fname, is_dir) # es) = (if is_dir \<or> path_Ext fname \<noteq> ''.sql'' then sql_files es else fname # sql_files es)"
  by (simp_all add: sql_files_def)

lemma load_entries_iff:
  "load_entries sum256 source directory es vs ms = Inr r \<longleftrightarrow>
    (\<exists>new. map (loaded sum256 source directory) (sql_files es) = map Some new \<and>
       distinct (map mg_Version new) \<and> set (map mg_Version new) \<inter> dom vs = {} \<and> r = ms @ new)"
proof (induction es arbitrary: vs ms)
  case (Cons e es)
  obtain fname is_dir where e: "e = (fname, is_dir)" by (cases e)
  let ?l = "loaded sum256 source directory"
  show ?case
  proof (cases "is_dir \<or> path_Ext fname \<noteq> ''.sql''")
    case True
    then show ?thesis using Cons.IH [of vs ms] by (simp add: e)
  next
    case sql: False
    show ?thesis
    proof (cases "?l fname")
      case None
      then have "\<not> (\<exists>r. load_entries sum256 source directory (e # es) vs ms = Inr r)"
        using sql by (auto simp: e loaded_def split: option.splits sum.splits prod.splits)
      then show ?thesis using None sql by (auto simp: e)
    next
      case (Some m)
      then have step: "load_entries sum256 source directory (e # es) vs ms = Inr r \<longleftrightarrow>
          vs (mg_Version m) = None \<and>
          load_entries sum256 source directory es (vs(mg_Version m \<mapsto> fname)) (ms @ [m]) = Inr r"
        using sql by (auto simp: e loaded_def split: option.splits sum.splits prod.splits)
      have "(\<exists>new. map ?l (sql_files (e # es)) = map Some new \<and> distinct (map mg_Version new) \<and>
          set (map mg_Version new) \<inter> dom vs = {} \<and> r = ms @ new) \<longleftrightarrow>
        (\<exists>new. map ?l (sql_files es) = map Some new \<and> distinct (map mg_Version (m # new)) \<and>
          set (map mg_Version (m # new)) \<inter> dom vs = {} \<and> r = ms @ m # new)"
        using sql Some by (auto simp: e Cons_eq_map_conv)
      then show ?thesis unfolding step Cons.IH by (auto simp: domIff)
    qed
  qed
qed auto

lemma sort_key_unique:
  assumes "mset xs = mset ys" and "sorted_wrt (<) (map f ys)"
  shows "sort_key f xs = ys"
proof -
  have s: "sorted (map f ys)" "distinct (map f ys)" using assms(2) strict_sorted_iff by blast+
  have m: "mset (sort_key f xs) = mset ys" using assms(1) by simp
  then have "mset (map f (sort_key f xs)) = mset (map f ys)" by (simp add: mset_map)
  then have "map f (sort_key f xs) = map f ys"
    by (intro sorted_distinct_set_unique s sorted_sort_key)
      (metis s(2) mset_eq_imp_distinct_iff mset_eq_setD)+
  moreover have "inj_on f (set (sort_key f xs) \<union> set ys)"
    using s(2) mset_eq_setD [OF m] by (simp add: distinct_map)
  ultimately show ?thesis by (rule map_inj_on)
qed

lemma loaded_name:
  assumes "loaded sum256 source directory fname = Some m"
  shows "fname = mg_Version m @ ''_'' @ mg_Name m @ ''.sql''" and "length (mg_Version m) = 14"
    and "list_all is_digit (mg_Version m)" and "mg_Name m \<noteq> []" and "list_all name_char (mg_Name m)"
    and "\<exists>content. fs_ReadFile source (path_Join directory fname) = Some content \<and>
      splitMigration content = Inr (mg_UpSQL m, mg_DownSQL m) \<and> mg_Checksum m = sum256 content"
proof -
  obtain v n content where h: "migrationFilename fname = Some (v, n)" "v = mg_Version m" "n = mg_Name m"
    "fs_ReadFile source (path_Join directory fname) = Some content"
    "splitMigration content = Inr (mg_UpSQL m, mg_DownSQL m) \<and> mg_Checksum m = sum256 content"
    using assms by (auto simp: loaded_def split: option.splits sum.splits prod.splits)
  then show "\<exists>content. fs_ReadFile source (path_Join directory fname) = Some content \<and>
      splitMigration content = Inr (mg_UpSQL m, mg_DownSQL m) \<and> mg_Checksum m = sum256 content" by blast
  let ?rest = "drop 14 fname"
  have f: "v = take 14 fname" "n = take (length ?rest - 5) (drop 1 ?rest)" "length v = 14" "list_all is_digit v"
    "HasPrefix ?rest ''_''" "HasSuffix ?rest ''.sql''" "6 \<le> length ?rest" "list_all name_char n"
    using h(1) by (auto simp: migrationFilename_def Let_def split: if_splits)
  then show "length (mg_Version m) = 14" "list_all is_digit (mg_Version m)" "list_all name_char (mg_Name m)"
    using h by simp_all
  obtain t where t: "?rest = ''_'' @ t" using f(5) HasPrefix_iff by blast
  obtain u where u: "?rest = u @ ''.sql''" using f(6) HasSuffix_iff by blast
  obtain w where w: "u = CHR ''_'' # w" using t u f(7) by (cases u) auto
  have n: "n = w" using f(2) u w by simp
  then have "fname = v @ ''_'' @ n @ ''.sql''"
    using append_take_drop_id [of 14 fname] u w f(1) by simp
  then show "fname = mg_Version m @ ''_'' @ mg_Name m @ ''.sql''" using h by simp
  show "mg_Name m \<noteq> []" using n u w f(7) h(3) by auto
qed

lemma mset_map_Some:
  assumes "mset xs = mset (map Some ys)"
  obtains zs where "xs = map Some zs" and "mset zs = mset ys"
proof
  have "x \<in> Some ` set ys" if "x \<in> set xs" for x using that mset_eq_setD [OF assms] by auto
  then show x: "xs = map Some (map the xs)" by (induction xs) fastforce+
  have "mset (map the xs) = mset (map the (map Some ys))"
    using assms by (metis mset_map)
  then show "mset (map the xs) = mset ys" by (simp add: comp_def)
qed

lemma LoadMigrations_iff:
  "LoadMigrations sum256 (Some source) directory = Inr ms \<longleftrightarrow>
    (\<exists>entries. fs_ReadDir source (if directory = [] then ''.'' else directory) = Some entries \<and> ms \<noteq> [] \<and>
      sorted_wrt (<) (map mg_Version ms) \<and>
      mset (map (loaded sum256 source (if directory = [] then ''.'' else directory)) (sql_files entries)) =
      mset (map Some ms))"
  (is "?load = Inr ms \<longleftrightarrow> (\<exists>entries. ?dir = Some entries \<and> ?holds entries)")
proof (cases ?dir)
  case (Some entries)
  let ?l = "loaded sum256 source (if directory = [] then ''.'' else directory)"
  have "?load = Inr ms \<longleftrightarrow> (\<exists>new. map ?l (sql_files entries) = map Some new \<and> distinct (map mg_Version new) \<and>
      new \<noteq> [] \<and> ms = sort_key mg_Version new)"
  proof (cases "load_entries sum256 source (if directory = [] then ''.'' else directory) entries Map.empty []")
    case (Inl e)
    then have "\<nexists>new. map ?l (sql_files entries) = map Some new \<and> distinct (map mg_Version new)"
      using load_entries_iff [of sum256 source "if directory = [] then ''.'' else directory" entries Map.empty "[]"]
      by simp
    then show ?thesis using Inl Some by (auto simp: LoadMigrations_def Let_def)
  next
    case (Inr r)
    then have "map ?l (sql_files entries) = map Some r \<and> distinct (map mg_Version r)"
      using load_entries_iff [of sum256 source "if directory = [] then ''.'' else directory" entries Map.empty "[]" r]
      by simp
    moreover from this have "new = r" if "map ?l (sql_files entries) = map Some new" for new
      using that by (simp add: inj_map_eq_map)
    ultimately show ?thesis using Inr Some by (auto simp: LoadMigrations_def Let_def)
  qed
  moreover have "(\<exists>new. map ?l (sql_files entries) = map Some new \<and> distinct (map mg_Version new) \<and>
      new \<noteq> [] \<and> ms = sort_key mg_Version new) \<longleftrightarrow> ?holds entries"
  proof (intro iffI)
    assume "\<exists>new. map ?l (sql_files entries) = map Some new \<and> distinct (map mg_Version new) \<and>
      new \<noteq> [] \<and> ms = sort_key mg_Version new"
    then obtain new where new: "map ?l (sql_files entries) = map Some new" "distinct (map mg_Version new)"
      "new \<noteq> []" "ms = sort_key mg_Version new" by blast
    have "mset ms = mset new" using new(4) by simp
    moreover from this have "distinct (map mg_Version ms)"
      using new(2) mset_eq_imp_distinct_iff [of "map mg_Version ms" "map mg_Version new"] by simp
    moreover have "ms \<noteq> []" using \<open>mset ms = mset new\<close> new(3) by auto
    ultimately show "?holds entries" using new(1,4) by (simp add: strict_sorted_iff)
  next
    assume h: "?holds entries"
    then obtain new where new: "map ?l (sql_files entries) = map Some new" "mset new = mset ms"
      by (blast elim: mset_map_Some)
    have "distinct (map mg_Version new)"
      using h mset_eq_imp_distinct_iff [of "map mg_Version ms" "map mg_Version new"] new(2)
      by (simp add: strict_sorted_iff)
    moreover have "ms = sort_key mg_Version new" using h by (intro sort_key_unique [OF new(2), symmetric]) blast
    ultimately show "\<exists>new. map ?l (sql_files entries) = map Some new \<and> distinct (map mg_Version new) \<and>
      new \<noteq> [] \<and> ms = sort_key mg_Version new" using new h by auto
  qed
  ultimately show ?thesis using Some by simp
qed (simp add: LoadMigrations_def)

lemma loaded_member:
  assumes "LoadMigrations sum256 (Some source) directory = Inr ms" and "m \<in> set ms"
  shows "\<exists>entries. fs_ReadDir source (if directory = [] then ''.'' else directory) = Some entries \<and>
    loaded sum256 source (if directory = [] then ''.'' else directory) (mg_Version m @ ''_'' @ mg_Name m @ ''.sql'') =
      Some m \<and> (mg_Version m @ ''_'' @ mg_Name m @ ''.sql'', False) \<in> set entries"
proof -
  let ?dir = "if directory = [] then ''.'' else directory"
  obtain entries where e: "fs_ReadDir source ?dir = Some entries"
    and m: "mset (map (loaded sum256 source ?dir) (sql_files entries)) = mset (map Some ms)"
    using assms(1) LoadMigrations_iff by blast
  have "Some m \<in> loaded sum256 source ?dir ` set (sql_files entries)"
    using mset_eq_setD [OF m] assms(2) by auto
  then obtain fname where f: "fname \<in> set (sql_files entries)" "loaded sum256 source ?dir fname = Some m" by auto
  have "(fname, False) \<in> set entries" using f(1) by (auto simp: sql_files_def)
  with e f(2) loaded_name(1) [OF f(2)] show ?thesis by blast
qed

text \<open>
  C33. Loading a directory of migrations succeeds exactly when it can be listed, has an SQL file,
  every SQL file is well named, readable and well formed, and no version occurs twice. The
  result is then the migrations of these files, each exactly once, in strictly increasing order of
  their versions, whatever the order of the listing; the name of a migration's file can be
  recovered from it, and its scripts and its checksum are those of the file's content.
\<close>

theorem migrations_loaded_in_order:
  "(LoadMigrations sum256 (Some source) directory = Inr ms \<longleftrightarrow>
    (\<exists>entries. fs_ReadDir source (if directory = [] then ''.'' else directory) = Some entries \<and> ms \<noteq> [] \<and>
      sorted_wrt (<) (map mg_Version ms) \<and>
      mset (map (loaded sum256 source (if directory = [] then ''.'' else directory)) (sql_files entries)) =
      mset (map Some ms))) \<and>
   (LoadMigrations sum256 (Some source) directory = Inr ms \<longrightarrow>
     (\<forall>m \<in> set ms. length (mg_Version m) = 14 \<and> list_all is_digit (mg_Version m) \<and>
       list_all name_char (mg_Name m) \<and> mg_Name m \<noteq> [] \<and>
       (\<exists>entries content.
         fs_ReadDir source (if directory = [] then ''.'' else directory) = Some entries \<and>
         (mg_Version m @ ''_'' @ mg_Name m @ ''.sql'', False) \<in> set entries \<and>
         fs_ReadFile source (path_Join (if directory = [] then ''.'' else directory)
           (mg_Version m @ ''_'' @ mg_Name m @ ''.sql'')) = Some content \<and>
         splitMigration content = Inr (mg_UpSQL m, mg_DownSQL m) \<and> mg_Checksum m = sum256 content)))"
proof (intro conjI impI ballI)
  show "LoadMigrations sum256 (Some source) directory = Inr ms \<longleftrightarrow>
    (\<exists>entries. fs_ReadDir source (if directory = [] then ''.'' else directory) = Some entries \<and> ms \<noteq> [] \<and>
      sorted_wrt (<) (map mg_Version ms) \<and>
      mset (map (loaded sum256 source (if directory = [] then ''.'' else directory)) (sql_files entries)) =
      mset (map Some ms))" by (rule LoadMigrations_iff)
next
  fix m assume load: "LoadMigrations sum256 (Some source) directory = Inr ms" and m: "m \<in> set ms"
  obtain entries where e: "fs_ReadDir source (if directory = [] then ''.'' else directory) = Some entries"
    "(mg_Version m @ ''_'' @ mg_Name m @ ''.sql'', False) \<in> set entries"
    "loaded sum256 source (if directory = [] then ''.'' else directory)
       (mg_Version m @ ''_'' @ mg_Name m @ ''.sql'') = Some m"
    using loaded_member [OF load m] by blast
  note name = loaded_name [OF e(3)]
  show "length (mg_Version m) = 14" "list_all is_digit (mg_Version m)" "list_all name_char (mg_Name m)"
    "mg_Name m \<noteq> []" by (fact name)+
  show "\<exists>entries content.
    fs_ReadDir source (if directory = [] then ''.'' else directory) = Some entries \<and>
    (mg_Version m @ ''_'' @ mg_Name m @ ''.sql'', False) \<in> set entries \<and>
    fs_ReadFile source (path_Join (if directory = [] then ''.'' else directory)
      (mg_Version m @ ''_'' @ mg_Name m @ ''.sql'')) = Some content \<and>
    splitMigration content = Inr (mg_UpSQL m, mg_DownSQL m) \<and> mg_Checksum m = sum256 content"
    using e name(6) by blast
qed

definition toy_sum :: "string \<Rightarrow> bytes" where
  "toy_sum content = replicate 32 (of_nat (length content))"

definition toy_source :: migration_source where
  "toy_source =
     \<lparr>fs_ReadDir = (\<lambda>d. if d = ''.''
        then Some [(''20260916110000_second.sql'', False), (''embed.go'', False), (''20260915170000_first.sql'', False)]
        else None),
      fs_ReadFile = [''20260915170000_first.sql'' \<mapsto> ''-- migrate:up A -- migrate:down B'',
        ''20260916110000_second.sql'' \<mapsto> ''-- migrate:up CC -- migrate:down DD '']\<rparr>"

definition toy_migrations :: "Migration list" where
  "toy_migrations =
     [\<lparr>mg_Version = ''20260915170000'', mg_Name = ''first'', mg_UpSQL = ''A'', mg_DownSQL = ''B'',
        mg_Checksum = replicate 32 33\<rparr>,
      \<lparr>mg_Version = ''20260916110000'', mg_Name = ''second'', mg_UpSQL = ''CC'', mg_DownSQL = ''DD'',
        mg_Checksum = replicate 32 36\<rparr>]"

lemma toy_loads: "LoadMigrations toy_sum (Some toy_source) [] = Inr toy_migrations"
  by code_simp

theorem migrations_loaded_in_order_witness:
  "LoadMigrations toy_sum (Some toy_source) [] = Inr toy_migrations \<and>
   sorted_wrt (<) (map mg_Version toy_migrations) \<and>
   (\<exists>content. splitMigration content = Inr (''CC'', ''DD''))"
proof -
  have "\<lparr>mg_Version = ''20260916110000'', mg_Name = ''second'', mg_UpSQL = ''CC'', mg_DownSQL = ''DD'',
      mg_Checksum = replicate 32 36\<rparr> \<in> set toy_migrations" by (simp add: toy_migrations_def)
  then show ?thesis
    using migrations_loaded_in_order [of toy_sum toy_source "[]" toy_migrations] toy_loads
    by (metis Migration.Migration.select_convs(3,4))
qed

end
