(* ===== verification/Postgres_Pool.thy ===== *)
theory Postgres_Pool
  imports Config Substrings "HOL-Library.AList"
begin

text \<open>
  Connection pools, \<open>internal/database/database.go\<close>, and the isolated schemas of the integration
  tests, \<open>internal/database/testschema.go\<close>. The state is the pools that are open and the schemas that
  exist; \<open>pgxpool.ParseConfig\<close>, the random source and the outcomes of the calls are arguments. A
  function that returns a value or an error has the problems of the error on the left.
\<close>

definition operationError :: "string \<Rightarrow> problem" where
  "operationError operation = (''postgres %s failed'', [operation])"

definition applicationName :: string where "applicationName = ''go-pdf-forge''"

definition postgresApplicationName :: "string \<Rightarrow> string" where
  "postgresApplicationName component = (if component = [] then applicationName else applicationName @ ''/'' @ component)"

text \<open>The parts of the \<open>url.URL\<close>, which its \<open>String\<close> escapes; pgx reads that string.\<close>

record connection_url =
  cu_Scheme :: string
  cu_User :: string
  cu_Password :: string
  cu_Host :: string
  cu_Path :: string
  cu_SSLMode :: string

record PoolConfig =
  pc_URL :: connection_url
  pc_ConnectTimeout :: duration
  pc_RuntimeParams :: "(string \<times> string) list"
  pc_MaxConns :: int
  pc_MinConns :: int
  pc_MaxConnLifetime :: duration
  pc_MaxConnIdleTime :: duration
  pc_HealthCheckPeriod :: duration
  pc_PingTimeout :: duration

type_synonym ParseConfig = "connection_url \<Rightarrow> PoolConfig option"

definition connection_url_of :: "Database \<Rightarrow> connection_url" where
  "connection_url_of settings =
     \<lparr>cu_Scheme = ''postgres'', cu_User = db_User settings, cu_Password = db_Password settings,
      cu_Host = JoinHostPort (db_Host settings) (FormatInt (db_Port settings)),
      cu_Path = ''/'' @ db_Name settings, cu_SSLMode = db_SSLMode settings\<rparr>"

definition buildPoolConfig :: "ParseConfig \<Rightarrow> Database \<Rightarrow> string \<Rightarrow> problem list + PoolConfig" where
  "buildPoolConfig parse settings component =
     (if Database_validate settings \<noteq> [] then Inl (Database_validate settings)
      else if db_MaxConnections settings > MaxInt32 \<or> db_MinConnections settings > MaxInt32
        then Inl [(''database connection counts exceed the pgx limit'', [])]
      else case parse (connection_url_of settings) of
        None \<Rightarrow> Inl [(''build PostgreSQL pool configuration'', [])]
      | Some poolConfig \<Rightarrow> Inr (poolConfig
          \<lparr>pc_ConnectTimeout := db_ConnectTimeout settings,
           pc_RuntimeParams := AList.update ''application_name'' (postgresApplicationName component)
             (pc_RuntimeParams poolConfig),
           pc_MaxConns := int32 (db_MaxConnections settings),
           pc_MinConns := int32 (db_MinConnections settings),
           pc_MaxConnLifetime := db_MaxConnectionAge settings,
           pc_MaxConnIdleTime := db_MaxConnectionIdle settings,
           pc_HealthCheckPeriod := db_HealthCheckPeriod settings,
           pc_PingTimeout := db_HealthTimeout settings\<rparr>))"

subsection \<open>Pools\<close>

text \<open>A pool is known by a number, given in the order of creation.\<close>

record pg_state =
  pg_open :: "(nat \<times> PoolConfig) list"
  pg_next :: nat
  pg_schemas :: "string list"

definition open_pool :: "PoolConfig \<Rightarrow> pg_state \<Rightarrow> nat \<times> pg_state" where
  "open_pool config st = (pg_next st, st\<lparr>pg_open := (pg_next st, config) # pg_open st, pg_next := Suc (pg_next st)\<rparr>)"

definition close_pool :: "nat \<Rightarrow> pg_state \<Rightarrow> pg_state" where
  "close_pool pool st = st\<lparr>pg_open := filter (\<lambda>(p, c). p \<noteq> pool) (pg_open st)\<rparr>"

definition Open :: "ParseConfig \<Rightarrow> faults \<Rightarrow> Database \<Rightarrow> string \<Rightarrow> pg_state \<Rightarrow> (problem list + nat) \<times> pg_state" where
  "Open parse flt settings component st =
     (case buildPoolConfig parse settings component of
        Inl err \<Rightarrow> (Inl err, st)
      | Inr poolConfig \<Rightarrow>
          if stmt_fails flt ''pool creation'' then (Inl [operationError ''pool creation''], st)
          else let (pool, st) = open_pool poolConfig st in
            if stmt_fails flt ''connection check''
              then (Inl [operationError ''connection check''], close_pool pool st)
            else (Inr pool, st))"

definition Ping :: "faults \<Rightarrow> nat option \<Rightarrow> duration \<Rightarrow> problem list" where
  "Ping flt target timeout =
     (if target = None then [(''postgres ping target is required'', [])]
      else if timeout \<le> 0 then [(''postgres ping timeout must be positive'', [])]
      else if stmt_fails flt ''health check'' then [operationError ''health check'']
      else [])"

definition LogValue :: "Database \<Rightarrow> (string \<times> string) list" where
  "LogValue settings =
     [(''host'', db_Host settings), (''port'', FormatInt (db_Port settings)), (''name'', db_Name settings),
      (''user'', db_User settings), (''ssl_mode'', db_SSLMode settings),
      (''max_connections'', FormatInt (db_MaxConnections settings)),
      (''min_connections'', FormatInt (db_MinConnections settings))]"

subsection \<open>Test schemas\<close>

record TestSchema =
  ts_Pool :: nat
  ts_admin :: nat
  ts_name :: string
  ts_closed :: bool

definition testSchemaRandomBytes :: nat where "testSchemaRandomBytes = 12"

text \<open>The random source returns its bytes, or fails.\<close>

definition randomTestSchemaName :: "bytes option \<Rightarrow> problem + string" where
  "randomTestSchemaName random =
     (case random of
        None \<Rightarrow> Inl (operationError ''generate isolated test schema name'')
      | Some bs \<Rightarrow> Inr (''gpf_test_'' @ hex_EncodeToString (take testSchemaRandomBytes bs)))"

text \<open>\<open>CREATE SCHEMA\<close> fails on a name that exists; \<open>DROP SCHEMA IF EXISTS\<close> does not need the schema.\<close>

definition create_schema :: "faults \<Rightarrow> string \<Rightarrow> pg_state \<Rightarrow> bool \<times> pg_state" where
  "create_schema flt name st =
     (if name \<in> set (pg_schemas st) then (False, st)
      else finish (flt ''create isolated test schema'') st (st\<lparr>pg_schemas := name # pg_schemas st\<rparr>) False True)"

definition dropTestSchema :: "faults \<Rightarrow> string \<Rightarrow> pg_state \<Rightarrow> problem list \<times> pg_state" where
  "dropTestSchema flt name st =
     finish (flt ''drop isolated test schema'') st (st\<lparr>pg_schemas := filter (\<lambda>s. s \<noteq> name) (pg_schemas st)\<rparr>)
       [operationError ''drop isolated test schema''] []"

definition OpenTestSchema ::
    "ParseConfig \<Rightarrow> faults \<Rightarrow> bytes option \<Rightarrow> Database \<Rightarrow> string \<Rightarrow> pg_state \<Rightarrow>
      (problem list + TestSchema) \<times> pg_state" where
  "OpenTestSchema parse flt random settings component st =
     (case buildPoolConfig parse settings (component @ ''/schema-admin'') of
        Inl err \<Rightarrow> (Inl err, st)
      | Inr adminConfig \<Rightarrow>
      if stmt_fails flt ''test schema admin pool creation''
        then (Inl [operationError ''test schema admin pool creation''], st)
      else let (admin, st) = open_pool adminConfig st in
      if stmt_fails flt ''test schema admin connection check''
        then (Inl [operationError ''test schema admin connection check''], close_pool admin st)
      else case randomTestSchemaName random of
        Inl err \<Rightarrow> (Inl [err], close_pool admin st)
      | Inr name \<Rightarrow>
      let (created, st) = create_schema flt name st in
      if \<not> created then (Inl [operationError ''create isolated test schema''], close_pool admin st)
      else let give_up = (\<lambda>err st. (Inl err, close_pool admin (snd (dropTestSchema flt name st)))) in
      case buildPoolConfig parse settings component of
        Inl err \<Rightarrow> give_up err st
      | Inr poolConfig \<Rightarrow>
      if stmt_fails flt ''isolated test pool creation''
        then give_up [operationError ''isolated test pool creation''] st
      else let (pool, st) = open_pool (poolConfig\<lparr>pc_RuntimeParams :=
          AList.update ''search_path'' name (pc_RuntimeParams poolConfig)\<rparr>) st in
      if stmt_fails flt ''isolated test connection check''
        then give_up [operationError ''isolated test connection check''] (close_pool pool st)
      else (Inr \<lparr>ts_Pool = pool, ts_admin = admin, ts_name = name, ts_closed = False\<rparr>, st))"

definition TestSchema_Close ::
    "faults \<Rightarrow> TestSchema option \<Rightarrow> pg_state \<Rightarrow> problem list \<times> TestSchema option \<times> pg_state" where
  "TestSchema_Close flt schema st =
     (case schema of
        None \<Rightarrow> ([], None, st)
      | Some schema \<Rightarrow>
      if ts_closed schema then ([], Some schema, st)
      else let st = close_pool (ts_Pool schema) st; (err, st) = dropTestSchema flt (ts_name schema) st in
        if err \<noteq> [] then (err, Some schema, st)
        else ([], Some (schema\<lparr>ts_closed := True\<rparr>), close_pool (ts_admin schema) st))"

subsection \<open>Nothing is left behind\<close>

definition pools_numbered :: "pg_state \<Rightarrow> bool" where
  "pools_numbered st \<longleftrightarrow> (\<forall>(p, c) \<in> set (pg_open st). p < pg_next st)"

lemma open_pool_simps [simp]:
  "fst (open_pool c st) = pg_next st" "pg_schemas (snd (open_pool c st)) = pg_schemas st"
  "pg_next (snd (open_pool c st)) = Suc (pg_next st)" "pg_open (snd (open_pool c st)) = (pg_next st, c) # pg_open st"
  by (simp_all add: open_pool_def)

lemma close_pool_simps [simp]:
  "pg_schemas (close_pool p st) = pg_schemas st" "pg_next (close_pool p st) = pg_next st"
  "pg_open (close_pool p st) = filter (\<lambda>(q, c). q \<noteq> p) (pg_open st)"
  by (simp_all add: close_pool_def)

lemma numbered_filter: "pools_numbered st \<Longrightarrow> pg_next st \<le> p \<Longrightarrow> filter (\<lambda>(q, c). q \<noteq> p) (pg_open st) = pg_open st"
  by (auto simp: pools_numbered_def intro!: filter_True)

text \<open>Opening a pool leaves none open when it fails, and otherwise one more.\<close>

lemma Open_pools:
  assumes "pools_numbered st" and "Open parse flt settings component st = (r, st')"
  shows "case r of Inl err \<Rightarrow> pg_open st' = pg_open st \<and> err \<noteq> []
    | Inr pool \<Rightarrow> (\<exists>config. buildPoolConfig parse settings component = Inr config \<and> pg_open st' = (pool, config) # pg_open st)"
  using assms numbered_filter [OF assms(1), of "pg_next st"]
  by (auto simp: Open_def buildPoolConfig_def open_pool_def close_pool_def split: if_splits option.splits prod.splits)

lemma create_schema_pools: "pg_open (snd (create_schema flt name st)) = pg_open st"
  "pg_next (snd (create_schema flt name st)) = pg_next st"
  by (auto simp: create_schema_def finish_def split: dbcall.splits)

lemma drop_schema_pools: "pg_open (snd (dropTestSchema flt name st)) = pg_open st"
  "pg_next (snd (dropTestSchema flt name st)) = pg_next st"
  by (auto simp: dropTestSchema_def finish_def split: dbcall.splits)

text \<open>
  A test schema that cannot be opened leaves no pool behind, and no schema either unless the
  calls that create and drop it are not answered; one that is opened is gone, with both its
  pools, after \<open>Close\<close>, and closing it again does nothing.
\<close>

lemma created_schema:
  assumes "create_schema flt name st = (True, st1)"
  shows "pg_schemas st1 = name # pg_schemas st" and "name \<notin> set (pg_schemas st)" and "pg_open st1 = pg_open st"
    and "pg_next st1 = pg_next st"
  using assms by (auto simp: create_schema_def finish_def split: if_splits dbcall.splits)

lemma drop_answered:
  "flt ''drop isolated test schema'' = Call_Ok \<Longrightarrow>
    dropTestSchema flt name st = ([], st\<lparr>pg_schemas := filter (\<lambda>s. s \<noteq> name) (pg_schemas st)\<rparr>)"
  by (simp add: dropTestSchema_def)

lemma not_created:
  "create_schema flt name st = (False, st1) \<Longrightarrow> flt ''create isolated test schema'' = Call_Ok \<Longrightarrow> st1 = st"
  by (auto simp: create_schema_def split: if_splits)

lemma OpenTestSchema_failure:
  assumes n: "pools_numbered st" and open_err: "OpenTestSchema parse flt random settings component st = (Inl err, st')"
  shows "pg_open st' = pg_open st"
    and "flt ''create isolated test schema'' = Call_Ok \<Longrightarrow> flt ''drop isolated test schema'' = Call_Ok \<Longrightarrow>
      pg_schemas st' = pg_schemas st"
proof -
  have f: "filter (\<lambda>(q, c). q \<noteq> p) (pg_open st) = pg_open st" if "pg_next st \<le> p" for p
    by (rule numbered_filter [OF n that])
  show "pg_open st' = pg_open st"
    using open_err f [of "pg_next st"] f [of "Suc (pg_next st)"]
    by (auto simp: OpenTestSchema_def Let_def case_prod_unfold create_schema_pools drop_schema_pools
        split: sum.splits if_splits)
  assume c: "flt ''create isolated test schema'' = Call_Ok" and d: "flt ''drop isolated test schema'' = Call_Ok"
  have s: "filter (\<lambda>s. s \<noteq> name) (pg_schemas (snd (create_schema flt name st1))) = pg_schemas st1"
    if "fst (create_schema flt name st1)" for name st1
    using created_schema [of flt name st1 "snd (create_schema flt name st1)"] that
    by (auto simp: prod_eq_iff intro: filter_True)
  have s': "pg_schemas (snd (create_schema flt name st1)) = pg_schemas st1"
    if "\<not> fst (create_schema flt name st1)" for name st1
    using not_created [of flt name st1 "snd (create_schema flt name st1)"] that c by (auto simp: prod_eq_iff)
  show "pg_schemas st' = pg_schemas st"
    using open_err s s' by (auto simp: OpenTestSchema_def Let_def case_prod_unfold drop_answered d
        split: sum.splits if_splits)
qed

lemma OpenTestSchema_success:
  assumes n: "pools_numbered st" and ok: "OpenTestSchema parse flt random settings component st = (Inr s, st')"
  shows "\<exists>st''. TestSchema_Close (\<lambda>_. Call_Ok) (Some s) st' = ([], Some (s\<lparr>ts_closed := True\<rparr>), st'') \<and>
    pg_open st'' = pg_open st \<and> pg_schemas st'' = pg_schemas st \<and>
    TestSchema_Close flt' (Some (s\<lparr>ts_closed := True\<rparr>)) st'' = ([], Some (s\<lparr>ts_closed := True\<rparr>), st'')"
proof -
  have f: "filter (\<lambda>(q, c). q \<noteq> p) (pg_open st) = pg_open st" if "pg_next st \<le> p" for p
    by (rule numbered_filter [OF n that])
  obtain name st1 c1 c2 where created: "create_schema flt name (snd (open_pool c1 st)) = (True, st1)"
    and s: "s = \<lparr>ts_Pool = pg_next st1, ts_admin = pg_next st, ts_name = name, ts_closed = False\<rparr>"
    and st': "st' = snd (open_pool c2 st1)"
    using ok by (auto simp: OpenTestSchema_def Let_def case_prod_unfold prod_eq_iff split: sum.splits if_splits)
  note c = created_schema [OF created]
  show ?thesis
    using f [of "pg_next st"] f [of "Suc (pg_next st)"] c(2)
    by (auto simp: TestSchema_Close_def s st' c drop_answered open_pool_def close_pool_def intro!: filter_True)
qed

end
