(* ===== verification/Migrate_Up.thy ===== *)
theory Migrate_Up
  imports Migration Postgres_Pool
begin

text \<open>
  Applying and reverting the migrations, \<open>internal/database/migrate.go\<close>: \<open>Up\<close> and \<open>DownAll\<close> with the
  validation of the history. The database is the ledger table \<open>schema_migration\<close>, which may not exist,
  and everything else, on which a script acts by the argument \<open>exec\<close>; a script that fails, like
  any failing call, aborts the transaction. The advisory lock makes a call one atomic step. A
  table is a list in no particular order, and the \<open>range\<close> over the map of applied migrations
  visits its entries in the order of that list, so that any order is covered.
\<close>

record appliedMigration =
  am_name :: string
  am_checksum :: bytes

record ledger_row =
  sm_version :: string
  sm_name :: string
  sm_checksum :: bytes
  sm_applied_at :: instant

record 's migration_db =
  schema_migration :: "ledger_row list option"
  objects :: 's

type_synonym 's exec = "string \<Rightarrow> 's \<Rightarrow> 's option"

definition create_ledger :: "'s migration_db \<Rightarrow> 's migration_db" where
  "create_ledger tx = (case schema_migration tx of None \<Rightarrow> tx\<lparr>schema_migration := Some []\<rparr> | Some rows \<Rightarrow> tx)"

definition readAppliedMigrations ::
    "faults \<Rightarrow> 's migration_db \<Rightarrow> problem + (string \<times> appliedMigration) list" where
  "readAppliedMigrations flt tx =
     (case schema_migration tx of
        None \<Rightarrow> Inl (operationError ''read migration ledger'')
      | Some rows \<Rightarrow>
          if stmt_fails flt ''read migration ledger'' then Inl (operationError ''read migration ledger'')
          else if rows \<noteq> [] \<and> stmt_fails flt ''scan migration ledger''
            then Inl (operationError ''scan migration ledger'')
          else if stmt_fails flt ''iterate migration ledger'' then Inl (operationError ''iterate migration ledger'')
          else Inr (map (\<lambda>r. (sm_version r, \<lparr>am_name = sm_name r, am_checksum = sm_checksum r\<rparr>)) rows))"

subsection \<open>The immutable history\<close>

definition known_migrations :: "Migration list \<Rightarrow> string \<rightharpoonup> Migration" where
  "known_migrations migrations =
     foldl (\<lambda>known migration. known(mg_Version migration \<mapsto> migration)) Map.empty migrations"

fun check_records ::
    "(string \<rightharpoonup> Migration) \<Rightarrow> (string \<times> appliedMigration) list \<Rightarrow> problem option" where
  "check_records known [] = None"
| "check_records known ((version, record) # applied) =
     (case known version of
        None \<Rightarrow> Some (''database contains migration %s unknown to this binary'', [version])
      | Some migration \<Rightarrow>
          if am_name record \<noteq> mg_Name migration \<or> am_checksum record \<noteq> mg_Checksum migration
            then Some (''migration %s differs from the applied immutable history'', [version])
          else check_records known applied)"

fun check_gap :: "(string \<times> appliedMigration) list \<Rightarrow> string \<Rightarrow> Migration list \<Rightarrow> problem option" where
  "check_gap applied missing [] = None"
| "check_gap applied missing (migration # migrations) =
     (let isApplied = (map_of applied (mg_Version migration) \<noteq> None) in
      if \<not> isApplied \<and> missing = [] then check_gap applied (mg_Version migration) migrations
      else if isApplied \<and> missing \<noteq> []
        then Some (''migration history has applied version %s after missing version %s'',
          [mg_Version migration, missing])
      else check_gap applied missing migrations)"

definition validateAppliedMigrationHistory ::
    "Migration list \<Rightarrow> (string \<times> appliedMigration) list \<Rightarrow> problem option" where
  "validateAppliedMigrationHistory migrations applied =
     (case check_records (known_migrations migrations) applied of
        Some err \<Rightarrow> Some err
      | None \<Rightarrow> check_gap applied [] migrations)"

subsection \<open>Up\<close>

definition record_migration ::
    "instant \<Rightarrow> Migration \<Rightarrow> 's migration_db \<Rightarrow> 's migration_db option" where
  "record_migration now migration tx =
     (case schema_migration tx of
        None \<Rightarrow> None
      | Some rows \<Rightarrow>
          if list_ex (\<lambda>r. sm_version r = mg_Version migration) rows \<or> length (mg_Checksum migration) \<noteq> 32
            then None
          else Some (tx\<lparr>schema_migration := Some (rows @
            [\<lparr>sm_version = mg_Version migration, sm_name = mg_Name migration,
              sm_checksum = mg_Checksum migration, sm_applied_at = pg_time now\<rparr>])\<rparr>))"

text \<open>The loop over the migrations: the ones applied so far, and the transaction or the error.\<close>

fun apply_pending ::
    "'s exec \<Rightarrow> faults \<Rightarrow> instant \<Rightarrow> (string \<times> appliedMigration) list \<Rightarrow> Migration list \<Rightarrow> Migration list \<Rightarrow>
      's migration_db \<Rightarrow> Migration list \<times> (problem + 's migration_db)" where
  "apply_pending exec flt now applied [] result tx = (result, Inr tx)"
| "apply_pending exec flt now applied (migration # migrations) result tx =
     (if map_of applied (mg_Version migration) \<noteq> None
        then apply_pending exec flt now applied migrations result tx
      else if stmt_fails flt (''apply migration '' @ mg_Version migration)
        then (result, Inl (operationError (''apply migration '' @ mg_Version migration)))
      else case exec (mg_UpSQL migration) (objects tx) of
        None \<Rightarrow> (result, Inl (operationError (''apply migration '' @ mg_Version migration)))
      | Some objs \<Rightarrow>
      (case (if stmt_fails flt (''record migration '' @ mg_Version migration) then None
             else record_migration now migration (tx\<lparr>objects := objs\<rparr>)) of
        None \<Rightarrow> (result, Inl (operationError (''record migration '' @ mg_Version migration)))
      | Some tx' \<Rightarrow> apply_pending exec flt now applied migrations (result @ [migration]) tx'))"

definition Up ::
    "'s exec \<Rightarrow> faults \<Rightarrow> instant \<Rightarrow> Migrator \<Rightarrow> 's migration_db option \<Rightarrow>
      (Migration list \<times> problem option) \<times> 's migration_db option" where
  "Up exec flt now migrator db =
     (case db of
        None \<Rightarrow> (([], Some (''migration database is required'', [])), None)
      | Some d \<Rightarrow>
      if stmt_fails flt ''begin migration transaction''
        then (([], Some (operationError ''begin migration transaction'')), Some d)
      else if stmt_fails flt ''acquire migration lock''
        then (([], Some (operationError ''acquire migration lock'')), Some d)
      else if stmt_fails flt ''create migration ledger''
        then (([], Some (operationError ''create migration ledger'')), Some d)
      else (case readAppliedMigrations flt (create_ledger d) of
        Inl err \<Rightarrow> (([], Some err), Some d)
      | Inr applied \<Rightarrow>
      (case validateAppliedMigrationHistory (mr_migrations migrator) applied of
        Some err \<Rightarrow> (([], Some err), Some d)
      | None \<Rightarrow>
      (case apply_pending exec flt now applied (mr_migrations migrator) [] (create_ledger d) of
        (result, Inl err) \<Rightarrow> ((result, Some err), Some d)
      | (result, Inr tx) \<Rightarrow>
          finish (flt ''commit migrations'') (Some d) (Some tx)
            ([], Some (operationError ''commit migrations'')) (result, None)))))"

subsection \<open>DownAll\<close>

definition remove_record :: "Migration \<Rightarrow> 's migration_db \<Rightarrow> 's migration_db" where
  "remove_record migration tx =
     tx\<lparr>schema_migration := map_option (filter (\<lambda>r. sm_version r \<noteq> mg_Version migration)) (schema_migration tx)\<rparr>"

fun revert_applied ::
    "'s exec \<Rightarrow> faults \<Rightarrow> (string \<times> appliedMigration) list \<Rightarrow> Migration list \<Rightarrow> Migration list \<Rightarrow>
      's migration_db \<Rightarrow> Migration list \<times> (problem + 's migration_db)" where
  "revert_applied exec flt applied [] result tx = (result, Inr tx)"
| "revert_applied exec flt applied (migration # migrations) result tx =
     (if map_of applied (mg_Version migration) = None
        then revert_applied exec flt applied migrations result tx
      else if stmt_fails flt (''revert migration '' @ mg_Version migration)
        then (result, Inl (operationError (''revert migration '' @ mg_Version migration)))
      else case exec (mg_DownSQL migration) (objects tx) of
        None \<Rightarrow> (result, Inl (operationError (''revert migration '' @ mg_Version migration)))
      | Some objs \<Rightarrow>
      if stmt_fails flt (''remove migration record '' @ mg_Version migration)
        then (result, Inl (operationError (''remove migration record '' @ mg_Version migration)))
      else revert_applied exec flt applied migrations (result @ [migration])
        (remove_record migration (tx\<lparr>objects := objs\<rparr>)))"

definition DownAll ::
    "'s exec \<Rightarrow> faults \<Rightarrow> Migrator \<Rightarrow> 's migration_db option \<Rightarrow>
      (Migration list \<times> problem option) \<times> 's migration_db option" where
  "DownAll exec flt migrator db =
     (case db of
        None \<Rightarrow> (([], Some (''migration database is required'', [])), None)
      | Some d \<Rightarrow>
      if stmt_fails flt ''begin migration rollback transaction''
        then (([], Some (operationError ''begin migration rollback transaction'')), Some d)
      else if stmt_fails flt ''acquire migration rollback lock''
        then (([], Some (operationError ''acquire migration rollback lock'')), Some d)
      else (case readAppliedMigrations flt d of
        Inl err \<Rightarrow> (([], Some err), Some d)
      | Inr applied \<Rightarrow>
      (case validateAppliedMigrationHistory (mr_migrations migrator) applied of
        Some err \<Rightarrow> (([], Some err), Some d)
      | None \<Rightarrow>
      (case revert_applied exec flt applied (rev (mr_migrations migrator)) [] d of
        (result, Inl err) \<Rightarrow> ((result, Some err), Some d)
      | (result, Inr tx) \<Rightarrow>
          if stmt_fails flt ''remove migration ledger''
            then ((result, Some (operationError ''remove migration ledger'')), Some d)
          else finish (flt ''commit migration rollback'') (Some d) (Some (tx\<lparr>schema_migration := None\<rparr>))
            ([], Some (operationError ''commit migration rollback'')) (result, None)))))"

subsection \<open>A history is a prefix of the migrations\<close>

definition ledger_rows :: "'s migration_db \<Rightarrow> ledger_row list" where
  "ledger_rows d = (case schema_migration d of None \<Rightarrow> [] | Some rows \<Rightarrow> rows)"

definition ledger_key :: "ledger_row \<Rightarrow> string \<times> string \<times> bytes" where
  "ledger_key r = (sm_version r, sm_name r, sm_checksum r)"

definition migration_key :: "Migration \<Rightarrow> string \<times> string \<times> bytes" where
  "migration_key m = (mg_Version m, mg_Name m, mg_Checksum m)"

text \<open>The database has exactly the first \<open>k\<close> migrations.\<close>

definition has_applied :: "Migration list \<Rightarrow> nat \<Rightarrow> 's migration_db \<Rightarrow> bool" where
  "has_applied ms k d \<longleftrightarrow> k \<le> length ms \<and>
     mset (map ledger_key (ledger_rows d)) = mset (map migration_key (take k ms))"

definition well_versioned :: "Migration list \<Rightarrow> bool" where
  "well_versioned ms \<longleftrightarrow> distinct (map mg_Version ms) \<and>
     list_all (\<lambda>m. mg_Version m \<noteq> [] \<and> length (mg_Checksum m) = 32) ms"

abbreviation applied_of :: "ledger_row list \<Rightarrow> (string \<times> appliedMigration) list" where
  "applied_of \<equiv> map (\<lambda>r. (sm_version r, \<lparr>am_name = sm_name r, am_checksum = sm_checksum r\<rparr>))"

lemma known_iff:
  "distinct (map mg_Version ms) \<Longrightarrow> known_migrations ms v = Some m \<longleftrightarrow> m \<in> set ms \<and> mg_Version m = v"
  by (induction ms rule: rev_induct) (auto simp: known_migrations_def intro: rev_image_eqI)

lemma check_records_None_iff:
  "check_records known applied = None \<longleftrightarrow>
    (\<forall>(v, r) \<in> set applied. \<exists>m. known v = Some m \<and> am_name r = mg_Name m \<and> am_checksum r = mg_Checksum m)"
  by (induction known applied rule: check_records.induct) (auto split: option.splits)

lemma check_gap_missing:
  "missing \<noteq> [] \<Longrightarrow> check_gap applied missing ms = None \<longleftrightarrow>
    (\<forall>m \<in> set ms. map_of applied (mg_Version m) = None)"
  by (induction ms) (auto simp: Let_def)

lemma check_gap_None_iff:
  assumes "list_all (\<lambda>m. mg_Version m \<noteq> []) ms"
  shows "check_gap applied [] ms = None \<longleftrightarrow> (\<exists>k \<le> length ms.
    (\<forall>m \<in> set (take k ms). map_of applied (mg_Version m) \<noteq> None) \<and>
    (\<forall>m \<in> set (drop k ms). map_of applied (mg_Version m) = None))"
  using assms
proof (induction ms)
  case (Cons m ms)
  show ?case
  proof (cases "map_of applied (mg_Version m)")
    case None
    then have "check_gap applied [] (m # ms) = None \<longleftrightarrow> (\<forall>m \<in> set ms. map_of applied (mg_Version m) = None)"
      using Cons.prems by (simp add: check_gap_missing)
    also have "\<dots> \<longleftrightarrow> (\<exists>k \<le> length (m # ms).
      (\<forall>m \<in> set (take k (m # ms)). map_of applied (mg_Version m) \<noteq> None) \<and>
      (\<forall>m \<in> set (drop k (m # ms)). map_of applied (mg_Version m) = None))" (is "?none \<longleftrightarrow> (\<exists>k \<le> _. ?split k)")
    proof (intro iffI)
      show "\<exists>k \<le> length (m # ms). ?split k" if ?none using that None by (intro exI [of _ 0]) simp
      show ?none if "\<exists>k \<le> length (m # ms). ?split k"
      proof -
        obtain k where k: "?split k" using \<open>\<exists>k \<le> length (m # ms). ?split k\<close> by blast
        then have "k = 0" using None by (cases k) auto
        then show ?none using k by simp
      qed
    qed
    finally show ?thesis .
  next
    case (Some r)
    then have "check_gap applied [] (m # ms) = check_gap applied [] ms" by simp
    moreover have "(\<exists>k \<le> length (m # ms).
      (\<forall>m \<in> set (take k (m # ms)). map_of applied (mg_Version m) \<noteq> None) \<and>
      (\<forall>m \<in> set (drop k (m # ms)). map_of applied (mg_Version m) = None)) \<longleftrightarrow>
      (\<exists>k \<le> length ms. (\<forall>m \<in> set (take k ms). map_of applied (mg_Version m) \<noteq> None) \<and>
      (\<forall>m \<in> set (drop k ms). map_of applied (mg_Version m) = None))" (is "(\<exists>k \<le> _. ?P k) \<longleftrightarrow> (\<exists>k \<le> _. ?Q k)")
    proof (intro iffI)
      assume "\<exists>k \<le> length (m # ms). ?P k"
      then obtain k where k: "k \<le> length (m # ms)" "?P k" by blast
      then obtain n where "k = Suc n" using Some by (cases k) auto
      then show "\<exists>k \<le> length ms. ?Q k" using k by (intro exI [of _ n]) simp
    next
      assume "\<exists>k \<le> length ms. ?Q k"
      then obtain k where "k \<le> length ms" "?Q k" by blast
      then show "\<exists>k \<le> length (m # ms). ?P k" using Some by (intro exI [of _ "Suc k"]) simp
    qed
    ultimately show ?thesis using Cons by simp
  qed
qed simp

lemma map_of_applied_of: "map_of (applied_of rows) v = None \<longleftrightarrow> v \<notin> sm_version ` set rows"
  by (simp add: map_of_eq_None_iff image_image)

lemma versions_of_keys:
  "sm_version ` set rows = fst ` (ledger_key ` set rows)"
  "mg_Version ` A = fst ` (migration_key ` A)"
  by (simp_all add: image_image ledger_key_def migration_key_def)

lemma applied_prefix:
  assumes v: "distinct (map mg_Version ms)" and sub: "ledger_key ` set rows \<subseteq> migration_key ` set ms"
    and k: "\<forall>m \<in> set (take k ms). mg_Version m \<in> sm_version ` set rows"
    "\<forall>m \<in> set (drop k ms). mg_Version m \<notin> sm_version ` set rows"
  shows "ledger_key ` set rows = migration_key ` set (take k ms)"
proof (intro equalityI subsetI)
  fix x assume x: "x \<in> ledger_key ` set rows"
  then obtain m where m: "m \<in> set ms" "x = migration_key m" using sub by blast
  have "mg_Version m \<in> sm_version ` set rows"
    using imageI [OF x, of fst] unfolding versions_of_keys(1) m(2) by (simp add: migration_key_def)
  then have "m \<notin> set (drop k ms)" using k(2) by blast
  then show "x \<in> migration_key ` set (take k ms)"
    using m append_take_drop_id [of k ms] by (metis Un_iff imageI set_append)
next
  have inj: "inj_on mg_Version (set ms)" using v by (simp add: distinct_map)
  fix x assume "x \<in> migration_key ` set (take k ms)"
  then obtain m where m: "m \<in> set (take k ms)" "x = migration_key m" by blast
  then obtain r where r: "r \<in> set rows" "sm_version r = mg_Version m" using k(1) by force
  then obtain m' where m': "m' \<in> set ms" "ledger_key r = migration_key m'" using sub by blast
  then have "mg_Version m' = mg_Version m" using r(2) by (simp add: ledger_key_def migration_key_def)
  then have "m' = m" using inj m'(1) m(1) in_set_takeD by (metis inj_onD)
  then show "x \<in> ledger_key ` set rows" using r(1) m'(2) m(2) by (metis imageI)
qed

lemma history_iff:
  assumes ms: "well_versioned ms" and keys: "distinct (map sm_version rows)"
  shows "validateAppliedMigrationHistory ms (applied_of rows) = None \<longleftrightarrow>
    (\<exists>k \<le> length ms. mset (map ledger_key rows) = mset (map migration_key (take k ms)))"
proof -
  have v: "distinct (map mg_Version ms)" "list_all (\<lambda>m. mg_Version m \<noteq> []) ms"
    using ms by (auto simp: well_versioned_def list_all_iff)
  have d: "distinct (map ledger_key rows)" "distinct (map migration_key (take k ms))" for k
  proof -
    have "map sm_version rows = map fst (map ledger_key rows)" by (simp add: ledger_key_def)
    then show "distinct (map ledger_key rows)" using keys by (metis distinct_map)
    have "map mg_Version (take k ms) = map fst (map migration_key (take k ms))" by (simp add: migration_key_def)
    moreover have "distinct (map mg_Version (take k ms))" using v(1) by (simp add: take_map [symmetric])
    ultimately show "distinct (map migration_key (take k ms))" by (metis distinct_map)
  qed
  have "mset (map ledger_key rows) = mset (map migration_key (take k ms)) \<longleftrightarrow>
    ledger_key ` set rows = migration_key ` set (take k ms)" for k
    using set_eq_iff_mset_eq_distinct [OF d(1) d(2) [of k]] by simp
  then have R: "?thesis \<longleftrightarrow> (check_records (known_migrations ms) (applied_of rows) = None \<and>
      check_gap (applied_of rows) [] ms = None \<longleftrightarrow>
    (\<exists>k \<le> length ms. ledger_key ` set rows = migration_key ` set (take k ms)))"
    by (simp add: validateAppliedMigrationHistory_def split: option.split)
  have C: "check_records (known_migrations ms) (applied_of rows) = None \<longleftrightarrow>
      ledger_key ` set rows \<subseteq> migration_key ` set ms"
    unfolding check_records_None_iff
    by (force simp: known_iff [OF v(1)] ledger_key_def migration_key_def)
  show ?thesis unfolding R
  proof (intro iffI)
    assume h: "check_records (known_migrations ms) (applied_of rows) = None \<and> check_gap (applied_of rows) [] ms = None"
    then obtain k where k: "k \<le> length ms" "\<forall>m \<in> set (take k ms). mg_Version m \<in> sm_version ` set rows"
      "\<forall>m \<in> set (drop k ms). mg_Version m \<notin> sm_version ` set rows"
      unfolding check_gap_None_iff [OF v(2)] map_of_applied_of by blast
    have sub: "ledger_key ` set rows \<subseteq> migration_key ` set ms" using h C by blast
    have "ledger_key ` set rows = migration_key ` set (take k ms)" by (rule applied_prefix [OF v(1) sub k(2,3)])
    then show "\<exists>k \<le> length ms. ledger_key ` set rows = migration_key ` set (take k ms)" using k(1) by blast
  next
    assume "\<exists>k \<le> length ms. ledger_key ` set rows = migration_key ` set (take k ms)"
    then obtain k where k: "k \<le> length ms" "ledger_key ` set rows = migration_key ` set (take k ms)" by blast
    have "sm_version ` set rows = mg_Version ` set (take k ms)" unfolding versions_of_keys k(2) ..
    moreover have "mg_Version m \<notin> mg_Version ` set (take k ms)" if "m \<in> set (drop k ms)" for m
      using that v(1) append_take_drop_id [of k ms] by (metis disjoint_iff distinct_append image_eqI list.set_map map_append)
    ultimately have "check_gap (applied_of rows) [] ms = None"
      unfolding check_gap_None_iff [OF v(2)] map_of_applied_of using k(1) by auto
    moreover have "check_records (known_migrations ms) (applied_of rows) = None"
      unfolding C k(2) using set_take_subset by (intro image_mono)
    ultimately show "check_records (known_migrations ms) (applied_of rows) = None \<and>
      check_gap (applied_of rows) [] ms = None" by blast
  qed
qed

subsection \<open>The loops run the scripts in order\<close>

fun run_scripts :: "'s exec \<Rightarrow> string list \<Rightarrow> 's \<Rightarrow> 's option" where
  "run_scripts exec [] s = Some s"
| "run_scripts exec (q # qs) s = (case exec q s of None \<Rightarrow> None | Some s' \<Rightarrow> run_scripts exec qs s')"

lemma run_scripts_append:
  "run_scripts exec (ps @ qs) s = Option.bind (run_scripts exec ps s) (run_scripts exec qs)"
  by (induction ps arbitrary: s) (auto split: option.splits)

text \<open>The ledger row that records a migration.\<close>

definition row_of :: "instant \<Rightarrow> Migration \<Rightarrow> ledger_row" where
  "row_of now m = \<lparr>sm_version = mg_Version m, sm_name = mg_Name m, sm_checksum = mg_Checksum m,
     sm_applied_at = pg_time now\<rparr>"

lemma row_of_simps [simp]: "sm_version (row_of now m) = mg_Version m" "ledger_key (row_of now m) = migration_key m"
  by (simp_all add: row_of_def ledger_key_def migration_key_def)

lemma apply_pending_skips:
  "\<forall>m \<in> set xs. map_of applied (mg_Version m) \<noteq> None \<Longrightarrow>
    apply_pending exec flt now applied (xs @ ys) r tx = apply_pending exec flt now applied ys r tx"
  by (induction xs) auto

lemma record_migration_new:
  "mg_Version m \<notin> sm_version ` set rows \<Longrightarrow> length (mg_Checksum m) = 32 \<Longrightarrow> schema_migration tx = Some rows \<Longrightarrow>
    record_migration now m tx = Some (tx\<lparr>schema_migration := Some (rows @ [row_of now m])\<rparr>)"
  by (force simp: record_migration_def row_of_def list_ex_iff)

lemma apply_pending_iff:
  assumes "\<forall>m \<in> set ys. map_of applied (mg_Version m) = None" and "distinct (map mg_Version ys)"
    and "\<forall>m \<in> set ys. mg_Version m \<notin> sm_version ` set rows \<and> length (mg_Checksum m) = 32"
    and "schema_migration tx = Some rows"
  shows "apply_pending exec flt now applied ys r tx = (r', Inr tx') \<longleftrightarrow>
    (\<forall>m \<in> set ys. flt (''apply migration '' @ mg_Version m) = Call_Ok \<and>
      flt (''record migration '' @ mg_Version m) = Call_Ok) \<and> r' = r @ ys \<and>
    (\<exists>s. run_scripts exec (map mg_UpSQL ys) (objects tx) = Some s \<and>
      tx' = \<lparr>schema_migration = Some (rows @ map (row_of now) ys), objects = s\<rparr>)"
  using assms
proof (induction ys arbitrary: r tx rows)
  case Nil
  then show ?case by (cases tx) auto
next
  case (Cons m ys)
  show ?case
  proof (cases "exec (mg_UpSQL m) (objects tx)")
    case None
    then show ?thesis using Cons.prems(1) by simp
  next
    case (Some objs)
    let ?tx = "tx\<lparr>objects := objs, schema_migration := Some (rows @ [row_of now m])\<rparr>"
    have rec: "record_migration now m (tx\<lparr>objects := objs\<rparr>) = Some ?tx"
      using Cons.prems by (subst record_migration_new [of _ rows]) (simp_all)
    have IH: "apply_pending exec flt now applied ys (r @ [m]) ?tx = (r', Inr tx') \<longleftrightarrow>
      (\<forall>m \<in> set ys. flt (''apply migration '' @ mg_Version m) = Call_Ok \<and>
        flt (''record migration '' @ mg_Version m) = Call_Ok) \<and> r' = (r @ [m]) @ ys \<and>
      (\<exists>s. run_scripts exec (map mg_UpSQL ys) (objects ?tx) = Some s \<and>
        tx' = \<lparr>schema_migration = Some ((rows @ [row_of now m]) @ map (row_of now) ys), objects = s\<rparr>)"
      using Cons.prems by (intro Cons.IH) (simp_all add: image_iff, metis)
    show ?thesis using Some rec IH Cons.prems(1) by auto
  qed
qed

lemma has_applied_parts:
  assumes "well_versioned ms" and "has_applied ms k d"
  shows "\<forall>m \<in> set (take k ms). mg_Version m \<in> sm_version ` set (ledger_rows d)"
    and "\<forall>m \<in> set (drop k ms). mg_Version m \<notin> sm_version ` set (ledger_rows d)"
    and "distinct (map mg_Version (drop k ms))" and "\<forall>m \<in> set (drop k ms). length (mg_Checksum m) = 32"
proof -
  have "set (map ledger_key (ledger_rows d)) = set (map migration_key (take k ms))"
    using assms(2) mset_eq_setD unfolding has_applied_def by blast
  then have e: "ledger_key ` set (ledger_rows d) = migration_key ` set (take k ms)" by simp
  have v: "sm_version ` set (ledger_rows d) = mg_Version ` set (take k ms)"
    unfolding versions_of_keys e ..
  then show "\<forall>m \<in> set (take k ms). mg_Version m \<in> sm_version ` set (ledger_rows d)" by simp
  have d: "distinct (map mg_Version (take k ms) @ map mg_Version (drop k ms))"
    using assms(1) by (simp add: well_versioned_def flip: map_append)
  then show "distinct (map mg_Version (drop k ms))" by simp
  show "\<forall>m \<in> set (drop k ms). mg_Version m \<notin> sm_version ` set (ledger_rows d)"
    unfolding v using d by auto
  show "\<forall>m \<in> set (drop k ms). length (mg_Checksum m) = 32"
    using assms(1) by (auto simp: well_versioned_def list_all_iff dest: in_set_dropD)
qed

subsection \<open>The outcome of Up\<close>

definition migrated :: "'s exec \<Rightarrow> instant \<Rightarrow> Migration list \<Rightarrow> nat \<Rightarrow> 's migration_db \<Rightarrow> 's migration_db \<Rightarrow> bool" where
  "migrated exec now ms k d d' \<longleftrightarrow> has_applied ms k d \<and>
     (\<exists>s. run_scripts exec (map mg_UpSQL (drop k ms)) (objects d) = Some s \<and>
       d' = \<lparr>schema_migration = Some (ledger_rows d @ map (row_of now) (drop k ms)), objects = s\<rparr>)"

lemma create_ledger_simps [simp]:
  "schema_migration (create_ledger d) = Some (ledger_rows d)" "objects (create_ledger d) = objects d"
  by (simp_all add: create_ledger_def ledger_rows_def split: option.splits)

lemma readAppliedMigrations_cases:
  assumes "schema_migration tx = Some rows"
  shows "(\<exists>e. readAppliedMigrations flt tx = Inl e) \<or> readAppliedMigrations flt tx = Inr (applied_of rows)"
    and "(\<forall>op. flt op = Call_Ok) \<Longrightarrow> readAppliedMigrations flt tx = Inr (applied_of rows)"
  using assms by (auto simp: readAppliedMigrations_def)

lemma history_applied:
  assumes "well_versioned ms" and "distinct (map sm_version (ledger_rows d))"
  shows "validateAppliedMigrationHistory ms (applied_of (ledger_rows d)) = None \<longleftrightarrow> (\<exists>k. has_applied ms k d)"
  using history_iff [OF assms] by (auto simp: has_applied_def)

lemma apply_pending_migrated:
  assumes ms: "well_versioned ms" and k: "has_applied ms k d"
  shows "apply_pending exec flt now (applied_of (ledger_rows d)) ms [] (create_ledger d) = (r, Inr tx) \<longleftrightarrow>
    (\<forall>m \<in> set (drop k ms). flt (''apply migration '' @ mg_Version m) = Call_Ok \<and>
      flt (''record migration '' @ mg_Version m) = Call_Ok) \<and> r = drop k ms \<and> migrated exec now ms k d tx"
proof -
  note parts = has_applied_parts [OF ms k]
  have "apply_pending exec flt now (applied_of (ledger_rows d)) ms [] (create_ledger d) =
    apply_pending exec flt now (applied_of (ledger_rows d)) (take k ms @ drop k ms) [] (create_ledger d)" by simp
  also have "\<dots> = apply_pending exec flt now (applied_of (ledger_rows d)) (drop k ms) [] (create_ledger d)"
    by (rule apply_pending_skips) (use parts(1) in \<open>auto simp: map_of_applied_of\<close>)
  finally show ?thesis
    using apply_pending_iff [of "drop k ms" "applied_of (ledger_rows d)" "ledger_rows d" "create_ledger d" exec flt now "[]" r tx]
      parts k by (simp add: map_of_applied_of migrated_def)
qed

lemma has_applied_unique:
  assumes "has_applied ms k d" and "has_applied ms n d"
  shows "k = n"
proof -
  have "size (mset (map migration_key (take k ms))) = size (mset (map migration_key (take n ms)))"
    using assms by (simp add: has_applied_def)
  then show ?thesis using assms by (simp add: has_applied_def)
qed

lemma migrated_done:
  assumes "migrated exec now ms k d d'"
  shows "has_applied ms (length ms) d'"
proof -
  have "map ledger_key (ledger_rows d') = map ledger_key (ledger_rows d) @ map migration_key (drop k ms)"
    using assms by (auto simp: migrated_def ledger_rows_def)
  then have "mset (map ledger_key (ledger_rows d')) =
      mset (map migration_key (take k ms)) + mset (map migration_key (drop k ms))"
    using assms by (simp only: migrated_def has_applied_def mset_append)
  also have "\<dots> = mset (map migration_key (take k ms @ drop k ms))" by (simp only: map_append mset_append)
  finally show ?thesis by (simp add: has_applied_def)
qed

lemma migrated_distinct:
  assumes "well_versioned ms" and "distinct (map sm_version (ledger_rows d))" and "migrated exec now ms k d d'"
  shows "distinct (map sm_version (ledger_rows d'))"
proof -
  have k: "has_applied ms k d" using assms(3) by (simp add: migrated_def)
  have "ledger_rows d' = ledger_rows d @ map (row_of now) (drop k ms)"
    using assms(3) by (auto simp: migrated_def ledger_rows_def)
  moreover have "mg_Version ` set (drop k ms) \<inter> sm_version ` set (ledger_rows d) = {}"
    using has_applied_parts(2) [OF assms(1) k] by blast
  ultimately show ?thesis
    using has_applied_parts(3) [OF assms(1) k] assms(2) by (simp add: comp_def image_image Int_commute)
qed

lemma Up_cases:
  assumes ms: "well_versioned (mr_migrations migrator)" and d: "distinct (map sm_version (ledger_rows d))"
    and up: "Up exec flt now migrator (Some d) = ((r, err), Some d')"
  shows "err \<noteq> None \<and> d' = d \<or> (\<exists>k. migrated exec now (mr_migrations migrator) k d d' \<and>
    (err = None \<longrightarrow> r = drop k (mr_migrations migrator)))"
proof (cases "err \<noteq> None \<and> d' = d")
  case False
  let ?ms = "mr_migrations migrator"
  have h: "readAppliedMigrations flt (create_ledger d) = Inr (applied_of (ledger_rows d))"
  proof (cases "readAppliedMigrations flt (create_ledger d)")
    case (Inl e)
    then show ?thesis using up False by (cases err) (auto simp: Up_def split: if_splits)
  qed (use readAppliedMigrations_cases(1) [of "create_ledger d" _ flt] in auto)
  have v: "validateAppliedMigrationHistory ?ms (applied_of (ledger_rows d)) = None"
  proof (cases "validateAppliedMigrationHistory ?ms (applied_of (ledger_rows d))")
    case (Some e)
    then show ?thesis using up False by (cases err) (auto simp: Up_def h split: if_splits)
  qed
  then obtain k where k: "has_applied ?ms k d" using history_applied [OF ms d] by blast
  obtain r' o' where a: "apply_pending exec flt now (applied_of (ledger_rows d)) ?ms [] (create_ledger d) = (r', o')"
    by fastforce
  have f: "(case o' of Inl err \<Rightarrow> ((r', Some err), Some d)
      | Inr tx \<Rightarrow> finish (flt ''commit migrations'') (Some d) (Some tx)
          ([], Some (operationError ''commit migrations'')) (r', None)) = ((r, err), Some d')"
    using up False by (cases err) (auto simp: Up_def h v a split: if_splits)
  then obtain tx where tx: "o' = Inr tx" using False by (cases o') auto
  with f False have "d' = tx \<and> (err = None \<longrightarrow> r = r')"
    by (cases err) (auto simp: finish_def split: dbcall.splits)
  then show ?thesis using a k tx apply_pending_migrated [OF ms k] by auto
qed simp

lemma Up_succeeds:
  assumes ms: "well_versioned (mr_migrations migrator)" and d: "distinct (map sm_version (ledger_rows d))"
    and k: "migrated exec now (mr_migrations migrator) k d d'" and ok: "\<forall>op. flt op = Call_Ok"
  shows "Up exec flt now migrator (Some d) = ((drop k (mr_migrations migrator), None), Some d')"
proof -
  let ?ms = "mr_migrations migrator"
  have k': "has_applied ?ms k d" using k by (simp add: migrated_def)
  have a: "apply_pending exec flt now (applied_of (ledger_rows d)) ?ms [] (create_ledger d) = (drop k ?ms, Inr d')"
    using apply_pending_migrated [OF ms k', of exec flt now "drop k ?ms" d'] k ok by simp
  have v: "validateAppliedMigrationHistory ?ms (applied_of (ledger_rows d)) = None"
    using history_applied [OF ms d] k' by blast
  have h: "readAppliedMigrations flt (create_ledger d) = Inr (applied_of (ledger_rows d))"
    using readAppliedMigrations_cases(2) [of "create_ledger d"] ok by simp
  show ?thesis unfolding Up_def option.case h sum.case v a prod.case by (simp add: ok)
qed

lemma NewMigrator_versioned:
  assumes "NewMigrator sum256 source directory = Inr migrator" and "\<forall>c. length (sum256 c) = 32"
  shows "well_versioned (mr_migrations migrator)"
proof -
  obtain src where src: "source = Some src"
    using assms(1) by (cases source) (auto simp: NewMigrator_def LoadMigrations_def)
  have load: "LoadMigrations sum256 (Some src) directory = Inr (mr_migrations migrator)"
    using assms(1) src by (auto simp: NewMigrator_def and_then_Inr)
  then have "sorted_wrt (<) (map mg_Version (mr_migrations migrator))" using LoadMigrations_iff by blast
  moreover have "mg_Version m \<noteq> [] \<and> length (mg_Checksum m) = 32" if "m \<in> set (mr_migrations migrator)" for m
    using loaded_member [OF load that] loaded_name(2,6) assms(2) by fastforce
  ultimately show ?thesis by (simp add: well_versioned_def strict_sorted_iff list_all_iff)
qed

text \<open>
  C34. \<open>Up\<close> with a migrator loaded from files is all or nothing, whatever fails: it leaves the database
  as it was, or the database had exactly the first \<open>k\<close> migrations and now has all of them, the
  pending scripts having run in order on it, with a ledger row for each and no other row
  touched. It reports success in the second case only, with the migrations it applied; with
  nothing failing in between it succeeds exactly when the history is such a prefix and the
  pending scripts run; and running it again after a success changes nothing.
\<close>

theorem migrations_up_atomic:
  assumes "NewMigrator sum256 source directory = Inr migrator" and "\<forall>c. length (sum256 c) = 32"
    and "distinct (map sm_version (ledger_rows d))"
    and "Up exec flt now migrator (Some d) = ((applied, err), Some d')"
  shows "(err \<noteq> None \<and> d' = d \<or> (\<exists>k. migrated exec now (mr_migrations migrator) k d d' \<and>
      has_applied (mr_migrations migrator) (length (mr_migrations migrator)) d')) \<and>
    (err = None \<longrightarrow> (\<exists>k. migrated exec now (mr_migrations migrator) k d d' \<and>
      applied = drop k (mr_migrations migrator))) \<and>
    ((\<forall>op. flt op = Call_Ok) \<longrightarrow>
      (err = None \<longleftrightarrow> (\<exists>k new. migrated exec now (mr_migrations migrator) k d new))) \<and>
    (err = None \<longrightarrow> Up exec (\<lambda>_. Call_Ok) later migrator (Some d') = (([], None), Some d')) \<and>
    distinct (map sm_version (ledger_rows d'))"
proof -
  let ?ms = "mr_migrations migrator"
  have ms: "well_versioned ?ms" using NewMigrator_versioned assms(1,2) by blast
  note c = Up_cases [OF ms assms(3,4)]
  have D: "distinct (map sm_version (ledger_rows d'))"
    using c assms(3) migrated_distinct [OF ms assms(3)] by blast
  have A: "err \<noteq> None \<and> d' = d \<or> (\<exists>k. migrated exec now ?ms k d d' \<and> has_applied ?ms (length ?ms) d')"
    using c migrated_done by blast
  have B: "err = None \<longrightarrow> (\<exists>k. migrated exec now ?ms k d d' \<and> applied = drop k ?ms)" using c by blast
  have P: "err = None \<longleftrightarrow> (\<exists>k new. migrated exec now ?ms k d new)" if ok: "\<forall>op. flt op = Call_Ok"
  proof
    show "\<exists>k new. migrated exec now ?ms k d new" if "err = None" using B that by blast
    assume "\<exists>k new. migrated exec now ?ms k d new"
    then show "err = None" using Up_succeeds [OF ms assms(3) _ ok] assms(4) by fastforce
  qed
  have "Up exec (\<lambda>_. Call_Ok) later migrator (Some d') = (([], None), Some d')" if e: "err = None"
  proof -
    obtain k where k: "migrated exec now ?ms k d d'" using B e by blast
    then have "migrated exec later ?ms (length ?ms) d' d'"
      using migrated_done [OF k] by (auto simp: migrated_def ledger_rows_def)
    then show ?thesis using Up_succeeds [OF ms D, where flt = "\<lambda>_. Call_Ok"] by fastforce
  qed
  with A B P D show ?thesis by blast
qed

definition toy_exec :: "string list exec" where
  "toy_exec q s =
     (if q \<in> {''A'', ''CC''} then Some (q # s)
      else case s of x # rest \<Rightarrow> if (q, x) \<in> {(''B'', ''A''), (''DD'', ''CC'')} then Some rest else None
        | [] \<Rightarrow> None)"

definition toy_fresh :: "string list migration_db" where
  "toy_fresh = \<lparr>schema_migration = None, objects = [''old'']\<rparr>"

definition toy_migrated :: "string list migration_db" where
  "toy_migrated = \<lparr>schema_migration = Some (map (row_of 5000) toy_migrations), objects = [''CC'', ''A'', ''old'']\<rparr>"

lemma toy_migrator: "NewMigrator toy_sum (Some toy_source) [] = Inr \<lparr>mr_migrations = toy_migrations\<rparr>"
  by (simp add: NewMigrator_def toy_loads)

lemma toy_up:
  "Up toy_exec (\<lambda>_. Call_Ok) 5000 \<lparr>mr_migrations = toy_migrations\<rparr> (Some toy_fresh) =
    ((toy_migrations, None), Some toy_migrated)"
  by code_simp

theorem migrations_up_atomic_witness:
  "has_applied toy_migrations 2 toy_migrated \<and>
   Up toy_exec (\<lambda>_. Call_Ok) 9000 \<lparr>mr_migrations = toy_migrations\<rparr> (Some toy_migrated) =
     (([], None), Some toy_migrated)"
proof -
  have "distinct (map sm_version (ledger_rows toy_fresh))" "\<forall>c. length (toy_sum c) = 32" "length toy_migrations = 2"
    "toy_migrated \<noteq> toy_fresh"
    by (simp_all add: ledger_rows_def toy_fresh_def toy_sum_def toy_migrations_def toy_migrated_def)
  with migrations_up_atomic [OF toy_migrator _ _ toy_up, where later = 9000] show ?thesis by fastforce
qed

text \<open>
  A failed call of \<open>Up\<close> reports the migrations that it had applied before the failure, although
  the transaction that applied them is rolled back.
\<close>

lemma failed_up_lists_rolled_back:
  "Up toy_exec (\<lambda>op. if op = ''apply migration 20260916110000'' then Call_Failed else Call_Ok) 5000
     \<lparr>mr_migrations = toy_migrations\<rparr> (Some toy_fresh) =
   (([hd toy_migrations], Some (''postgres %s failed'', [''apply migration 20260916110000''])), Some toy_fresh)"
  by code_simp

lemma Up_db: "\<exists>r d'. Up exec flt now migrator (Some d) = (r, Some d')"
  by (auto simp: Up_def finish_def split: sum.splits option.splits prod.splits dbcall.splits)

end
