(* ===== verification/Migrate_Down.thy ===== *)
theory Migrate_Down
  imports Migrate_Up
begin

text \<open>
  Reverting the migrations, \<open>DownAll\<close> of \<open>internal/database/migrate.go\<close>, and sequences of calls of \<open>Up\<close> and
  \<open>DownAll\<close>: the contract of both is the locale \<open>all_or_nothing\<close>.
\<close>

subsection \<open>The outcome of DownAll\<close>

definition reverted :: "'s exec \<Rightarrow> Migration list \<Rightarrow> nat \<Rightarrow> 's migration_db \<Rightarrow> 's migration_db \<Rightarrow> bool" where
  "reverted exec ms k d d' \<longleftrightarrow> has_applied ms k d \<and> schema_migration d \<noteq> None \<and>
     (\<exists>s. run_scripts exec (map mg_DownSQL (rev (take k ms))) (objects d) = Some s \<and>
       d' = \<lparr>schema_migration = None, objects = s\<rparr>)"

lemma revert_applied_skips:
  "\<forall>m \<in> set xs. map_of applied (mg_Version m) = None \<Longrightarrow>
    revert_applied exec flt applied (xs @ ys) r tx = revert_applied exec flt applied ys r tx"
  by (induction xs) auto

lemma revert_applied_iff:
  assumes "\<forall>m \<in> set ys. map_of applied (mg_Version m) \<noteq> None"
  shows "revert_applied exec flt applied ys r tx = (r', Inr tx') \<longleftrightarrow>
    (\<forall>m \<in> set ys. flt (''revert migration '' @ mg_Version m) = Call_Ok \<and>
      flt (''remove migration record '' @ mg_Version m) = Call_Ok) \<and> r' = r @ ys \<and>
    (\<exists>s. run_scripts exec (map mg_DownSQL ys) (objects tx) = Some s \<and>
      tx' = \<lparr>schema_migration = map_option (filter (\<lambda>r. sm_version r \<notin> mg_Version ` set ys)) (schema_migration tx),
             objects = s\<rparr>)"
  using assms
proof (induction ys arbitrary: r tx)
  case Nil
  then show ?case by (cases tx) (auto simp: option.map_id0 [unfolded id_def])
next
  case (Cons m ys)
  show ?case
  proof (cases "exec (mg_DownSQL m) (objects tx)")
    case None
    then show ?thesis using Cons.prems by auto
  next
    case (Some objs)
    have "filter (\<lambda>r. sm_version r \<notin> mg_Version ` set ys) (filter (\<lambda>r. sm_version r \<noteq> mg_Version m) rows) =
      filter (\<lambda>r. sm_version r \<notin> mg_Version ` set (m # ys)) rows" for rows
      by (auto intro: filter_cong)
    then have rec: "map_option (filter (\<lambda>r. sm_version r \<notin> mg_Version ` set ys))
        (schema_migration (remove_record m (tx\<lparr>objects := objs\<rparr>))) =
      map_option (filter (\<lambda>r. sm_version r \<notin> mg_Version ` set (m # ys))) (schema_migration tx)"
      by (simp add: remove_record_def option.map_comp comp_def)
    have obj: "objects (remove_record m (tx\<lparr>objects := objs\<rparr>)) = objs" by (simp add: remove_record_def)
    note IH = Cons.IH [of "r @ [m]" "remove_record m (tx\<lparr>objects := objs\<rparr>)", unfolded rec obj]
    show ?thesis using Some IH Cons.prems by auto
  qed
qed

lemma revert_applied_reverted:
  assumes ms: "well_versioned ms" and k: "has_applied ms k d" and t: "schema_migration d = Some rows"
  shows "revert_applied exec flt (applied_of rows) (rev ms) [] d = (r, Inr tx) \<longleftrightarrow>
    (\<forall>m \<in> set (take k ms). flt (''revert migration '' @ mg_Version m) = Call_Ok \<and>
      flt (''remove migration record '' @ mg_Version m) = Call_Ok) \<and> r = rev (take k ms) \<and>
    reverted exec ms k d (tx\<lparr>schema_migration := None\<rparr>) \<and> (\<exists>rows'. schema_migration tx = Some rows' \<and>
      rows' = filter (\<lambda>r. sm_version r \<notin> mg_Version ` set (take k ms)) rows)"
proof -
  note parts = has_applied_parts [OF ms k]
  have rows: "ledger_rows d = rows" by (simp add: ledger_rows_def t)
  have "rev ms = rev (drop k ms) @ rev (take k ms)" by (simp flip: rev_append)
  then have "revert_applied exec flt (applied_of rows) (rev ms) [] d =
    revert_applied exec flt (applied_of rows) (rev (drop k ms) @ rev (take k ms)) [] d" by simp
  also have "\<dots> = revert_applied exec flt (applied_of rows) (rev (take k ms)) [] d"
    by (rule revert_applied_skips) (use parts(2) in \<open>simp add: map_of_applied_of rows\<close>)
  finally have e: "revert_applied exec flt (applied_of rows) (rev ms) [] d =
    revert_applied exec flt (applied_of rows) (rev (take k ms)) [] d" .
  have a: "\<forall>m \<in> set (rev (take k ms)). map_of (applied_of rows) (mg_Version m) \<noteq> None"
    using parts(1) by (simp add: map_of_applied_of rows)
  show ?thesis unfolding e revert_applied_iff [OF a]
    by (cases tx) (auto simp: reverted_def k t)
qed

lemma DownAll_cases:
  assumes ms: "well_versioned (mr_migrations migrator)" and d: "distinct (map sm_version (ledger_rows d))"
    and down: "DownAll exec flt migrator (Some d) = ((r, err), Some d')"
  shows "err \<noteq> None \<and> d' = d \<or> (\<exists>k. reverted exec (mr_migrations migrator) k d d' \<and>
    (err = None \<longrightarrow> r = rev (take k (mr_migrations migrator))))"
proof (cases "err \<noteq> None \<and> d' = d")
  case False
  let ?ms = "mr_migrations migrator"
  obtain rows where t: "schema_migration d = Some rows" "ledger_rows d = rows"
    using down False
    by (cases "schema_migration d"; cases err) (auto simp: DownAll_def readAppliedMigrations_def ledger_rows_def split: if_splits)
  have h: "readAppliedMigrations flt d = Inr (applied_of rows)"
  proof (cases "readAppliedMigrations flt d")
    case (Inl e)
    then show ?thesis using down False by (cases err) (auto simp: DownAll_def split: if_splits)
  qed (use readAppliedMigrations_cases(1) [OF t(1), of flt] in auto)
  have v: "validateAppliedMigrationHistory ?ms (applied_of rows) = None"
  proof (cases "validateAppliedMigrationHistory ?ms (applied_of rows)")
    case (Some e)
    then show ?thesis using down False by (cases err) (auto simp: DownAll_def h split: if_splits)
  qed
  then obtain k where k: "has_applied ?ms k d" using history_applied [OF ms d] t(2) by auto
  obtain r' o' where a: "revert_applied exec flt (applied_of rows) (rev ?ms) [] d = (r', o')" by fastforce
  obtain tx where tx: "o' = Inr tx"
    using down False by (cases o'; cases err) (auto simp: DownAll_def h v a split: if_splits)
  have "d' = tx\<lparr>schema_migration := None\<rparr> \<and> (err = None \<longrightarrow> r = r')"
    using down False by (cases err) (auto simp: DownAll_def h v a tx finish_def split: if_splits dbcall.splits)
  then show ?thesis using a tx revert_applied_reverted [OF ms k t(1)] by auto
qed simp

lemma DownAll_succeeds:
  assumes ms: "well_versioned (mr_migrations migrator)" and d: "distinct (map sm_version (ledger_rows d))"
    and k: "reverted exec (mr_migrations migrator) k d d'" and ok: "\<forall>op. flt op = Call_Ok"
  shows "DownAll exec flt migrator (Some d) = ((rev (take k (mr_migrations migrator)), None), Some d')"
proof -
  let ?ms = "mr_migrations migrator"
  obtain rows where t: "schema_migration d = Some rows" "ledger_rows d = rows"
    using k by (auto simp: reverted_def ledger_rows_def)
  have k': "has_applied ?ms k d" using k by (simp add: reverted_def)
  obtain s where s: "d' = \<lparr>schema_migration = None, objects = s\<rparr>" using k by (auto simp: reverted_def)
  define tx where "tx = d'\<lparr>schema_migration := Some (filter (\<lambda>r. sm_version r \<notin> mg_Version ` set (take k ?ms)) rows)\<rparr>"
  have a: "revert_applied exec flt (applied_of rows) (rev ?ms) [] d = (rev (take k ?ms), Inr tx)"
    using revert_applied_reverted [OF ms k' t(1), of exec flt "rev (take k ?ms)" tx] k ok by (simp add: tx_def s)
  have v: "validateAppliedMigrationHistory ?ms (applied_of rows) = None"
    using history_applied [OF ms d] k' t(2) by blast
  have h: "readAppliedMigrations flt d = Inr (applied_of rows)"
    using readAppliedMigrations_cases(2) [OF t(1)] ok by simp
  show ?thesis unfolding DownAll_def option.case h sum.case v a prod.case by (simp add: ok tx_def s)
qed

lemma undo_scripts:
  assumes "\<forall>m \<in> set ms. \<forall>s s'. exec (mg_UpSQL m) s = Some s' \<longrightarrow> exec (mg_DownSQL m) s' = Some s"
    and "run_scripts exec (map mg_UpSQL ms) s = Some s'"
  shows "run_scripts exec (map mg_DownSQL (rev ms)) s' = Some s"
  using assms
proof (induction ms arbitrary: s)
  case (Cons m ms)
  obtain s1 where s1: "exec (mg_UpSQL m) s = Some s1" "run_scripts exec (map mg_UpSQL ms) s1 = Some s'"
    using Cons.prems(2) by (auto split: option.splits)
  have "run_scripts exec (map mg_DownSQL (rev ms)) s' = Some s1" using Cons s1(2) by simp
  moreover have "exec (mg_DownSQL m) s1 = Some s" using Cons.prems(1) s1(1) by simp
  ultimately show ?case by (simp add: run_scripts_append)
qed simp

lemma DownAll_db: "\<exists>r d'. DownAll exec flt migrator (Some d) = (r, Some d')"
  by (auto simp: DownAll_def finish_def split: sum.splits option.splits prod.splits dbcall.splits)

subsection \<open>Sequences of calls\<close>

text \<open>
  What a client may rely on, whoever calls and whatever fails: a call on a good state either
  leaves it alone or has one of the declared effects, and these keep it good.
\<close>

locale all_or_nothing =
  fixes call :: "'c \<Rightarrow> 'd \<Rightarrow> 'd" and effect :: "'d \<Rightarrow> 'd \<Rightarrow> bool" and good :: "'d \<Rightarrow> bool"
  assumes atomic: "good d \<Longrightarrow> call c d = d \<or> effect d (call c d)"
    and kept: "good d \<Longrightarrow> effect d d' \<Longrightarrow> good d'"
begin

lemma run_good: "good d \<Longrightarrow> good (fold call cs d)"
  using atomic kept by (induction cs arbitrary: d) (auto, metis)

lemma run_invariant:
  assumes "good d" and "keeps d" and step: "\<And>d d'. good d \<Longrightarrow> keeps d \<Longrightarrow> effect d d' \<Longrightarrow> keeps d'"
  shows "keeps (fold call cs d)"
  using assms(1,2)
proof (induction cs arbitrary: d)
  case (Cons c cs)
  have "call c d = d \<or> effect d (call c d)" using atomic Cons.prems(1) by blast
  then have "good (call c d) \<and> keeps (call c d)" using Cons.prems kept step by metis
  then show ?case using Cons.IH by simp
qed simp

end

datatype migration_call = Call_Up faults instant | Call_DownAll faults

definition migration_step :: "'s exec \<Rightarrow> Migrator \<Rightarrow> migration_call \<Rightarrow> 's migration_db \<Rightarrow> 's migration_db" where
  "migration_step exec migrator c d = the (snd (case c of
     Call_Up flt now \<Rightarrow> Up exec flt now migrator (Some d) | Call_DownAll flt \<Rightarrow> DownAll exec flt migrator (Some d)))"

definition schema_effect :: "'s exec \<Rightarrow> Migration list \<Rightarrow> 's migration_db \<Rightarrow> 's migration_db \<Rightarrow> bool" where
  "schema_effect exec ms d d' \<longleftrightarrow> (\<exists>now k. migrated exec now ms k d d') \<or> (\<exists>k. reverted exec ms k d d')"

definition schema_good :: "Migration list \<Rightarrow> 's migration_db \<Rightarrow> bool" where
  "schema_good ms d \<longleftrightarrow> well_versioned ms \<and> distinct (map sm_version (ledger_rows d))"

interpretation schema_calls: all_or_nothing "migration_step exec migrator"
  "schema_effect exec (mr_migrations migrator)" "schema_good (mr_migrations migrator)"
proof unfold_locales
  fix c and d :: "'a migration_db" assume g: "schema_good (mr_migrations migrator) d"
  show "migration_step exec migrator c d = d \<or> schema_effect exec (mr_migrations migrator) d (migration_step exec migrator c d)"
  proof (cases c)
    case (Call_Up flt now)
    obtain r err d' where "Up exec flt now migrator (Some d) = ((r, err), Some d')" using Up_db by (metis surj_pair)
    with Up_cases [of migrator d exec flt now] g Call_Up show ?thesis
      by (auto simp: migration_step_def schema_effect_def schema_good_def)
  next
    case (Call_DownAll flt)
    obtain r err d' where "DownAll exec flt migrator (Some d) = ((r, err), Some d')" using DownAll_db by (metis surj_pair)
    with DownAll_cases [of migrator d exec flt] g Call_DownAll show ?thesis
      by (auto simp: migration_step_def schema_effect_def schema_good_def)
  qed
next
  fix d d' :: "'a migration_db"
  assume "schema_good (mr_migrations migrator) d" "schema_effect exec (mr_migrations migrator) d d'"
  then show "schema_good (mr_migrations migrator) d'"
    using migrated_distinct by (fastforce simp: schema_good_def schema_effect_def reverted_def ledger_rows_def)
qed

lemma effect_of_migrated:
  assumes x: "migrated exec t ms 0 d x" and undone: "reverted exec ms (length ms) x d"
    and y: "schema_effect exec ms x y"
  shows "y = x \<or> y = d"
proof -
  have "k = length ms" if "has_applied ms k x" for k using has_applied_unique [OF that migrated_done [OF x]] .
  moreover have "x = \<lparr>schema_migration = Some (ledger_rows x), objects = objects x\<rparr>"
    using x by (auto simp: migrated_def ledger_rows_def)
  ultimately show ?thesis using y undone by (auto simp: schema_effect_def migrated_def reverted_def)
qed

text \<open>Down scripts that undo the up scripts lead a database without a ledger back from the full migration.\<close>

lemma scripts_undo_migrated:
  assumes "\<forall>m \<in> set ms. \<forall>s s'. exec (mg_UpSQL m) s = Some s' \<longrightarrow> exec (mg_DownSQL m) s' = Some s"
    and "schema_migration d = None" and x: "migrated exec t ms 0 d x"
  shows "reverted exec ms (length ms) x d"
proof -
  obtain s where s: "run_scripts exec (map mg_UpSQL ms) (objects d) = Some s" "objects x = s" "schema_migration x \<noteq> None"
    using x by (auto simp: migrated_def)
  have "run_scripts exec (map mg_DownSQL (rev ms)) (objects x) = Some (objects d)"
    using undo_scripts [OF assms(1) s(1)] s(2) by simp
  moreover have "d = \<lparr>schema_migration = None, objects = objects d\<rparr>" using assms(2) by (cases d) simp
  ultimately show ?thesis using migrated_done [OF x] s(3) unfolding reverted_def by simp
qed

text \<open>
  C35. The migrations can be reverted: when every down script undoes its up script, \<open>DownAll\<close>, after an
  \<open>Up\<close> that succeeded on a database without a ledger, gives back that database and reports
  the migrations from the newest to the oldest; and after any sequence of calls of \<open>Up\<close> and
  \<open>DownAll\<close>, whatever fails in them, the database is the original or the fully migrated one.
\<close>

theorem migrations_reversible:
  assumes "NewMigrator sum256 source directory = Inr migrator" and "\<forall>c. length (sum256 c) = 32"
    and "\<forall>m \<in> set (mr_migrations migrator). \<forall>s s'.
      exec (mg_UpSQL m) s = Some s' \<longrightarrow> exec (mg_DownSQL m) s' = Some s"
    and "schema_migration d = None"
  shows "(Up exec flt now migrator (Some d) = ((applied, None), Some d1) \<longrightarrow>
      DownAll exec (\<lambda>_. Call_Ok) migrator (Some d1) = ((rev (mr_migrations migrator), None), Some d)) \<and>
    (fold (migration_step exec migrator) calls d = d \<or>
     (\<exists>t. migrated exec t (mr_migrations migrator) 0 d (fold (migration_step exec migrator) calls d)))"
proof -
  let ?ms = "mr_migrations migrator"
  have ms: "well_versioned ?ms" using NewMigrator_versioned assms(1,2) by blast
  have e: "ledger_rows d = []" "distinct (map sm_version (ledger_rows d))" using assms(4) by (simp_all add: ledger_rows_def)
  have z: "has_applied ?ms 0 d" using e(1) by (simp add: has_applied_def)
  have zero: "k = 0" if "migrated exec t ?ms k d x" for t k x
    using has_applied_unique [OF _ z] that by (simp add: migrated_def)
  note undone = scripts_undo_migrated [OF assms(3,4)]
  have "DownAll exec (\<lambda>_. Call_Ok) migrator (Some d1) = ((rev ?ms, None), Some d)"
    if up: "Up exec flt now migrator (Some d) = ((applied, None), Some d1)"
  proof -
    obtain k where k: "migrated exec now ?ms k d d1" using Up_cases [OF ms e(2) up] by blast
    then have "migrated exec now ?ms 0 d d1" using zero [OF k] by simp
    from DownAll_succeeds [OF ms migrated_distinct [OF ms e(2) this] undone [OF this], of "\<lambda>_. Call_Ok"]
    show ?thesis by simp
  qed
  moreover have "fold (migration_step exec migrator) calls d = d \<or>
    (\<exists>t. migrated exec t ?ms 0 d (fold (migration_step exec migrator) calls d))"
  proof (rule schema_calls.run_invariant)
    show "schema_good ?ms d" using ms e(2) by (simp add: schema_good_def)
    fix x y :: "'a migration_db"
    assume x: "x = d \<or> (\<exists>t. migrated exec t ?ms 0 d x)" and y: "schema_effect exec ?ms x y"
    show "y = d \<or> (\<exists>t. migrated exec t ?ms 0 d y)"
      using x
    proof (elim disjE exE)
      assume "x = d"
      then obtain t k where k: "migrated exec t ?ms k d y" using y assms(4) by (auto simp: schema_effect_def reverted_def)
      then show ?thesis using zero [OF k] by blast
    next
      fix t assume t: "migrated exec t ?ms 0 d x"
      have "y = x \<or> y = d" using effect_of_migrated [OF t undone [OF t]] y by blast
      then show ?thesis using t by blast
    qed
  qed simp
  ultimately show ?thesis by blast
qed

theorem migrations_reversible_witness:
  "DownAll toy_exec (\<lambda>_. Call_Ok) \<lparr>mr_migrations = toy_migrations\<rparr> (Some toy_migrated) =
      ((rev toy_migrations, None), Some toy_fresh) \<and>
    (fold (migration_step toy_exec \<lparr>mr_migrations = toy_migrations\<rparr>) [Call_Up (\<lambda>_. Call_Ok) 5000] toy_fresh = toy_fresh \<or>
     (\<exists>t. migrated toy_exec t toy_migrations 0 toy_fresh
        (fold (migration_step toy_exec \<lparr>mr_migrations = toy_migrations\<rparr>) [Call_Up (\<lambda>_. Call_Ok) 5000] toy_fresh)))"
proof -
  have undo: "\<forall>m \<in> set (mr_migrations \<lparr>mr_migrations = toy_migrations\<rparr>). \<forall>s s'.
      toy_exec (mg_UpSQL m) s = Some s' \<longrightarrow> toy_exec (mg_DownSQL m) s' = Some s"
    by (simp add: toy_migrations_def toy_exec_def)
  have fresh: "schema_migration toy_fresh = None" "\<forall>c. length (toy_sum c) = 32"
    by (simp_all add: toy_fresh_def toy_sum_def)
  note reversible = migrations_reversible [OF toy_migrator fresh(2) undo fresh(1)]
  show ?thesis
    using reversible [THEN conjunct1, rule_format, OF toy_up]
      reversible [THEN conjunct2, of "[Call_Up (\<lambda>_. Call_Ok) 5000]"] by simp
qed

end
