(* ===== verification/Smtp.thy ===== *)
theory Smtp
  imports Config Substrings
begin

text \<open>
  The SMTP diagnostic, \<open>internal/smtppoc/client.go\<close>: its configuration, the message it builds and
  the exchange with the server, as the list of the events that the network sees. The address
  parser and printer of \<open>net/mail\<close>, the date format and the server's answers are arguments; an
  error is the list of its problems, empty for \<open>nil\<close>.
\<close>

abbreviation LF :: char where "LF \<equiv> CHR 0x0A"
abbreviation CR :: char where "CR \<equiv> CHR 0x0D"
abbreviation CRLF :: string where "CRLF \<equiv> [CR, LF]"

definition ModePlain :: string where "ModePlain = ''plain''"
definition ModeSTARTTLS :: string where "ModeSTARTTLS = ''starttls''"
definition ModeTLS :: string where "ModeTLS = ''tls''"
definition Subject :: string where "Subject = ''[PDF Service POC] Test SMTP''"

record SmtpConfig =
  sc_Host :: string
  sc_Port :: int
  sc_Mode :: string
  sc_From :: string
  sc_To :: string
  sc_Username :: string
  sc_Password :: string
  sc_ClientHostname :: string
  sc_Timeout :: duration

text \<open>
  \<open>mail.ParseAddress\<close> gives an error text or the name and the address, \<open>Address.String\<close> prints them, and
  \<open>time.RFC1123Z\<close> formats an instant.
\<close>

record mail_library =
  ml_ParseAddress :: "string \<Rightarrow> string + string \<times> string"
  ml_String :: "string \<times> string \<Rightarrow> string"
  ml_RFC1123Z :: "instant \<Rightarrow> string"

definition containsNewline :: "string \<Rightarrow> bool" where
  "containsNewline s \<longleftrightarrow> CR \<in> set s \<or> LF \<in> set s"

definition mailbox :: "mail_library \<Rightarrow> string \<Rightarrow> string + string" where
  "mailbox lib text =
     (if containsNewline text then Inl ''address contains a newline''
      else case ml_ParseAddress lib text of Inl err \<Rightarrow> Inl err | Inr (name, address) \<Rightarrow> Inr address)"

definition ParseMode :: "string \<Rightarrow> problem + string" where
  "ParseMode text =
     (let mode = ToLower (TrimSpace text) in
      if mode = ModePlain \<or> mode = ModeSTARTTLS \<or> mode = ModeTLS then Inr mode
      else Inl (''unsupported SMTP mode %q (want plain, starttls, or tls)'', [text]))"

definition Smtp_Validate :: "mail_library \<Rightarrow> SmtpConfig \<Rightarrow> problem list" where
  "Smtp_Validate lib cfg =
     plain (TrimSpace (sc_Host cfg) = []) ''SMTP host is required'' @
     plain (sc_Port cfg < 1 \<or> sc_Port cfg > 65535) ''SMTP port must be between 1 and 65535'' @
     (case ParseMode (sc_Mode cfg) of Inl err \<Rightarrow> [err] | Inr mode \<Rightarrow> []) @
     (case mailbox lib (sc_From cfg) of Inl err \<Rightarrow> [(''invalid from address: '' @ err, [])] | Inr a \<Rightarrow> []) @
     (case mailbox lib (sc_To cfg) of Inl err \<Rightarrow> [(''invalid recipient address: '' @ err, [])] | Inr a \<Rightarrow> []) @
     plain (sc_Timeout cfg \<le> 0) ''SMTP timeout must be positive'' @
     plain ((sc_Username cfg = []) \<noteq> (sc_Password cfg = []))
       ''SMTP username and password must either both be set or both be empty'' @
     plain (sc_ClientHostname cfg \<noteq> [] \<and> containsNewline (sc_ClientHostname cfg))
       ''SMTP client hostname contains a newline''"

definition Smtp_Address :: "SmtpConfig \<Rightarrow> string" where
  "Smtp_Address cfg = JoinHostPort (sc_Host cfg) (FormatInt (sc_Port cfg))"

subsection \<open>The message\<close>

definition normalize_body :: "string \<Rightarrow> string" where
  "normalize_body body = ReplaceAll (ReplaceAll (ReplaceAll body CRLF [LF]) [CR] [LF]) [LF] CRLF"

definition BuildMessage ::
    "mail_library \<Rightarrow> string \<Rightarrow> string \<Rightarrow> string \<Rightarrow> string \<Rightarrow> instant \<Rightarrow> problem + string" where
  "BuildMessage lib sender recipient subject body sentAt =
     (if containsNewline subject then Inl (''SMTP subject contains a newline'', [])
      else case ml_ParseAddress lib sender of
        Inl err \<Rightarrow> Inl (''parse from address: '' @ err, [])
      | Inr fromAddress \<Rightarrow>
      (case ml_ParseAddress lib recipient of
        Inl err \<Rightarrow> Inl (''parse recipient address: '' @ err, [])
      | Inr toAddress \<Rightarrow>
          let normalizedBody = normalize_body body in
          Inr (''Date: '' @ ml_RFC1123Z lib sentAt @ CRLF @
            ''From: '' @ ml_String lib fromAddress @ CRLF @
            ''To: '' @ ml_String lib toAddress @ CRLF @
            ''Subject: '' @ subject @ CRLF @
            ''MIME-Version: 1.0'' @ CRLF @
            ''Content-Type: text/plain; charset=UTF-8'' @ CRLF @
            ''Content-Transfer-Encoding: 8bit'' @ CRLF @
            CRLF @ normalizedBody @ (if HasSuffix normalizedBody CRLF then [] else CRLF))))"

subsection \<open>The exchange\<close>

text \<open>
  What the network sees: the connection, each command with whether the channel is encrypted, and
  the end of the connection. A command is listed even when the server then refuses it.
\<close>

datatype smtp_command =
  Helo string | StartTLS | AuthPlain string string | MailFrom string | RcptTo string
  | DataBegin | DataWrite string | DataEnd | QuitCommand

datatype smtp_event = Dialed bool string | Sent bool smtp_command | Closed

text \<open>
  The server: whether a connection (encrypted or not) succeeds, which extensions it advertises
  on a channel, and whether it, or the local call, accepts an operation.
\<close>

record smtp_server =
  srv_dial :: "bool \<Rightarrow> string \<Rightarrow> bool"
  srv_extension :: "bool \<Rightarrow> string \<Rightarrow> bool"
  srv_accepts :: "string \<Rightarrow> bool"

type_synonym exchange = "smtp_event list \<times> problem list"

text \<open>One call with its early return: the events of the call, then the rest of the function.\<close>

definition call :: "bool \<Rightarrow> smtp_event list \<Rightarrow> string \<Rightarrow> exchange \<Rightarrow> exchange" where
  "call accepted events failure rest =
     (if accepted then (events @ fst rest, snd rest) else (events, [(failure, [])]))"

definition is_localhost :: "string \<Rightarrow> bool" where
  "is_localhost host \<longleftrightarrow> host \<in> {''localhost'', ''127.0.0.1'', ''::1''}"

definition smtp_deliver :: "smtp_server \<Rightarrow> bool \<Rightarrow> string \<Rightarrow> string \<Rightarrow> string \<Rightarrow> exchange" where
  "smtp_deliver srv secure sender recipient message =
     call (srv_accepts srv ''mail'') [Sent secure (MailFrom sender)] ''set SMTP sender: %w''
     (call (srv_accepts srv ''rcpt'') [Sent secure (RcptTo recipient)] ''set SMTP recipient: %w''
     (call (srv_accepts srv ''data'') [Sent secure DataBegin] ''open SMTP DATA: %w''
     (if \<not> srv_accepts srv ''write''
        then ([Sent secure (DataWrite message), Sent secure DataEnd], [(''write SMTP message: %w'', [])])
      else call (srv_accepts srv ''finish'') [Sent secure (DataWrite message), Sent secure DataEnd]
        ''finish SMTP message: %w''
     (call (srv_accepts srv ''quit'') [Sent secure QuitCommand] ''quit SMTP session: %w'' ([], [])))))"

text \<open>
  \<open>smtp.PlainAuth\<close> refuses to start on a channel that is not encrypted unless the server is the
  local host; \<open>Client.Auth\<close> then quits without sending the credentials.
\<close>

definition smtp_authenticate :: "smtp_server \<Rightarrow> SmtpConfig \<Rightarrow> bool \<Rightarrow> exchange \<Rightarrow> exchange" where
  "smtp_authenticate srv cfg secure rest =
     (if sc_Username cfg = [] then rest
      else if \<not> srv_extension srv secure ''AUTH''
        then ([], [(''SMTP authentication configured but server does not advertise AUTH'', [])])
      else if \<not> secure \<and> \<not> is_localhost (sc_Host cfg)
        then ([Sent secure QuitCommand], [(''authenticate to SMTP server: unencrypted connection'', [])])
      else call (srv_accepts srv ''auth'') [Sent secure (AuthPlain (sc_Username cfg) (sc_Password cfg))]
        ''authenticate to SMTP server: %w'' rest)"

definition smtp_session ::
    "smtp_server \<Rightarrow> SmtpConfig \<Rightarrow> string \<Rightarrow> string \<Rightarrow> string \<Rightarrow> exchange" where
  "smtp_session srv cfg sender recipient message =
     (let secure = (sc_Mode cfg = ModeTLS) in
      call (srv_accepts srv ''deadline'') [] ''set SMTP deadline: %w''
      (call (srv_accepts srv ''client'') [] ''create SMTP client: %w''
      (call (sc_ClientHostname cfg = [] \<or> srv_accepts srv ''hello'')
        (if sc_ClientHostname cfg = [] then [] else [Sent secure (Helo (sc_ClientHostname cfg))])
        ''send SMTP HELO: %w''
      (if sc_Mode cfg = ModeSTARTTLS then
         if \<not> srv_extension srv secure ''STARTTLS''
           then ([], [(''SMTP server does not advertise STARTTLS'', [])])
         else call (srv_accepts srv ''starttls'') [Sent secure StartTLS] ''start SMTP TLS: %w''
           (smtp_authenticate srv cfg True (smtp_deliver srv True sender recipient message))
       else smtp_authenticate srv cfg secure (smtp_deliver srv secure sender recipient message)))))"

definition Send :: "mail_library \<Rightarrow> smtp_server \<Rightarrow> SmtpConfig \<Rightarrow> string \<Rightarrow> instant \<Rightarrow> exchange" where
  "Send lib srv cfg body now =
     (if Smtp_Validate lib cfg \<noteq> [] then ([], Smtp_Validate lib cfg)
      else let sender = (case mailbox lib (sc_From cfg) of Inl err \<Rightarrow> [] | Inr address \<Rightarrow> address);
               recipient = (case mailbox lib (sc_To cfg) of Inl err \<Rightarrow> [] | Inr address \<Rightarrow> address)
      in case BuildMessage lib (sc_From cfg) (sc_To cfg) Subject body now of
        Inl err \<Rightarrow> ([], [err])
      | Inr message \<Rightarrow>
          let encrypted = (sc_Mode cfg = ModeTLS); dialed = Dialed encrypted (Smtp_Address cfg) in
          if \<not> srv_dial srv encrypted (Smtp_Address cfg)
            then ([dialed], [(''connect to SMTP server: %w'', [])])
          else let (events, err) = smtp_session srv cfg sender recipient message
               in (dialed # events @ [Closed], err))"

subsection \<open>Transport\<close>

lemma call_simps [simp]:
  "fst (call ok events failure rest) = (if ok then events @ fst rest else events)"
  "snd (call ok events failure rest) = (if ok then snd rest else [(failure, [])])"
  by (simp_all add: call_def)

text \<open>The commands of a session that are not the greeting all go over a channel of one kind.\<close>

definition greeting :: "smtp_command \<Rightarrow> bool" where
  "greeting c \<longleftrightarrow> c = StartTLS \<or> (\<exists>h. c = Helo h)"

lemma deliver_secure: "Sent b c \<in> set (fst (smtp_deliver srv secure f t m)) \<Longrightarrow> b = secure \<and> \<not> (\<exists>u p. c = AuthPlain u p)"
  by (auto simp: smtp_deliver_def split: if_splits)

lemma authenticate_secure:
  "Sent b c \<in> set (fst (smtp_authenticate srv cfg secure rest)) \<Longrightarrow>
    Sent b c \<in> set (fst rest) \<or> b = secure \<and>
      (\<forall>u p. c = AuthPlain u p \<longrightarrow> (secure \<or> is_localhost (sc_Host cfg)) \<and> u = sc_Username cfg \<and> p = sc_Password cfg)"
  by (auto simp: smtp_authenticate_def split: if_splits)

lemma session_secure:
  assumes "Sent b c \<in> set (fst (smtp_session srv cfg f t m))"
  shows "(greeting c \<or> b = (sc_Mode cfg = ModeTLS \<or> sc_Mode cfg = ModeSTARTTLS)) \<and>
    (\<forall>u p. c = AuthPlain u p \<longrightarrow> b \<or> is_localhost (sc_Host cfg))"
proof -
  have modes: "ModeTLS \<noteq> ModeSTARTTLS" by (simp add: ModeTLS_def ModeSTARTTLS_def)
  have inner: "(b = secure) \<and> (\<forall>u p. c = AuthPlain u p \<longrightarrow> b \<or> is_localhost (sc_Host cfg))"
    if "Sent b c \<in> set (fst (smtp_authenticate srv cfg secure (smtp_deliver srv secure f t m)))" for secure
    using authenticate_secure [OF that] deliver_secure [of b c srv secure f t m] by auto
  show ?thesis
    using assms inner [of True] inner [of "sc_Mode cfg = ModeTLS"] modes
    by (auto simp: smtp_session_def greeting_def Let_def split: if_splits)
qed

text \<open>The function makes and ends the connection; a session consists of commands.\<close>

lemma deliver_sent: "e \<in> set (fst (smtp_deliver srv secure f t m)) \<Longrightarrow> \<exists>b c. e = Sent b c"
  by (auto simp: smtp_deliver_def split: if_splits)

lemma authenticate_sent:
  "e \<in> set (fst (smtp_authenticate srv cfg secure rest)) \<Longrightarrow> e \<in> set (fst rest) \<or> (\<exists>b c. e = Sent b c)"
  by (auto simp: smtp_authenticate_def split: if_splits)

lemma session_sent:
  assumes "e \<in> set (fst (smtp_session srv cfg f t m))"
  shows "\<exists>b c. e = Sent b c"
proof -
  have inner: "\<exists>b c. e = Sent b c" if "e \<in> set (fst (smtp_authenticate srv cfg secure (smtp_deliver srv secure f t m)))" for secure
    using authenticate_sent [OF that] deliver_sent by blast
  show ?thesis
    using assms inner [of True] inner [of "sc_Mode cfg = ModeTLS"]
    unfolding smtp_session_def Let_def by (auto split: if_splits)
qed

lemma session_ok:
  assumes "snd (smtp_session srv cfg f t m) = []"
  shows "\<exists>pre secure. fst (smtp_session srv cfg f t m) =
    pre @ [Sent secure (MailFrom f), Sent secure (RcptTo t), Sent secure DataBegin, Sent secure (DataWrite m),
      Sent secure DataEnd, Sent secure QuitCommand]"
proof -
  have d: "fst (smtp_deliver srv secure f t m) = [Sent secure (MailFrom f), Sent secure (RcptTo t), Sent secure DataBegin,
      Sent secure (DataWrite m), Sent secure DataEnd, Sent secure QuitCommand]"
    if "snd (smtp_deliver srv secure f t m) = []" for secure
    using that by (auto simp: smtp_deliver_def split: if_splits)
  have a: "\<exists>pre. fst (smtp_authenticate srv cfg secure (smtp_deliver srv secure f t m)) =
      pre @ fst (smtp_deliver srv secure f t m) \<and> snd (smtp_deliver srv secure f t m) = []"
    if "snd (smtp_authenticate srv cfg secure (smtp_deliver srv secure f t m)) = []" for secure
    using that by (auto simp: smtp_authenticate_def split: if_splits)
  show ?thesis
  proof (cases "sc_Mode cfg = ModeSTARTTLS")
    case True
    then show ?thesis using assms a [of True] d [of True]
      by (auto simp: smtp_session_def Let_def split: if_splits)
  next
    case False
    then show ?thesis using assms a [of "sc_Mode cfg = ModeTLS"] d [of "sc_Mode cfg = ModeTLS"]
      by (auto simp: smtp_session_def Let_def split: if_splits)
  qed
qed

lemma mode_texts [simp]: "ModePlain \<noteq> ModeTLS" "ModePlain \<noteq> ModeSTARTTLS" "ModeTLS \<noteq> ModeSTARTTLS"
  by (simp_all add: ModePlain_def ModeTLS_def ModeSTARTTLS_def)

lemma Send_cases:
  assumes "Send lib srv cfg body now = (events, err)"
  shows "events = [] \<and> err \<noteq> [] \<or>
    (\<exists>f t m. mailbox lib (sc_From cfg) = Inr f \<and> mailbox lib (sc_To cfg) = Inr t \<and>
      BuildMessage lib (sc_From cfg) (sc_To cfg) Subject body now = Inr m \<and>
      (events = [Dialed (sc_Mode cfg = ModeTLS) (Smtp_Address cfg)] \<and> err \<noteq> [] \<or>
       events = Dialed (sc_Mode cfg = ModeTLS) (Smtp_Address cfg) # fst (smtp_session srv cfg f t m) @ [Closed] \<and>
       err = snd (smtp_session srv cfg f t m)))"
proof (cases "Smtp_Validate lib cfg = []")
  case True
  then obtain f t where ft: "mailbox lib (sc_From cfg) = Inr f" "mailbox lib (sc_To cfg) = Inr t"
    by (auto simp: Smtp_Validate_def split: sum.splits)
  show ?thesis
    using assms ft True
    by (cases "BuildMessage lib (sc_From cfg) (sc_To cfg) Subject body now")
      (auto simp: Send_def Let_def split: if_splits prod.splits)
qed (use assms in \<open>auto simp: Send_def\<close>)

text \<open>A mode in upper case passes the validation, and then sends like the plain mode.\<close>

lemma upper_case_mode:
  "Smtp_Validate lib (cfg\<lparr>sc_Mode := ''STARTTLS''\<rparr>) = Smtp_Validate lib (cfg\<lparr>sc_Mode := ModeSTARTTLS\<rparr>)"
  "Send lib srv (cfg\<lparr>sc_Mode := ''STARTTLS''\<rparr>) body now = Send lib srv (cfg\<lparr>sc_Mode := ModePlain\<rparr>) body now"
proof -
  have m: "ParseMode ''STARTTLS'' = Inr ModeSTARTTLS" "ParseMode ModeSTARTTLS = Inr ModeSTARTTLS"
    "ParseMode ModePlain = Inr ModePlain" by code_simp+
  show "Smtp_Validate lib (cfg\<lparr>sc_Mode := ''STARTTLS''\<rparr>) = Smtp_Validate lib (cfg\<lparr>sc_Mode := ModeSTARTTLS\<rparr>)"
    by (simp add: Smtp_Validate_def m)
  have p: "Smtp_Validate lib (cfg\<lparr>sc_Mode := ''STARTTLS''\<rparr>) = Smtp_Validate lib (cfg\<lparr>sc_Mode := ModePlain\<rparr>)"
    by (simp add: Smtp_Validate_def m)
  have n: "''STARTTLS'' \<noteq> ModeTLS" "''STARTTLS'' \<noteq> ModeSTARTTLS" by (simp_all add: ModeTLS_def ModeSTARTTLS_def)
  have S: "smtp_session srv (cfg\<lparr>sc_Mode := ''STARTTLS''\<rparr>) f t m = smtp_session srv (cfg\<lparr>sc_Mode := ModePlain\<rparr>) f t m"
    for f t m by (simp add: smtp_session_def smtp_authenticate_def n Let_def)
  show "Send lib srv (cfg\<lparr>sc_Mode := ''STARTTLS''\<rparr>) body now = Send lib srv (cfg\<lparr>sc_Mode := ModePlain\<rparr>) body now"
    unfolding Send_def p
    by (cases "BuildMessage lib (sc_From cfg) (sc_To cfg) Subject body now") (simp_all add: n S Smtp_Address_def Let_def)
qed

text \<open>
  C36. The diagnostic uses exactly the transport it is configured with. For a mode as \<open>ParseMode\<close>
  returns it, nothing but the greeting and the upgrade itself goes over an unencrypted channel
  unless the mode is plain; the credentials never do, except to the local host; there is one
  connection, to the configured address, and no other; and success means that the
  message built from the configuration was transmitted and the session ended in order.
  A mode in capitals, however, is valid but is delivered in clear like the plain mode.
\<close>

theorem smtp_transport_kept:
  "(Send lib srv cfg body now = (events, err) \<longrightarrow>
     (sc_Mode cfg = ModeTLS \<or> sc_Mode cfg = ModeSTARTTLS \<longrightarrow>
       (\<forall>c. Sent False c \<in> set events \<longrightarrow> c = StartTLS \<or> (\<exists>h. c = Helo h))) \<and>
     (sc_Mode cfg = ModeTLS \<longrightarrow> (\<forall>a. Dialed False a \<notin> set events)) \<and>
     (\<forall>b u p. Sent b (AuthPlain u p) \<in> set events \<longrightarrow> b \<or> is_localhost (sc_Host cfg)) \<and>
     filter (\<lambda>e. \<exists>b a. e = Dialed b a) events \<in>
       {[], [Dialed (sc_Mode cfg = ModeTLS) (Smtp_Address cfg)]} \<and>
     (err = [] \<longrightarrow> (\<exists>pre secure f t message. mailbox lib (sc_From cfg) = Inr f \<and> mailbox lib (sc_To cfg) = Inr t \<and>
       BuildMessage lib (sc_From cfg) (sc_To cfg) Subject body now = Inr message \<and>
       events = pre @ [Sent secure (MailFrom f), Sent secure (RcptTo t), Sent secure DataBegin,
         Sent secure (DataWrite message), Sent secure DataEnd, Sent secure QuitCommand, Closed]))) \<and>
   Smtp_Validate lib (cfg\<lparr>sc_Mode := ''STARTTLS''\<rparr>) = Smtp_Validate lib (cfg\<lparr>sc_Mode := ModeSTARTTLS\<rparr>) \<and>
   Send lib srv (cfg\<lparr>sc_Mode := ''STARTTLS''\<rparr>) body now = Send lib srv (cfg\<lparr>sc_Mode := ModePlain\<rparr>) body now"
proof (intro conjI impI)
  assume send: "Send lib srv cfg body now = (events, err)"
  note c = Send_cases [OF send]
  have sent: "\<exists>f t m. Sent b c \<in> set (fst (smtp_session srv cfg f t m))" if "Sent b c \<in> set events" for b c
    using c that by auto blast
  show "\<forall>c. Sent False c \<in> set events \<longrightarrow> c = StartTLS \<or> (\<exists>h. c = Helo h)"
    if "sc_Mode cfg = ModeTLS \<or> sc_Mode cfg = ModeSTARTTLS"
    using sent session_secure [of False] that unfolding greeting_def by blast
  show "\<forall>b u p. Sent b (AuthPlain u p) \<in> set events \<longrightarrow> b \<or> is_localhost (sc_Host cfg)"
    using sent session_secure by blast
  have none: "filter (\<lambda>e. \<exists>b a. e = Dialed b a) (fst (smtp_session srv cfg f t m)) = []" for f t m
    using session_sent [of _ srv cfg f t m] by (auto simp: filter_empty_conv)
  show "filter (\<lambda>e. \<exists>b a. e = Dialed b a) events \<in> {[], [Dialed (sc_Mode cfg = ModeTLS) (Smtp_Address cfg)]}"
    using c none by auto
  show "\<forall>a. Dialed False a \<notin> set events" if tls: "sc_Mode cfg = ModeTLS"
  proof (intro allI notI)
    fix a assume "Dialed False a \<in> set events"
    then obtain f t m where "Dialed False a \<in> set (fst (smtp_session srv cfg f t m))" using c tls by auto
    then show False using session_sent by blast
  qed
  show "\<exists>pre secure f t message. mailbox lib (sc_From cfg) = Inr f \<and> mailbox lib (sc_To cfg) = Inr t \<and>
    BuildMessage lib (sc_From cfg) (sc_To cfg) Subject body now = Inr message \<and>
    events = pre @ [Sent secure (MailFrom f), Sent secure (RcptTo t), Sent secure DataBegin,
      Sent secure (DataWrite message), Sent secure DataEnd, Sent secure QuitCommand, Closed]" if ok: "err = []"
  proof -
    obtain f t m where h: "mailbox lib (sc_From cfg) = Inr f" "mailbox lib (sc_To cfg) = Inr t"
      "BuildMessage lib (sc_From cfg) (sc_To cfg) Subject body now = Inr m"
      "events = Dialed (sc_Mode cfg = ModeTLS) (Smtp_Address cfg) # fst (smtp_session srv cfg f t m) @ [Closed]"
      "snd (smtp_session srv cfg f t m) = []" using c ok by auto
    then obtain pre secure where "events = (Dialed (sc_Mode cfg = ModeTLS) (Smtp_Address cfg) # pre) @
      [Sent secure (MailFrom f), Sent secure (RcptTo t), Sent secure DataBegin,
      Sent secure (DataWrite m), Sent secure DataEnd, Sent secure QuitCommand, Closed]"
      using session_ok [OF h(5)] by auto
    with h show ?thesis by blast
  qed
next
  show "Smtp_Validate lib (cfg\<lparr>sc_Mode := ''STARTTLS''\<rparr>) = Smtp_Validate lib (cfg\<lparr>sc_Mode := ModeSTARTTLS\<rparr>)"
    by (rule upper_case_mode(1))
  show "Send lib srv (cfg\<lparr>sc_Mode := ''STARTTLS''\<rparr>) body now = Send lib srv (cfg\<lparr>sc_Mode := ModePlain\<rparr>) body now"
    by (rule upper_case_mode(2))
qed

definition toy_mail :: mail_library where
  "toy_mail = \<lparr>ml_ParseAddress = (\<lambda>a. if containsNewline a then Inl ''bad'' else Inr ([], a)), ml_String = (\<lambda>(name, a). ''<'' @ a @ ''>''),
     ml_RFC1123Z = (\<lambda>t. ''today'')\<rparr>"

definition toy_server :: smtp_server where
  "toy_server = \<lparr>srv_dial = (\<lambda>b a. True), srv_extension = (\<lambda>b e. True), srv_accepts = (\<lambda>op. True)\<rparr>"

definition toy_smtp :: SmtpConfig where
  "toy_smtp = \<lparr>sc_Host = ''mx'', sc_Port = 25, sc_Mode = ModeSTARTTLS, sc_From = ''a@x'', sc_To = ''b@x'',
     sc_Username = ''u'', sc_Password = ''p'', sc_ClientHostname = [], sc_Timeout = 1\<rparr>"

theorem smtp_transport_kept_witness:
  "Sent False (MailFrom ''a@x'') \<notin> set (fst (Send toy_mail toy_server toy_smtp [] 0)) \<and>
   (\<exists>s. Sent s QuitCommand \<in> set (fst (Send toy_mail toy_server toy_smtp [] 0)))"
proof -
  have ok: "snd (Send toy_mail toy_server toy_smtp [] 0) = []" by code_simp
  have send: "Send toy_mail toy_server toy_smtp [] 0 = (fst (Send toy_mail toy_server toy_smtp [] 0), [])"
    by (simp only: prod_eq_iff fst_conv snd_conv ok)
  note kept = smtp_transport_kept [of toy_mail toy_server toy_smtp "[]" 0, THEN conjunct1, THEN mp, OF send]
  have "sc_Mode toy_smtp = ModeSTARTTLS" by (simp add: toy_smtp_def)
  then have "\<forall>c. Sent False c \<in> set (fst (Send toy_mail toy_server toy_smtp [] 0)) \<longrightarrow> c = StartTLS \<or> (\<exists>h. c = Helo h)"
    using kept by blast
  moreover obtain pre s f t m where "fst (Send toy_mail toy_server toy_smtp [] 0) =
      pre @ [Sent s (MailFrom f), Sent s (RcptTo t), Sent s DataBegin, Sent s (DataWrite m), Sent s DataEnd,
        Sent s QuitCommand, Closed]"
    using kept by blast
  then have "Sent s QuitCommand \<in> set (fst (Send toy_mail toy_server toy_smtp [] 0))" by simp
  ultimately show ?thesis by blast
qed

subsection \<open>Message text\<close>

text \<open>The lines of a text, with CRLF, CR and LF all ending a line, and a final end of line optional.\<close>

fun unify_newlines :: "string \<Rightarrow> string" where
  "unify_newlines [] = []"
| "unify_newlines [c] = [if c = CR then LF else c]"
| "unify_newlines (c # d # s) =
     (if c = CR then (if d = LF then LF # unify_newlines s else LF # unify_newlines (d # s))
      else c # unify_newlines (d # s))"

definition text_lines :: "string \<Rightarrow> string list" where
  "text_lines body =
     (let pieces = split_at LF (unify_newlines body) in
      if last pieces = [] \<and> 1 < length pieces then butlast pieces else pieces)"

lemma replace_one: "ReplaceAll s [c] v = concat (map (\<lambda>x. if x = c then v else [x]) s)"
proof -
  have "replace_from 0 s [c] v = concat (map (\<lambda>x. if x = c then v else [x]) s)"
    by (induction s) (simp_all add: HasPrefix_def)
  then show ?thesis by (simp add: ReplaceAll_def)
qed

lemma replace_crlf:
  "concat (map (\<lambda>x. if x = CR then [LF] else [x]) (replace_from 0 s CRLF [LF])) = unify_newlines s"
  by (induction s rule: unify_newlines.induct) (auto simp: HasPrefix_def)

lemma normalize_unify: "normalize_body body = concat (map (\<lambda>x. if x = LF then CRLF else [x]) (unify_newlines body))"
  using replace_crlf [of body] by (simp add: normalize_body_def replace_one ReplaceAll_def [of body])

lemma join_split: "join_with sep (split_at c s) = concat (map (\<lambda>x. if x = c then sep else [x]) s)"
proof (induction s)
  case (Cons d s)
  obtain t ts where "split_at c s = t # ts" by (cases "split_at c s") (cases s; simp split: list.splits if_splits)+
  then show ?case using Cons by (cases ts) auto
qed simp

lemma split_at_pieces: "split_at c s \<noteq> [] \<and> (\<forall>l \<in> set (split_at c s). c \<notin> set l \<and> set l \<subseteq> set s)"
proof (induction s)
  case (Cons d s)
  then show ?case by (cases "split_at c s") auto
qed simp

lemma unify_no_CR: "CR \<notin> set (unify_newlines s)"
  by (induction s rule: unify_newlines.induct) auto

lemma join_terminated: "ps \<noteq> [] \<Longrightarrow> join_with sep ps @ sep = concat (map (\<lambda>l. l @ sep) ps)"
  by (induction sep ps rule: join_with.induct) auto

lemma join_snoc_empty: "qs \<noteq> [] \<Longrightarrow> join_with sep (qs @ [[]]) = join_with sep qs @ sep"
  by (induction sep qs rule: join_with.induct) (auto simp: neq_Nil_conv)

lemma join_last: "ps \<noteq> [] \<Longrightarrow> last ps \<noteq> [] \<Longrightarrow> join_with sep ps \<noteq> [] \<and> last (join_with sep ps) = last (last ps)"
proof (induction sep ps rule: join_with.induct)
  case (3 sep t u ts)
  then have "join_with sep (u # ts) \<noteq> []" "last (join_with sep (u # ts)) = last (last (u # ts))" by simp_all
  then show ?case by simp
qed simp_all

lemma HasSuffix_last: "HasSuffix s u \<Longrightarrow> u \<noteq> [] \<Longrightarrow> s \<noteq> [] \<and> last s = last u"
  unfolding HasSuffix_iff by auto

lemma text_lines_clean: "l \<in> set (text_lines body) \<Longrightarrow> \<not> containsNewline l"
proof -
  assume "l \<in> set (text_lines body)"
  then have "l \<in> set (split_at LF (unify_newlines body))"
    by (auto simp: text_lines_def Let_def split: if_splits dest: in_set_butlastD)
  then show ?thesis using split_at_pieces [of LF "unify_newlines body"] unify_no_CR [of body]
    by (auto simp: containsNewline_def)
qed

lemma body_terminated:
  "normalize_body body @ (if HasSuffix (normalize_body body) CRLF then [] else CRLF) =
    concat (map (\<lambda>l. l @ CRLF) (text_lines body))"
proof -
  define ps where "ps = split_at LF (unify_newlines body)"
  have n: "normalize_body body = join_with CRLF ps" by (simp add: normalize_unify join_split ps_def)
  have ne: "ps \<noteq> []" and clean: "\<And>l. l \<in> set ps \<Longrightarrow> LF \<notin> set l"
    using split_at_pieces [of LF "unify_newlines body"] by (auto simp: ps_def)
  show ?thesis
  proof (cases "last ps = [] \<and> 1 < length ps")
    case True
    define qs where "qs = butlast ps"
    have q: "qs \<noteq> []" "ps = qs @ [[]]"
      using True ne append_butlast_last_id [OF ne] by (auto simp: qs_def length_butlast simp flip: length_greater_0_conv)
    have j: "join_with CRLF ps = join_with CRLF qs @ CRLF" unfolding q(2) by (rule join_snoc_empty [OF q(1)])
    then have "HasSuffix (join_with CRLF ps) CRLF" by (auto simp: HasSuffix_iff)
    moreover have "text_lines body = qs" using True by (simp add: text_lines_def ps_def [symmetric] qs_def Let_def)
    ultimately show ?thesis by (simp only: n if_True append_Nil2 j join_terminated [OF q(1)])
  next
    case False
    have "\<not> HasSuffix (join_with CRLF ps) CRLF"
    proof
      assume s: "HasSuffix (join_with CRLF ps) CRLF"
      show False
      proof (cases "last ps = []")
        case True
        then have "ps = [[]]" using False ne by (cases ps) auto
        then show False using HasSuffix_last [OF s] by simp
      next
        case l: False
        have "last (last ps) = LF" using join_last [OF ne l, of CRLF] HasSuffix_last [OF s] by simp
        then show False using clean [of "last ps"] ne l last_in_set by metis
      qed
    qed
    moreover have "text_lines body = ps" using False by (auto simp: text_lines_def ps_def [symmetric] Let_def)
    ultimately show ?thesis by (simp only: n if_False join_terminated [OF ne])
  qed
qed

text \<open>
  C37. A message that is built consists of lines that end with CRLF and contain no other CR or
  LF: the seven header fields, in order and each on one line, an empty line, and the lines of
  the body whatever its own line ends were. No address or subject can add a header
  or end the headers early, given that the printed form of a parsed address and the
  date have no line end in them.
\<close>

theorem message_has_no_injected_lines:
  assumes "\<forall>text address. ml_ParseAddress lib text = Inr address \<longrightarrow> \<not> containsNewline (ml_String lib address)"
    and "\<forall>t. \<not> containsNewline (ml_RFC1123Z lib t)"
    and "BuildMessage lib sender recipient subject body sentAt = Inr message"
  shows "\<exists>sndr rcpt. ml_ParseAddress lib sender = Inr sndr \<and> ml_ParseAddress lib recipient = Inr rcpt \<and>
    (let mail = [''Date: '' @ ml_RFC1123Z lib sentAt, ''From: '' @ ml_String lib sndr, ''To: '' @ ml_String lib rcpt,
           ''Subject: '' @ subject, ''MIME-Version: 1.0'', ''Content-Type: text/plain; charset=UTF-8'',
           ''Content-Transfer-Encoding: 8bit'', []] @ text_lines body
     in message = concat (map (\<lambda>l. l @ CRLF) mail) \<and> list_all (\<lambda>l. \<not> containsNewline l) mail)"
proof -
  obtain s r where a: "ml_ParseAddress lib sender = Inr s" "ml_ParseAddress lib recipient = Inr r"
    and sub: "\<not> containsNewline subject"
    and m: "message = ''Date: '' @ ml_RFC1123Z lib sentAt @ CRLF @ ''From: '' @ ml_String lib s @ CRLF @
      ''To: '' @ ml_String lib r @ CRLF @ ''Subject: '' @ subject @ CRLF @ ''MIME-Version: 1.0'' @ CRLF @
      ''Content-Type: text/plain; charset=UTF-8'' @ CRLF @ ''Content-Transfer-Encoding: 8bit'' @ CRLF @ CRLF @
      normalize_body body @ (if HasSuffix (normalize_body body) CRLF then [] else CRLF)"
    using assms(3) by (auto simp: BuildMessage_def Let_def split: if_splits sum.splits)
  have app: "containsNewline (u @ v) \<longleftrightarrow> containsNewline u \<or> containsNewline v" for u v
    by (auto simp: containsNewline_def)
  have lib: "\<not> containsNewline (ml_RFC1123Z lib sentAt)" "\<not> containsNewline (ml_String lib s)"
    "\<not> containsNewline (ml_String lib r)" using assms(1,2) a by blast+
  have body_ok: "list_all (\<lambda>l. \<not> containsNewline l) (text_lines body)"
    using text_lines_clean by (auto simp: list_all_iff)
  have lits: "\<not> containsNewline ''Date: ''" "\<not> containsNewline ''From: ''" "\<not> containsNewline ''To: ''"
    "\<not> containsNewline ''Subject: ''" "\<not> containsNewline ''MIME-Version: 1.0''" "\<not> containsNewline []"
    "\<not> containsNewline ''Content-Type: text/plain; charset=UTF-8''"
    "\<not> containsNewline ''Content-Transfer-Encoding: 8bit''" by (simp_all add: containsNewline_def)
  show ?thesis
    unfolding Let_def m body_terminated
    by (rule exI [of _ s], rule exI [of _ r], intro conjI a)
      (simp, simp only: list_all_append list.pred_inject app lib lits sub body_ok simp_thms)
qed

theorem message_has_no_injected_lines_witness:
  "text_lines [CHR ''h'', CR, CHR ''i'', CR, LF] = [''h'', ''i''] \<and>
   (\<exists>message. BuildMessage toy_mail ''a@x'' ''b@x'' Subject [CHR ''h'', CR, CHR ''i'', CR, LF] 0 = Inr message \<and>
     list_all (\<lambda>l. \<not> containsNewline l) [''Subject: '' @ Subject, ''h'', ''i''])"
proof -
  have t: "text_lines [CHR ''h'', CR, CHR ''i'', CR, LF] = [''h'', ''i'']" by code_simp
  have "isl (BuildMessage toy_mail ''a@x'' ''b@x'' Subject [CHR ''h'', CR, CHR ''i'', CR, LF] 0) = False" by code_simp
  then obtain message where b: "BuildMessage toy_mail ''a@x'' ''b@x'' Subject [CHR ''h'', CR, CHR ''i'', CR, LF] 0 = Inr message"
    by (cases "BuildMessage toy_mail ''a@x'' ''b@x'' Subject [CHR ''h'', CR, CHR ''i'', CR, LF] 0") auto
  have "\<forall>text address. ml_ParseAddress toy_mail text = Inr address \<longrightarrow> \<not> containsNewline (ml_String toy_mail address)"
    "\<forall>t. \<not> containsNewline (ml_RFC1123Z toy_mail t)" by (auto simp: toy_mail_def containsNewline_def split: if_splits)
  from message_has_no_injected_lines [OF this b] show ?thesis by (auto simp: t b Let_def)
qed

end
