(* ===== verification/Commands.thy ===== *)
theory Commands
  imports Migrate_Up Smtp
begin

text \<open>
  The commands \<open>cmd/pdf-migrate\<close> and \<open>cmd/mail-poc\<close> with the build identity of
  \<open>internal/version/version.go\<close>. The result of \<open>flag.Parse\<close> is an argument, a function of the command line;
  what a command prints is a list of lines. Signals and the deadlines of contexts appear as
  failing calls.
\<close>

definition version_Name :: string where "version_Name = ''go-pdf-forge''"
definition Version :: string where "Version = ''0.0.10''"

text \<open>The linker injects the commit and the date.\<close>

record build =
  Commit :: string
  BuildDate :: string

definition version_String :: "build \<Rightarrow> string" where
  "version_String b = version_Name @ '' v'' @ Version @ '' (commit '' @ Commit b @ '', built '' @ BuildDate b @ '')''"

definition asks_version :: "string list \<Rightarrow> bool" where
  "asks_version args \<longleftrightarrow> length args = 1 \<and> (hd args = ''--version'' \<or> hd args = ''-version'')"

subsection \<open>pdf-migrate\<close>

record migrate_flags =
  mf_up :: bool
  mf_list :: bool
  mf_check :: bool
  mf_version :: bool
  mf_Args :: "string list"

record 's migrate_world =
  mw_pools :: pg_state
  mw_db :: "'s migration_db"

text \<open>The libraries and the environment that the command calls.\<close>

record 's migrate_env =
  me_flags :: "string list \<Rightarrow> problem + migrate_flags"
  me_build :: build
  me_sum256 :: "string \<Rightarrow> bytes"
  me_source :: "migration_source option"
  me_environment :: environment
  me_lookup :: LookupEnv
  me_ParseConfig :: ParseConfig
  me_exec :: "'s exec"

definition list_line :: "Migration \<Rightarrow> string" where
  "list_line m = mg_Version m @ [CHR 0x09] @ mg_Name m @ [CHR 0x09] @ ChecksumHex m"

definition applied_line :: "Migration list \<Rightarrow> string" where
  "applied_line applied = ''applied '' @ FormatInt (int (length applied)) @ '' migration(s); current version '' @
     mg_Version (last applied)"

text \<open>The problems of the error, the lines printed, and the world after the call.\<close>

definition migrate_run ::
    "'s migrate_env \<Rightarrow> faults \<Rightarrow> instant \<Rightarrow> string list \<Rightarrow> 's migrate_world \<Rightarrow>
      problem list \<times> string list \<times> 's migrate_world" where
  "migrate_run env flt now args w =
     (if asks_version args then ([], [version_String (me_build env)], w)
      else case me_flags env args of
        Inl err \<Rightarrow> ([err], [], w)
      | Inr flags \<Rightarrow>
      if mf_Args flags \<noteq> [] then ([(''unexpected positional arguments: %v'', mf_Args flags)], [], w)
      else if mf_version flags then ([], [version_String (me_build env)], w)
      else if length (filter id [mf_up flags, mf_list flags, mf_check flags]) \<noteq> 1
        then ([(''choose exactly one operation: --list, --check, or --up'', [])], [], w)
      else case NewMigrator (me_sum256 env) (me_source env) ''.'' of
        Inl err \<Rightarrow> ([err], [], w)
      | Inr migrator \<Rightarrow>
      if mf_list flags then ([], map list_line (Migrations migrator), w)
      else let (databaseConfig, problems) = LoadDatabase (me_environment env) (Some (me_lookup env)) in
      if problems \<noteq> [] then (problems, [], w)
      else case Open (me_ParseConfig env) flt databaseConfig ''pdf-migrate'' (mw_pools w) of
        (Inl err, st) \<Rightarrow> (err, [], w\<lparr>mw_pools := st\<rparr>)
      | (Inr pool, st) \<Rightarrow>
      let closed = close_pool pool st in
      if mf_check flags then ([], [''database connection OK''], w\<lparr>mw_pools := closed\<rparr>)
      else let ((applied, err), db) = Up (me_exec env) flt now migrator (Some (mw_db w));
               w = w\<lparr>mw_pools := closed, mw_db := the db\<rparr> in
      case err of
        Some problem \<Rightarrow> ([problem], [], w)
      | None \<Rightarrow>
          if applied = [] then ([], [''database schema is already current''], w)
          else ([], [applied_line applied], w))"

subsection \<open>mail-poc\<close>

definition defaultBody :: string where
  "defaultBody = ''This message confirms that go-pdf-forge can reach and use the configured SMTP service.''"

definition Getenv :: "LookupEnv \<Rightarrow> string \<Rightarrow> string" where
  "Getenv lookup name = (case lookup name of None \<Rightarrow> [] | Some v \<Rightarrow> v)"

definition fromEnv :: "(string \<Rightarrow> 'v option) \<Rightarrow> LookupEnv \<Rightarrow> string \<Rightarrow> 'v \<Rightarrow> problem + 'v" where
  "fromEnv parse lookup name fallback =
     (let text = TrimSpace (Getenv lookup name) in
      if text = [] then Inr fallback
      else case parse text of None \<Rightarrow> Inl (''parse %s: %w'', [name, text]) | Some parsed \<Rightarrow> Inr parsed)"

definition intFromEnv :: "LookupEnv \<Rightarrow> string \<Rightarrow> int \<Rightarrow> problem + int" where
  "intFromEnv = fromEnv ParseInt"

definition durationFromEnv :: "environment \<Rightarrow> LookupEnv \<Rightarrow> string \<Rightarrow> duration \<Rightarrow> problem + duration" where
  "durationFromEnv env = fromEnv (ParseDuration (env_frac env))"

definition valueOrDefault :: "string \<Rightarrow> string \<Rightarrow> string" where
  "valueOrDefault v fallback = (if TrimSpace v = [] then fallback else v)"

record mail_flags =
  sf_host :: string
  sf_port :: int
  sf_mode :: string
  sf_from :: string
  sf_to :: string
  sf_username :: string
  sf_client_hostname :: string
  sf_timeout :: duration
  sf_dry_run :: bool
  sf_version :: bool
  sf_Args :: "string list"

text \<open>The defaults of the flags, from the environment.\<close>

definition mail_defaults :: "LookupEnv \<Rightarrow> int \<Rightarrow> duration \<Rightarrow> mail_flags" where
  "mail_defaults lookup port timeout =
     \<lparr>sf_host = Getenv lookup ''SMTP_HOST'', sf_port = port,
      sf_mode = valueOrDefault (Getenv lookup ''SMTP_MODE'') ''plain'', sf_from = Getenv lookup ''SMTP_FROM'', sf_to = [],
      sf_username = Getenv lookup ''SMTP_USERNAME'', sf_client_hostname = Getenv lookup ''SMTP_CLIENT_HOSTNAME'',
      sf_timeout = timeout, sf_dry_run = False, sf_version = False, sf_Args = []\<rparr>"

record mail_env =
  mv_flags :: "mail_flags \<Rightarrow> string list \<Rightarrow> problem + mail_flags"
  mv_build :: build
  mv_environment :: environment
  mv_lookup :: LookupEnv
  mv_mail :: mail_library
  mv_server :: smtp_server

definition mail_config :: "mail_env \<Rightarrow> mail_flags \<Rightarrow> string \<Rightarrow> SmtpConfig" where
  "mail_config env flags mode =
     \<lparr>sc_Host = sf_host flags, sc_Port = sf_port flags, sc_Mode = mode, sc_From = sf_from flags, sc_To = sf_to flags,
      sc_Username = sf_username flags, sc_Password = Getenv (mv_lookup env) ''SMTP_PASSWORD'',
      sc_ClientHostname = sf_client_hostname flags, sc_Timeout = sf_timeout flags\<rparr>"

definition mail_summary :: "SmtpConfig \<Rightarrow> string list" where
  "mail_summary cfg =
     [''SMTP server: '' @ Smtp_Address cfg, ''SMTP mode: '' @ sc_Mode cfg,
      ''SMTP authentication: '' @ (if sc_Username cfg \<noteq> [] then ''true'' else ''false''),
      ''From: '' @ sc_From cfg, ''Recipient: '' @ sc_To cfg]"

text \<open>The problems of the error, the lines printed, and the events of the network.\<close>

definition mail_run :: "mail_env \<Rightarrow> instant \<Rightarrow> string list \<Rightarrow> problem list \<times> string list \<times> smtp_event list" where
  "mail_run env now args =
     (if asks_version args then ([], [version_String (mv_build env)], [])
      else case intFromEnv (mv_lookup env) ''SMTP_PORT'' 25 of
        Inl err \<Rightarrow> ([err], [], [])
      | Inr defaultPort \<Rightarrow>
      (case durationFromEnv (mv_environment env) (mv_lookup env) ''SMTP_TIMEOUT'' (10 * Second) of
        Inl err \<Rightarrow> ([err], [], [])
      | Inr defaultTimeout \<Rightarrow>
      (case mv_flags env (mail_defaults (mv_lookup env) defaultPort defaultTimeout) args of
        Inl err \<Rightarrow> ([err], [], [])
      | Inr flags \<Rightarrow>
      if sf_Args flags \<noteq> [] then ([(''unexpected positional arguments: %s'', sf_Args flags)], [], [])
      else if sf_version flags then ([], [version_String (mv_build env)], [])
      else case ParseMode (sf_mode flags) of
        Inl err \<Rightarrow> ([err], [], [])
      | Inr mode \<Rightarrow>
      let cfg = mail_config env flags mode in
      if Smtp_Validate (mv_mail env) cfg \<noteq> [] then (Smtp_Validate (mv_mail env) cfg, [], [])
      else if sf_dry_run flags
        then ([], mail_summary cfg @ [''Result: configuration valid; message not sent (dry-run)''], [])
      else let (events, err) = Send (mv_mail env) (mv_server env) cfg defaultBody now in
        if err \<noteq> [] then (err, mail_summary cfg, events)
        else ([], mail_summary cfg @ [''Result: message accepted by SMTP server''], events))))"

subsection \<open>Test environments\<close>

text \<open>
  \<open>internal/testpostgres\<close>: a test schema with every embedded migration applied. The fresh schema has no
  ledger and nothing else in it, \<open>blank\<close>.
\<close>

record test_environment =
  te_Pool :: nat
  te_schema :: TestSchema

definition closeTestSchema :: "faults \<Rightarrow> TestSchema \<Rightarrow> pg_state \<Rightarrow> pg_state" where
  "closeTestSchema flt schema st = snd (snd (TestSchema_Close flt (Some schema) st))"

definition testpostgres_Open ::
    "'s migrate_env \<Rightarrow> faults \<Rightarrow> bytes option \<Rightarrow> 's \<Rightarrow> instant \<Rightarrow> Database \<Rightarrow> string \<Rightarrow> pg_state \<Rightarrow>
      (problem list + test_environment \<times> 's migration_db) \<times> pg_state" where
  "testpostgres_Open env flt random blank now settings component st =
     (case OpenTestSchema (me_ParseConfig env) flt random settings component st of
        (Inl err, st) \<Rightarrow> (Inl err, st)
      | (Inr schema, st) \<Rightarrow>
      (case NewMigrator (me_sum256 env) (me_source env) ''.'' of
        Inl err \<Rightarrow> (Inl [err], closeTestSchema flt schema st)
      | Inr migrator \<Rightarrow>
      (case Up (me_exec env) flt now migrator (Some \<lparr>schema_migration = None, objects = blank\<rparr>) of
        ((applied, Some err), db) \<Rightarrow> (Inl [err], closeTestSchema flt schema st)
      | ((applied, None), db) \<Rightarrow>
          (Inr (\<lparr>te_Pool = ts_Pool schema, te_schema = schema\<rparr>, the db), st))))"

definition testpostgres_Close ::
    "faults \<Rightarrow> test_environment option \<Rightarrow> pg_state \<Rightarrow> problem list \<times> test_environment option \<times> pg_state" where
  "testpostgres_Close flt environment st =
     (case environment of
        None \<Rightarrow> ([], None, st)
      | Some e \<Rightarrow>
          let (err, schema, st) = TestSchema_Close flt (Some (te_schema e)) st
          in (err, Some (e\<lparr>te_schema := the schema\<rparr>), st))"

subsection \<open>What the commands do\<close>

lemma one_operation: "length (filter id [a, b, c]) = 1 \<longleftrightarrow> (a \<and> \<not> b \<and> \<not> c) \<or> (\<not> a \<and> b \<and> \<not> c) \<or> (\<not> a \<and> \<not> b \<and> c)"
  by auto

lemma closed_after_open:
  assumes "pools_numbered st" and "Open parse flt settings component st = (Inr pool, st')"
  shows "pg_open (close_pool pool st') = pg_open st"
proof -
  have "pool = pg_next st"
    using assms(2) by (auto simp: Open_def open_pool_def Let_def split: sum.splits if_splits)
  moreover obtain config where "pg_open st' = (pool, config) # pg_open st" using Open_pools [OF assms] by auto
  ultimately show ?thesis using numbered_filter [OF assms(1), of pool] by simp
qed

text \<open>A run either stops before it opens a pool, or opens one and then checks or migrates.\<close>

definition migrate_opened ::
    "'s migrate_env \<Rightarrow> faults \<Rightarrow> instant \<Rightarrow> 's migrate_world \<Rightarrow> migrate_flags \<Rightarrow> Migrator \<Rightarrow> problem list \<Rightarrow>
      's migrate_world \<Rightarrow> bool" where
  "migrate_opened env flt now w flags migrator err w' \<longleftrightarrow>
     (let (r, st) = Open (me_ParseConfig env) flt (fst (LoadDatabase (me_environment env) (Some (me_lookup env))))
        ''pdf-migrate'' (mw_pools w) in
      case r of
        Inl e \<Rightarrow> err = e \<and> w' = w\<lparr>mw_pools := st\<rparr>
      | Inr pool \<Rightarrow>
          if mf_check flags then w' = w\<lparr>mw_pools := close_pool pool st\<rparr>
          else let ((applied, e), db) = Up (me_exec env) flt now migrator (Some (mw_db w)) in
            mf_up flags \<and> w' = w\<lparr>mw_pools := close_pool pool st, mw_db := the db\<rparr> \<and> (e = None \<longleftrightarrow> err = []))"

lemma migrate_run_cases:
  assumes "migrate_run env flt now args w = (err, out, w')"
  shows "w' = w \<and> (\<forall>flags. \<not> asks_version args \<and> me_flags env args = Inr flags \<and> mf_up flags \<and> \<not> mf_version flags \<longrightarrow>
      err \<noteq> []) \<or>
    (\<exists>flags migrator. me_flags env args = Inr flags \<and> (mf_up flags \<longrightarrow> \<not> mf_list flags \<and> \<not> mf_check flags) \<and>
      NewMigrator (me_sum256 env) (me_source env) ''.'' = Inr migrator \<and>
      migrate_opened env flt now w flags migrator err w')"
proof (cases "asks_version args \<or> (\<exists>e. me_flags env args = Inl e)")
  case True
  then show ?thesis using assms by (intro disjI1) (auto simp: migrate_run_def split: if_splits)
next
  case False
  then obtain flags where flags: "me_flags env args = Inr flags" by (cases "me_flags env args") auto
  note run = assms [unfolded migrate_run_def flags sum.case]
  show ?thesis
  proof (cases "mf_Args flags \<noteq> [] \<or> mf_version flags \<or> length (filter id [mf_up flags, mf_list flags, mf_check flags]) \<noteq> 1
      \<or> (\<exists>e. NewMigrator (me_sum256 env) (me_source env) ''.'' = Inl e) \<or> mf_list flags
      \<or> snd (LoadDatabase (me_environment env) (Some (me_lookup env))) \<noteq> []")
    case True
    then show ?thesis
      using run False flags by (intro disjI1) (auto simp: case_prod_unfold Let_def split: if_splits sum.splits)
  next
    case go: False
    then obtain migrator where m: "NewMigrator (me_sum256 env) (me_source env) ''.'' = Inr migrator"
      by (cases "NewMigrator (me_sum256 env) (me_source env) ''.''") auto
    have "(mf_up flags \<longrightarrow> \<not> mf_list flags \<and> \<not> mf_check flags) \<and> migrate_opened env flt now w flags migrator err w'"
      using run False go m
      by (auto simp: migrate_opened_def case_prod_unfold Let_def one_operation split: if_splits sum.splits option.splits)
    then show ?thesis using flags m by blast
  qed
qed

text \<open>
  C38. \<open>pdf-migrate\<close> closes every pool it opens; it touches the schema only when \<open>--up\<close> is the one
  operation asked for, and then, whatever fails, it leaves the database as it was or takes
  it from exactly the first \<open>k\<close> embedded migrations to all of them; and when it reports
  success for \<open>--up\<close> the database has them all.
\<close>

theorem migrate_command_effects:
  assumes "pools_numbered (mw_pools w)" and "\<forall>c. length (me_sum256 env c) = 32"
    and "distinct (map sm_version (ledger_rows (mw_db w)))"
    and "migrate_run env flt now args w = (err, out, w')"
  shows "pg_open (mw_pools w') = pg_open (mw_pools w) \<and>
    (mw_db w' \<noteq> mw_db w \<longrightarrow>
      (\<exists>flags migrator k. me_flags env args = Inr flags \<and> mf_up flags \<and> \<not> mf_list flags \<and> \<not> mf_check flags \<and>
        NewMigrator (me_sum256 env) (me_source env) ''.'' = Inr migrator \<and>
        migrated (me_exec env) now (mr_migrations migrator) k (mw_db w) (mw_db w'))) \<and>
    (\<forall>flags. \<not> asks_version args \<and> me_flags env args = Inr flags \<and> mf_up flags \<and> \<not> mf_version flags \<and> err = [] \<longrightarrow>
      (\<exists>migrator. NewMigrator (me_sum256 env) (me_source env) ''.'' = Inr migrator \<and>
        has_applied (mr_migrations migrator) (length (mr_migrations migrator)) (mw_db w')))"
  using migrate_run_cases [OF assms(4)]
proof (elim disjE exE conjE)
  fix flags migrator
  assume flags: "me_flags env args = Inr flags" "mf_up flags \<longrightarrow> \<not> mf_list flags \<and> \<not> mf_check flags"
    and m: "NewMigrator (me_sum256 env) (me_source env) ''.'' = Inr migrator"
    and opened: "migrate_opened env flt now w flags migrator err w'"
  have ms: "well_versioned (mr_migrations migrator)" using NewMigrator_versioned m assms(2) by blast
  obtain r st where o: "Open (me_ParseConfig env) flt (fst (LoadDatabase (me_environment env) (Some (me_lookup env))))
      ''pdf-migrate'' (mw_pools w) = (r, st)" by fastforce
  obtain applied e d' where up: "Up (me_exec env) flt now migrator (Some (mw_db w)) = ((applied, e), Some d')"
    using Up_db by (metis surj_pair)
  note opened = opened [unfolded migrate_opened_def o up Let_def prod.case]
  have pools: "pg_open (mw_pools w') = pg_open (mw_pools w)"
  proof (cases r)
    case (Inl e)
    then show ?thesis using opened Open_pools [OF assms(1) o] by simp
  next
    case (Inr pool)
    have "mw_pools w' = close_pool pool st" using opened Inr by (auto split: if_splits)
    then show ?thesis using closed_after_open [OF assms(1) o [unfolded Inr]] by (simp only:)
  qed
  have all: "migrated (me_exec env) now (mr_migrations migrator) k (mw_db w) d' \<Longrightarrow>
      has_applied (mr_migrations migrator) (length (mr_migrations migrator)) d'" for k
    by (rule migrated_done)
  show ?thesis
  proof (cases r)
    case (Inl e)
    then show ?thesis using opened pools flags Open_pools [OF assms(1) o] by auto
  next
    case (Inr pool)
    have c: "mw_db w' = mw_db w \<and> mf_check flags \<or> mf_up flags \<and> mw_db w' = d' \<and> (e = None \<longleftrightarrow> err = [])"
      using opened Inr by (auto split: if_splits)
    show ?thesis
    proof (intro conjI impI allI pools)
      show "\<exists>flags migrator k. me_flags env args = Inr flags \<and> mf_up flags \<and> \<not> mf_list flags \<and> \<not> mf_check flags \<and>
        NewMigrator (me_sum256 env) (me_source env) ''.'' = Inr migrator \<and>
        migrated (me_exec env) now (mr_migrations migrator) k (mw_db w) (mw_db w')" if "mw_db w' \<noteq> mw_db w"
        using that c flags m Up_cases [OF ms assms(3) up] by blast
    next
      fix flags'
      assume f: "\<not> asks_version args \<and> me_flags env args = Inr flags' \<and> mf_up flags' \<and> \<not> mf_version flags' \<and> err = []"
      then have "mf_up flags" using flags(1) by simp
      then have "mw_db w' = d' \<and> e = None" using c flags(2) f by blast
      then show "\<exists>migrator. NewMigrator (me_sum256 env) (me_source env) ''.'' = Inr migrator \<and>
        has_applied (mr_migrations migrator) (length (mr_migrations migrator)) (mw_db w')"
        using m Up_cases [OF ms assms(3) up] all by blast
    qed
  qed
qed auto

definition toy_migrate_env :: "string list migrate_env" where
  "toy_migrate_env = \<lparr>me_flags = (\<lambda>args. Inr \<lparr>mf_up = True, mf_list = False, mf_check = False, mf_version = False, mf_Args = []\<rparr>),
     me_build = \<lparr>Commit = ''dev'', BuildDate = ''unknown''\<rparr>, me_sum256 = toy_sum, me_source = Some toy_source,
     me_environment = toy_environment, me_lookup = [''DB_PASSWORD'' \<mapsto> ''p''],
     me_ParseConfig = (\<lambda>url. Some \<lparr>pc_URL = url, pc_ConnectTimeout = 0, pc_RuntimeParams = [], pc_MaxConns = 0, pc_MinConns = 0,
       pc_MaxConnLifetime = 0, pc_MaxConnIdleTime = 0, pc_HealthCheckPeriod = 0, pc_PingTimeout = 0\<rparr>),
     me_exec = toy_exec\<rparr>"

definition toy_world :: "string list migrate_world" where
  "toy_world = \<lparr>mw_pools = \<lparr>pg_open = [], pg_next = 0, pg_schemas = []\<rparr>, mw_db = toy_fresh\<rparr>"

abbreviation toy_migrate_run where
  "toy_migrate_run \<equiv> migrate_run toy_migrate_env (\<lambda>_. Call_Ok) 5000 [''--up''] toy_world"

lemma toy_database:
  "snd (LoadDatabase toy_environment (Some [''DB_PASSWORD'' \<mapsto> ''p''])) = []"
  "Database_validate (fst (LoadDatabase toy_environment (Some [''DB_PASSWORD'' \<mapsto> ''p'']))) = []"
  "db_MaxConnections (fst (LoadDatabase toy_environment (Some [''DB_PASSWORD'' \<mapsto> ''p'']))) = 10"
  "db_MinConnections (fst (LoadDatabase toy_environment (Some [''DB_PASSWORD'' \<mapsto> ''p'']))) = 0"
  by code_simp+

lemma toy_migrate_ok: "fst toy_migrate_run = []"
proof -
  have n: "NewMigrator toy_sum (Some toy_source) ''.'' = Inr \<lparr>mr_migrations = toy_migrations\<rparr>"
    using toy_migrator by (simp add: NewMigrator_def LoadMigrations_def)
  show ?thesis
    using toy_database toy_up
    by (simp add: migrate_run_def toy_migrate_env_def toy_world_def asks_version_def n Open_def buildPoolConfig_def
      case_prod_unfold Let_def)
qed

theorem migrate_command_effects_witness:
  "pg_open (mw_pools (snd (snd toy_migrate_run))) = [] \<and>
   (\<exists>migrator. NewMigrator toy_sum (Some toy_source) ''.'' = Inr migrator \<and>
     has_applied (mr_migrations migrator) (length (mr_migrations migrator)) (mw_db (snd (snd toy_migrate_run))))"
proof -
  have run: "toy_migrate_run = ([], fst (snd toy_migrate_run), snd (snd toy_migrate_run))"
    by (simp only: prod_eq_iff fst_conv snd_conv toy_migrate_ok)
  have h: "pools_numbered (mw_pools toy_world)" "\<forall>c. length (me_sum256 toy_migrate_env c) = 32"
    "distinct (map sm_version (ledger_rows (mw_db toy_world)))"
    by (simp_all add: pools_numbered_def toy_world_def toy_migrate_env_def toy_sum_def ledger_rows_def toy_fresh_def)
  have e: "pg_open (mw_pools toy_world) = []" "me_sum256 toy_migrate_env = toy_sum" "me_source toy_migrate_env = Some toy_source"
    "\<not> asks_version [''--up'']"
    "me_flags toy_migrate_env [''--up''] = Inr \<lparr>mf_up = True, mf_list = False, mf_check = False, mf_version = False, mf_Args = []\<rparr>"
    by (simp_all add: toy_world_def toy_migrate_env_def asks_version_def)
  note effects = migrate_command_effects [OF h run]
  have "pg_open (mw_pools (snd (snd toy_migrate_run))) = []" by (rule trans [OF conjunct1 [OF effects] e(1)])
  moreover have "\<exists>migrator. NewMigrator (me_sum256 toy_migrate_env) (me_source toy_migrate_env) ''.'' = Inr migrator \<and>
    has_applied (mr_migrations migrator) (length (mr_migrations migrator)) (mw_db (snd (snd toy_migrate_run)))"
    by (rule conjunct2 [OF conjunct2 [OF effects], THEN spec, THEN mp], intro conjI, rule e(4), rule e(5)) simp_all
  ultimately show ?thesis unfolding e(2,3) by blast
qed

text \<open>
  \<open>mail-poc\<close> reads the mode of the transport as \<open>ParseMode\<close> does, so that its deliveries keep the
  transport whatever the spelling of the mode.
\<close>

lemma mail_command_keeps_transport:
  assumes "mail_run env now args = (err, out, events)" and "events \<noteq> []"
  shows "\<exists>flags mode port timeout. mv_flags env (mail_defaults (mv_lookup env) port timeout) args = Inr flags \<and>
    ParseMode (sf_mode flags) = Inr mode \<and>
    (mode = ModePlain \<or> (\<forall>c. Sent False c \<in> set events \<longrightarrow> greeting c))"
proof -
  obtain flags mode port timeout where m: "ParseMode (sf_mode flags) = Inr mode"
    and parsed: "mv_flags env (mail_defaults (mv_lookup env) port timeout) args = Inr flags"
    and send: "events = fst (Send (mv_mail env) (mv_server env) (mail_config env flags mode) defaultBody now)"
    using assms by (auto simp: mail_run_def Let_def case_prod_unfold split: if_splits sum.splits)
  have modes: "mode \<in> {ModePlain, ModeSTARTTLS, ModeTLS}" using m by (auto simp: ParseMode_def Let_def split: if_splits)
  have c: "sc_Mode (mail_config env flags mode) = mode" by (simp add: mail_config_def)
  have "greeting c" if clear: "Sent False c \<in> set events" and mode: "mode \<noteq> ModePlain" for c
  proof -
    obtain err where s: "Send (mv_mail env) (mv_server env) (mail_config env flags mode) defaultBody now = (events, err)"
      using send by (metis prod.collapse)
    then obtain f t m where "Sent False c \<in> set (fst (smtp_session (mv_server env) (mail_config env flags mode) f t m))"
      using Send_cases [OF s] clear by auto
    from session_secure [OF this] show ?thesis using modes mode by (auto simp: c)
  qed
  with m parsed show ?thesis by blast
qed

end
