(* ===== verification/Doccheck.thy ===== *)
theory Doccheck
  imports Config Substrings "HOL-Library.AList"
begin

text \<open>
  The documentation checker, \<open>cmd/doccheck/main.go\<close>. Files are the strings of their bytes; reading
  a file, the list of files that git gives, the flags and the syntax tree of a Go file are
  arguments, the tree with the parts that the checker looks at. The iteration over a map is
  the order in which its entries were made: \<open>run\<close> sorts the findings.
\<close>

record finding =
  fi_path :: string
  fi_line :: nat
  fi_message :: string

definition finding_String :: "finding \<Rightarrow> string" where
  "finding_String item =
     (if fi_line item > 0 then fi_path item @ '':'' @ decimal (fi_line item) @ '': '' @ fi_message item
      else fi_path item @ '': '' @ fi_message item)"

definition sortFindings :: "finding list \<Rightarrow> finding list" where
  "sortFindings = sort_key (\<lambda>f. (fi_path f, fi_line f, fi_message f))"

subsection \<open>The atlas\<close>

text \<open>
  \<open>bufio.Scanner\<close>: lines end with a line feed, which is optional at the end of the text, and lose
  one carriage return; a line that does not fit the buffer of 64 KiB is an error.
\<close>

definition maxScanTokenSize :: nat where "maxScanTokenSize = 65536"

definition drop_CR :: "string \<Rightarrow> string" where
  "drop_CR line = (if line \<noteq> [] \<and> last line = CHR 0x0D then butlast line else line)"

definition raw_lines :: "string \<Rightarrow> string list" where
  "raw_lines content = (let ls = split_at (CHR 0x0A) content in if last ls = [] then butlast ls else ls)"

definition scan_lines :: "string \<Rightarrow> string list option" where
  "scan_lines content =
     (if list_all (\<lambda>l. length l < maxScanTokenSize) (raw_lines content) then Some (map drop_CR (raw_lines content))
      else None)"

definition em_dash :: string where "em_dash = [CHR 0xE2, CHR 0x80, CHR 0x94]"

text \<open>The submatches of \<open>^- `([^`]+)` \<dots> (.+)$\<close>, with an em dash between them.\<close>

definition atlasEntryPattern :: "string \<Rightarrow> (string \<times> string) option" where
  "atlasEntryPattern line =
     (let path = takeWhile (\<lambda>c. c \<noteq> CHR ''`'') (drop 3 line);
          rest = drop (3 + length path) line; sep = ''` '' @ em_dash @ '' '' in
      if HasPrefix line ''- `'' \<and> path \<noteq> [] \<and> HasPrefix rest sep \<and> drop (length sep) rest \<noteq> []
        then Some (path, drop (length sep) rest) else None)"

text \<open>The submatch of \<open>^Version suivie : **v([0-9]+.[0-9]+.[0-9]+)**.$\<close>, stars and dots literal.\<close>

definition after_number :: "string \<Rightarrow> string option" where
  "after_number s = (if takeWhile is_digit s = [] then None else Some (dropWhile is_digit s))"

definition after_dot :: "string \<Rightarrow> string option" where
  "after_dot s = (if HasPrefix s ''.'' then Some (drop 1 s) else None)"

definition atlasVersionPattern :: "string \<Rightarrow> string option" where
  "atlasVersionPattern line =
     (let start = ''Version suivie : **v''; s = drop (length start) line in
      if \<not> HasPrefix line start then None
      else case Option.bind (after_number s) (\<lambda>s. Option.bind (after_dot s) (\<lambda>s. Option.bind (after_number s) (\<lambda>s.
          Option.bind (after_dot s) after_number))) of
        None \<Rightarrow> None
      | Some rest \<Rightarrow> if rest = ''**.'' then Some (take (length s - length rest) s) else None)"

definition canonical_path :: "string \<Rightarrow> bool" where
  "canonical_path path \<longleftrightarrow> path \<noteq> ''.'' \<and> \<not> HasPrefix path ''../'' \<and> path_Clean path = path"

text \<open>The entries and the version seen so far, and the findings, over the numbered lines.\<close>

fun atlas_loop ::
    "string \<Rightarrow> nat \<Rightarrow> string list \<Rightarrow> (string \<times> nat) list \<Rightarrow> string \<Rightarrow> finding list \<Rightarrow>
      (string \<times> nat) list \<times> string \<times> finding list" where
  "atlas_loop atlasPath lineNumber [] entries atlasVersion findings = (entries, atlasVersion, findings)"
| "atlas_loop atlasPath lineNumber (line # lines) entries atlasVersion findings =
     (let version = (case atlasVersionPattern line of None \<Rightarrow> atlasVersion | Some v \<Rightarrow> v);
          found = (\<lambda>message. atlas_loop atlasPath (Suc lineNumber) lines entries version
            (findings @ [\<lparr>fi_path = atlasPath, fi_line = lineNumber, fi_message = message\<rparr>])) in
      if HasPrefix line ''- `'' then
        (case atlasEntryPattern line of
           None \<Rightarrow> found (''invalid atlas entry; want - `path` '' @ em_dash @ '' description'')
         | Some (path, description) \<Rightarrow>
             if TrimSpace description = [] then found ''atlas entry needs a non-empty description''
             else if \<not> canonical_path path
               then found ''atlas entry path must be a canonical repository-relative path''
             else (case map_of entries path of
                 Some previous \<Rightarrow> found (''duplicate entry for '' @ path @ '' (first declared at line '' @
                   decimal previous @ '')'')
               | None \<Rightarrow> atlas_loop atlasPath (Suc lineNumber) lines (entries @ [(path, lineNumber)]) version findings))
      else atlas_loop atlasPath (Suc lineNumber) lines entries version findings)"

definition checkAtlas ::
    "(string \<Rightarrow> string option) \<Rightarrow> (string \<Rightarrow> problem + string) \<Rightarrow> string list \<Rightarrow> string \<Rightarrow> problem + finding list" where
  "checkAtlas read sourceVersion files atlasPath =
     (case read atlasPath of
        None \<Rightarrow> Inl (''read atlas: %w'', [])
      | Some content \<Rightarrow>
      (case sourceVersion ''internal/version/version.go'' of
        Inl err \<Rightarrow> Inl err
      | Inr version \<Rightarrow>
      (case scan_lines content of
        None \<Rightarrow> Inl (''scan atlas: %w'', [])
      | Some lines \<Rightarrow>
          let (entries, atlasVersion, findings) = atlas_loop atlasPath 1 lines [] [] [];
              note = (\<lambda>message. \<lparr>fi_path = atlasPath, fi_line = 0, fi_message = message\<rparr>) in
          Inr (findings @
            (if atlasVersion = [] then [note ''missing tracked version banner'']
             else if atlasVersion \<noteq> version
               then [note (''tracks v'' @ atlasVersion @ '', want v'' @ version)] else []) @
            map (\<lambda>path. note (''missing entry for '' @ path)) (filter (\<lambda>path. map_of entries path = None) files) @
            map (\<lambda>(path, line). \<lparr>fi_path = atlasPath, fi_line = line, fi_message = ''stale entry for '' @ path\<rparr>)
              (filter (\<lambda>(path, line). path \<notin> set files) entries)))))"

subsection \<open>An atlas without findings\<close>

text \<open>The path of an acceptable entry line, the entry lines of a text, and its last version banner.\<close>

definition entry_path :: "string \<Rightarrow> string option" where
  "entry_path line = (case atlasEntryPattern line of
     None \<Rightarrow> None
   | Some (path, description) \<Rightarrow> if TrimSpace description \<noteq> [] \<and> canonical_path path then Some path else None)"

definition entry_lines :: "string list \<Rightarrow> string list" where
  "entry_lines lines = filter (\<lambda>line. HasPrefix line ''- `'') lines"

definition tracked_version :: "string list \<Rightarrow> string" where
  "tracked_version lines = foldl (\<lambda>v line. case atlasVersionPattern line of None \<Rightarrow> v | Some w \<Rightarrow> w) [] lines"

definition line_version :: "string \<Rightarrow> string \<Rightarrow> string" where
  "line_version v line = (case atlasVersionPattern line of None \<Rightarrow> v | Some w \<Rightarrow> w)"

lemma tracked_version_foldl: "tracked_version lines = foldl line_version [] lines"
  unfolding tracked_version_def line_version_def by simp

lemma atlas_loop_other:
  "\<not> HasPrefix line ''- `'' \<Longrightarrow>
    atlas_loop a n (line # lines) es v fs = atlas_loop a (Suc n) lines es (line_version v line) fs"
  by (simp add: line_version_def)

lemma atlas_loop_entry:
  assumes "HasPrefix line ''- `''" and "entry_path line = Some p" and "map_of es p = None"
  shows "atlas_loop a n (line # lines) es v fs = atlas_loop a (Suc n) lines (es @ [(p, n)]) (line_version v line) fs"
proof -
  obtain d where "atlasEntryPattern line = Some (p, d)" "TrimSpace d \<noteq> []" "canonical_path p"
    using assms(2) by (auto simp: entry_path_def split: option.splits if_splits)
  then show ?thesis using assms(1,3) by (simp add: line_version_def)
qed

lemma atlas_loop_bad:
  assumes "HasPrefix line ''- `''" and "\<not> (\<exists>p. entry_path line = Some p \<and> map_of es p = None)"
  shows "\<exists>f. atlas_loop a n (line # lines) es v fs = atlas_loop a (Suc n) lines es (line_version v line) (fs @ [f])"
proof (cases "atlasEntryPattern line")
  case None
  then show ?thesis using assms(1) by (auto simp: line_version_def)
next
  case (Some pd)
  obtain p d where pd: "pd = (p, d)" by (cases pd)
  have "map_of es p \<noteq> None" if "TrimSpace d \<noteq> []" "canonical_path p"
    using assms(2) that Some pd by (auto simp: entry_path_def)
  then consider (blank) "TrimSpace d = []" | (path) "TrimSpace d \<noteq> []" "\<not> canonical_path p"
    | (again) l where "TrimSpace d \<noteq> []" "canonical_path p" "map_of es p = Some l" by blast
  then show ?thesis
    by cases (use assms(1) Some pd in \<open>auto simp: line_version_def Let_def\<close>)
qed

lemma atlas_loop_version: "fst (snd (atlas_loop a n lines es v fs)) = foldl line_version v lines"
proof (induction lines arbitrary: n es v fs)
  case (Cons line lines)
  show ?case
  proof (cases "HasPrefix line ''- `''")
    case True
    show ?thesis
    proof (cases "\<exists>p. entry_path line = Some p \<and> map_of es p = None")
      case e: True
      then show ?thesis using atlas_loop_entry [OF True] Cons by auto
    next
      case False
      then obtain f where "atlas_loop a n (line # lines) es v fs = atlas_loop a (Suc n) lines es (line_version v line) (fs @ [f])"
        using atlas_loop_bad [OF True False] by blast
      then show ?thesis using Cons by simp
    qed
  qed (simp add: atlas_loop_other Cons del: atlas_loop.simps)
qed simp

lemma atlas_loop_grows: "length fs \<le> length (snd (snd (atlas_loop a n lines es v fs)))"
proof (induction lines arbitrary: n es v fs)
  case (Cons line lines)
  show ?case
  proof (cases "HasPrefix line ''- `''")
    case True
    show ?thesis
    proof (cases "\<exists>p. entry_path line = Some p \<and> map_of es p = None")
      case e: True
      then show ?thesis using atlas_loop_entry [OF True] Cons by auto
    next
      case False
      then obtain f where "atlas_loop a n (line # lines) es v fs = atlas_loop a (Suc n) lines es (line_version v line) (fs @ [f])"
        using atlas_loop_bad [OF True False] by blast
      then show ?thesis using Cons.IH [where fs = "fs @ [f]" and n = "Suc n" and es = es and v = "line_version v line"] by simp
    qed
  qed (simp add: atlas_loop_other Cons del: atlas_loop.simps)
qed simp

text \<open>
  The loop finds nothing exactly when the entry lines are acceptable and their paths new and
  distinct, and then records these paths in order.
\<close>

lemma atlas_loop_clean:
  "snd (snd (atlas_loop a n lines es v [])) = [] \<longleftrightarrow>
    (\<exists>ps. map entry_path (entry_lines lines) = map Some ps \<and> distinct ps \<and> set ps \<inter> fst ` set es = {})"
  "snd (snd (atlas_loop a n lines es v [])) = [] \<Longrightarrow>
    map entry_path (entry_lines lines) = map Some ps \<Longrightarrow>
    map fst (fst (atlas_loop a n lines es v [])) = map fst es @ ps"
proof (induction lines arbitrary: n es v ps)
  case Nil
  { case 1 show ?case by (simp add: entry_lines_def) }
  { case 2 then show ?case by (simp add: entry_lines_def) }
next
  case (Cons line lines)
  { case 1
    show ?case
    proof (cases "HasPrefix line ''- `''")
      case True
      show ?thesis
      proof (cases "\<exists>p. entry_path line = Some p \<and> map_of es p = None")
        case e: True
        then obtain p where p: "entry_path line = Some p" "map_of es p = None" by blast
        have L: "map entry_path (entry_lines (line # lines)) = Some p # map entry_path (entry_lines lines)"
          using True p(1) by (simp add: entry_lines_def)
        have pf: "p \<notin> fst ` set es" by (rule map_of_eq_None_iff [THEN iffD1, OF p(2)])
        show ?thesis
          unfolding atlas_loop_entry [OF True p] Cons.IH(1) L
        proof (intro iffI; elim exE conjE)
          fix ps assume "map entry_path (entry_lines lines) = map Some ps" "distinct ps" "set ps \<inter> fst ` set (es @ [(p, n)]) = {}"
          then show "\<exists>ps. Some p # map entry_path (entry_lines lines) = map Some ps \<and> distinct ps \<and> set ps \<inter> fst ` set es = {}"
            using pf by (intro exI [of _ "p # ps"]) simp
        next
          fix qs assume q: "Some p # map entry_path (entry_lines lines) = map Some qs" "distinct qs" "set qs \<inter> fst ` set es = {}"
          show "\<exists>ps. map entry_path (entry_lines lines) = map Some ps \<and> distinct ps \<and> set ps \<inter> fst ` set (es @ [(p, n)]) = {}"
          proof -
            obtain zs where z: "qs = p # zs" "map entry_path (entry_lines lines) = map Some zs"
              using q(1) by (auto simp: Cons_eq_map_conv)
            then show ?thesis using q(2,3) pf by (intro exI [of _ zs]) (simp add: Int_insert_left)
          qed
        qed
      next
        case False
        then obtain f where f: "atlas_loop a n (line # lines) es v [] = atlas_loop a (Suc n) lines es (line_version v line) [f]"
          using atlas_loop_bad [OF True False, of a n lines v "[]"] by auto
        have "snd (snd (atlas_loop a (Suc n) lines es (line_version v line) [f])) \<noteq> []"
          using atlas_loop_grows [of "[f]" a "Suc n" lines es "line_version v line"] by auto
        moreover have "\<not> (\<exists>ps. map entry_path (entry_lines (line # lines)) = map Some ps \<and> distinct ps \<and>
            set ps \<inter> fst ` set es = {})"
          using True False by (auto simp: entry_lines_def Cons_eq_map_conv map_of_eq_None_iff)
        ultimately show ?thesis unfolding f by blast
      qed
    qed (simp add: atlas_loop_other Cons.IH(1) entry_lines_def del: atlas_loop.simps) }
  { case 2
    show ?case
    proof (cases "HasPrefix line ''- `''")
      case True
      then obtain p ps' where p: "entry_path line = Some p" "ps = p # ps'"
        "map entry_path (entry_lines lines) = map Some ps'"
        using 2(2) by (auto simp: entry_lines_def Cons_eq_map_conv)
      have new: "map_of es p = None"
      proof (rule ccontr)
        assume "map_of es p \<noteq> None"
        then obtain f where f: "atlas_loop a n (line # lines) es v [] = atlas_loop a (Suc n) lines es (line_version v line) [f]"
          using atlas_loop_bad [OF True, of es a n lines v "[]"] p(1) by fastforce
        then show False using 2(1) atlas_loop_grows [of "[f]" a "Suc n" lines es "line_version v line"] by auto
      qed
      show ?thesis
        using 2(1) p(2) Cons.IH(2) [OF _ p(3), of "Suc n" "es @ [(p, n)]" "line_version v line"]
        unfolding atlas_loop_entry [OF True p(1) new] by simp
    next
      case False
      then show ?thesis using 2 Cons.IH(2) by (simp add: atlas_loop_other entry_lines_def del: atlas_loop.simps)
    qed }
qed

text \<open>
  C39. The atlas check finds nothing exactly when the atlas and the version source can be read, every
  line that starts like an entry is an entry with a canonical path and a description, the
  listed paths are the files of the repository, each listed once, and the last version
  banner shows the version of the source.
\<close>

theorem atlas_clean_iff:
  "checkAtlas read sourceVersion files atlasPath = Inr [] \<longleftrightarrow>
    (\<exists>content version lines paths. read atlasPath = Some content \<and>
      sourceVersion ''internal/version/version.go'' = Inr version \<and> scan_lines content = Some lines \<and>
      map entry_path (entry_lines lines) = map Some paths \<and> distinct paths \<and> set paths = set files \<and>
      tracked_version lines = version \<and> version \<noteq> [])"
proof (cases "\<exists>content version lines. read atlasPath = Some content \<and>
    sourceVersion ''internal/version/version.go'' = Inr version \<and> scan_lines content = Some lines")
  case True
  then obtain content version lines where h: "read atlasPath = Some content"
    "sourceVersion ''internal/version/version.go'' = Inr version" "scan_lines content = Some lines" by blast
  obtain entries atlasVersion findings where loop: "atlas_loop atlasPath 1 lines [] [] [] = (entries, atlasVersion, findings)"
    using prod_cases3 by blast
  have v: "atlasVersion = tracked_version lines"
    using atlas_loop_version [of atlasPath 1 lines "[]" "[]" "[]"] loop by (simp add: tracked_version_foldl)
  have clean: "findings = [] \<longleftrightarrow> (\<exists>ps. map entry_path (entry_lines lines) = map Some ps \<and> distinct ps)"
    using atlas_loop_clean(1) [of atlasPath 1 lines "[]" "[]"] loop by simp
  have paths: "map fst entries = ps" if "findings = []" "map entry_path (entry_lines lines) = map Some ps" for ps
    using atlas_loop_clean(2) [of atlasPath 1 lines "[]" "[]" ps] loop that by simp
  have "checkAtlas read sourceVersion files atlasPath = Inr [] \<longleftrightarrow>
    findings = [] \<and> atlasVersion \<noteq> [] \<and> atlasVersion = version \<and>
    set files \<subseteq> fst ` set entries \<and> fst ` set entries \<subseteq> set files"
    by (auto simp: checkAtlas_def h loop Let_def filter_empty_conv map_of_eq_None_iff simp del: One_nat_def split: if_splits)
  also have "\<dots> \<longleftrightarrow> (\<exists>paths. map entry_path (entry_lines lines) = map Some paths \<and> distinct paths \<and>
      set paths = set files \<and> tracked_version lines = version \<and> version \<noteq> [])"
    unfolding clean v using paths by (auto simp: clean simp flip: set_map)
  finally show ?thesis using h by auto
next
  case False
  then show ?thesis by (auto simp: checkAtlas_def Let_def split: option.splits sum.splits)
qed

subsection \<open>Go sources\<close>

text \<open>
  The parts of a syntax tree that the checker reads. A comment group is the text that
  \<open>CommentGroup.Text\<close> gives, a declared name comes with its line; \<open>exported\<close> is \<open>ast.IsExported\<close>.
\<close>

datatype go_expr = Ident string | StarExpr go_expr | OtherExpr

datatype go_token = TOKEN_TYPE | TOKEN_CONST | TOKEN_VAR | TOKEN_IMPORT

record go_field =
  gf_Names :: "(string \<times> nat) list"
  gf_Doc :: "string option"
  gf_Comment :: "string option"

datatype go_spec =
  TypeSpec string nat "string option" "go_field list option"
  | ValueSpec "(string \<times> nat) list" "string option" "string option" "string option list"
  | ImportSpec

datatype go_decl =
  FuncDecl string nat "go_expr list option" "string option"
  | GenDecl go_token "string option" "go_spec list"

record go_file =
  go_Generated :: bool
  go_Name :: string
  go_Doc :: "string option"
  go_Decls :: "go_decl list"

definition commentText :: "string option \<Rightarrow> string" where
  "commentText comment = (case comment of None \<Rightarrow> [] | Some text \<Rightarrow> TrimSpace text)"

definition startsWithName :: "string \<Rightarrow> string \<Rightarrow> bool" where
  "startsWithName text name \<longleftrightarrow> text = name \<or> HasPrefix text (name @ '' '') \<or> HasPrefix text (name @ ''.'') \<or>
     HasPrefix text (name @ '','')"

definition commentStartsWith :: "string option \<Rightarrow> string \<Rightarrow> bool" where
  "commentStartsWith comment name \<longleftrightarrow> comment \<noteq> None \<and> startsWithName (commentText comment) name"

definition commentStartsWithEither :: "string option \<Rightarrow> string option \<Rightarrow> string \<Rightarrow> bool" where
  "commentStartsWithEither first second name \<longleftrightarrow> commentStartsWith first name \<or> commentStartsWith second name"

definition validPackageComment :: "string \<Rightarrow> string \<Rightarrow> bool" where
  "validPackageComment packageName text \<longleftrightarrow>
     (if packageName = ''main'' then HasPrefix text ''Command '' \<or> HasPrefix text ''Package main ''
      else HasPrefix text (''Package '' @ packageName @ '' ''))"

definition receiverIsDocumentedAPI :: "(string \<Rightarrow> bool) \<Rightarrow> go_expr list option \<Rightarrow> bool" where
  "receiverIsDocumentedAPI exported receiver =
     (case receiver of None \<Rightarrow> True | Some [] \<Rightarrow> True
      | Some (t # _) \<Rightarrow>
          (case (case t of StarExpr x \<Rightarrow> x | _ \<Rightarrow> t) of Ident name \<Rightarrow> exported name | _ \<Rightarrow> False))"

definition positionFinding :: "string \<Rightarrow> nat \<Rightarrow> string \<Rightarrow> finding" where
  "positionFinding path line message = \<lparr>fi_path = path, fi_line = line, fi_message = message\<rparr>"

definition check_field :: "(string \<Rightarrow> bool) \<Rightarrow> string \<Rightarrow> go_field \<Rightarrow> finding list" where
  "check_field exported path field =
     map (\<lambda>(name, line). positionFinding path line (''exported field '' @ name @ '' needs a comment starting with its name''))
       (filter (\<lambda>(name, line). exported name \<and> \<not> commentStartsWithEither (gf_Doc field) (gf_Comment field) name)
         (gf_Names field))"

definition spec_doc :: "string option \<Rightarrow> string option \<Rightarrow> string option" where
  "spec_doc doc decl_doc = (case doc of None \<Rightarrow> decl_doc | Some d \<Rightarrow> Some d)"

fun check_spec :: "(string \<Rightarrow> bool) \<Rightarrow> string \<Rightarrow> string option \<Rightarrow> go_spec \<Rightarrow> finding list" where
  "check_spec exported path decl_doc (TypeSpec name line doc members) =
     (if exported name \<and> \<not> commentStartsWith (spec_doc doc decl_doc) name
        then [positionFinding path line (''exported type '' @ name @ '' needs a GoDoc comment starting with its name'')]
        else []) @
     (case members of None \<Rightarrow> [] | Some fs \<Rightarrow> concat (map (check_field exported path) fs))"
| "check_spec exported path decl_doc (ValueSpec names doc comment literals) =
     map (\<lambda>(name, line). positionFinding path line (''exported value '' @ name @
         '' needs a GoDoc comment starting with its name''))
       (filter (\<lambda>(name, line). exported name \<and> \<not> commentStartsWithEither (spec_doc doc decl_doc) comment name) names)"
| "check_spec exported path decl_doc ImportSpec = []"

definition checkGeneralDeclaration ::
    "(string \<Rightarrow> bool) \<Rightarrow> string \<Rightarrow> go_token \<Rightarrow> string option \<Rightarrow> go_spec list \<Rightarrow> finding list" where
  "checkGeneralDeclaration exported path tok doc specs =
     (if tok \<noteq> TOKEN_TYPE \<and> tok \<noteq> TOKEN_CONST \<and> tok \<noteq> TOKEN_VAR then []
      else concat (map (check_spec exported path doc) specs))"

fun check_decl :: "(string \<Rightarrow> bool) \<Rightarrow> string \<Rightarrow> go_decl \<Rightarrow> finding list" where
  "check_decl exported path (FuncDecl name line receiver doc) =
     (if exported name \<and> receiverIsDocumentedAPI exported receiver \<and> \<not> commentStartsWith doc name
        then [positionFinding path line (''exported function or method '' @ name @
          '' needs a GoDoc comment starting with its name'')] else [])"
| "check_decl exported path (GenDecl tok doc specs) = checkGeneralDeclaration exported path tok doc specs"

record packageState =
  pk_name :: string
  pk_documented :: bool
  pk_firstPath :: string

definition path_Dir :: "string \<Rightarrow> string" where
  "path_Dir p = path_Clean (rev (dropWhile (\<lambda>c. c \<noteq> CHR ''/'') (rev p)))"

text \<open>The package of a file, made at its first file and marked when a file documents it.\<close>

definition note_package :: "string \<Rightarrow> go_file \<Rightarrow> (string \<times> packageState) list \<Rightarrow> (string \<times> packageState) list" where
  "note_package path tree packages =
     (let directory = path_Dir path;
          state = (case map_of packages directory of
            None \<Rightarrow> \<lparr>pk_name = go_Name tree, pk_documented = False, pk_firstPath = path\<rparr> | Some state \<Rightarrow> state);
          state = (if validPackageComment (go_Name tree) (commentText (go_Doc tree))
            then state\<lparr>pk_documented := True\<rparr> else state)
      in AList.update directory state packages)"

fun go_files ::
    "(string \<Rightarrow> bool) \<Rightarrow> (string \<Rightarrow> string option) \<Rightarrow> (string \<Rightarrow> go_file option) \<Rightarrow> string list \<Rightarrow>
      (string \<times> packageState) list \<Rightarrow> finding list \<Rightarrow> problem + (string \<times> packageState) list \<times> finding list" where
  "go_files exported read parse [] packages findings = Inr (packages, findings)"
| "go_files exported read parse (path # files) packages findings =
     (if \<not> HasSuffix path ''.go'' \<or> HasSuffix path ''_test.go''
        then go_files exported read parse files packages findings
      else case read path of
        None \<Rightarrow> Inl (''read Go source %s: %w'', [path])
      | Some content \<Rightarrow>
      (case parse content of
        None \<Rightarrow> Inl (''parse Go source %s: %w'', [path])
      | Some tree \<Rightarrow>
          if go_Generated tree then go_files exported read parse files packages findings
          else go_files exported read parse files (note_package path tree packages)
            (findings @ concat (map (check_decl exported path) (go_Decls tree)))))"

definition checkGo ::
    "(string \<Rightarrow> bool) \<Rightarrow> (string \<Rightarrow> string option) \<Rightarrow> (string \<Rightarrow> go_file option) \<Rightarrow> string list \<Rightarrow> problem + finding list" where
  "checkGo exported read parse files =
     and_then (go_files exported read parse files [] []) (\<lambda>(packages, findings).
       Inr (findings @
         map (\<lambda>(directory, state). \<lparr>fi_path = pk_firstPath state, fi_line = 0,
             fi_message = ''package '' @ pk_name state @ '' needs a package or command comment''\<rparr>)
           (filter (\<lambda>(directory, state). \<not> pk_documented state) packages)))"

subsection \<open>The version of the source\<close>

definition trim_quotes :: "string \<Rightarrow> string" where
  "trim_quotes s = rev (dropWhile (\<lambda>c. c = CHR 0x22) (rev (dropWhile (\<lambda>c. c = CHR 0x22) s)))"

text \<open>
  The first value of a constant named \<open>Version\<close>: a string literal, \<open>Some\<close> its text, or anything
  else; a name without a value of its own is passed over.
\<close>

fun version_of_names :: "(string \<times> nat) list \<Rightarrow> string option list \<Rightarrow> (problem + string) option" where
  "version_of_names ((name, line) # names) (v # literals) =
     (if name = ''Version'' then Some (case v of
        None \<Rightarrow> Inl (''version source is not a string literal'', []) | Some text \<Rightarrow> Inr (trim_quotes text))
      else version_of_names names literals)"
| "version_of_names _ _ = None"

fun version_of_specs :: "go_spec list \<Rightarrow> (problem + string) option" where
  "version_of_specs [] = None"
| "version_of_specs (ValueSpec names doc comment literals # specs) =
     (case version_of_names names literals of None \<Rightarrow> version_of_specs specs | Some r \<Rightarrow> Some r)"
| "version_of_specs (spec # specs) = version_of_specs specs"

fun version_of_decls :: "go_decl list \<Rightarrow> problem + string" where
  "version_of_decls [] = Inl (''Version constant not found'', [])"
| "version_of_decls (GenDecl tok doc specs # decls) =
     (if tok \<noteq> TOKEN_CONST then version_of_decls decls
      else case version_of_specs specs of None \<Rightarrow> version_of_decls decls | Some r \<Rightarrow> r)"
| "version_of_decls (decl # decls) = version_of_decls decls"

definition sourceVersion :: "(string \<Rightarrow> string option) \<Rightarrow> (string \<Rightarrow> go_file option) \<Rightarrow> string \<Rightarrow> problem + string" where
  "sourceVersion read parse path =
     (case read path of
        None \<Rightarrow> Inl (''read version source: %w'', [])
      | Some content \<Rightarrow>
      (case parse content of
        None \<Rightarrow> Inl (''parse version source: %w'', [])
      | Some tree \<Rightarrow> version_of_decls (go_Decls tree)))"

subsection \<open>The command\<close>

record doccheck_flags =
  dc_root :: string
  dc_scope :: string
  dc_atlas :: string
  dc_Args :: "string list"

text \<open>
  The repository: what git lists, separated by NUL bytes, and the files below the root. The
  result is the problems of the error and the lines printed.
\<close>

record repository =
  rp_git :: "string \<Rightarrow> string option"
  rp_read :: "string \<Rightarrow> string \<Rightarrow> string option"
  rp_parse :: "string \<Rightarrow> go_file option"
  rp_exported :: "string \<Rightarrow> bool"

definition repositoryFiles :: "repository \<Rightarrow> string \<Rightarrow> problem + string list" where
  "repositoryFiles repo root =
     (case rp_git repo root of
        None \<Rightarrow> Inl (''list repository files with git'', [])
      | Some data \<Rightarrow> Inr (sort (filter (\<lambda>part. part \<noteq> []) (split_at (CHR 0x00) data))))"

definition doccheck_run ::
    "(string list \<Rightarrow> problem + doccheck_flags) \<Rightarrow> repository \<Rightarrow> string list \<Rightarrow> problem list \<times> string list" where
  "doccheck_run flags repo args =
     (case flags args of
        Inl err \<Rightarrow> ([err], [])
      | Inr f \<Rightarrow>
      if dc_Args f \<noteq> [] then ([(''unexpected positional arguments: %v'', dc_Args f)], [])
      else if dc_scope f \<noteq> ''all'' \<and> dc_scope f \<noteq> ''atlas'' \<and> dc_scope f \<noteq> ''go''
        then ([(''invalid scope %q (want all, atlas, or go)'', [dc_scope f])], [])
      else
        let read = rp_read repo (dc_root f); result =
          and_then (repositoryFiles repo (dc_root f)) (\<lambda>files.
          and_then (if dc_scope f = ''all'' \<or> dc_scope f = ''atlas''
            then checkAtlas read (sourceVersion read (rp_parse repo)) files (dc_atlas f) else Inr []) (\<lambda>atlasFindings.
          and_then (if dc_scope f = ''all'' \<or> dc_scope f = ''go''
            then checkGo (rp_exported repo) read (rp_parse repo) files else Inr []) (\<lambda>goFindings.
            Inr (sortFindings (atlasFindings @ goFindings)))))
        in case result of
          Inl err \<Rightarrow> ([err], [])
        | Inr [] \<Rightarrow> ([], [''doccheck: '' @ dc_scope f @ '' OK''])
        | Inr findings \<Rightarrow>
            ([(''documentation checks failed with %d finding(s)'', [decimal (length findings)])],
             map finding_String findings))"

end
