(* ===== verification/Rpc.thy ===== *)
theory Rpc
  imports Substrings
begin

text \<open>
  The generated RPC code of the three services, under \<open>gen/go\<close>: \<open>session.connect.go\<close>, \<open>upload.connect.go\<close>
  and \<open>pdf_job.connect.go\<close>. Each file has the names of its procedures, a client, a handler that
  routes by the path, and a handler whose methods are not implemented. The package \<open>connect\<close>
  is an argument: how it makes a client of a URL and an HTTP handler of a method. The messages have one type \<open>'m\<close>,
  a method acts on the state \<open>'s\<close> of the server, \<open>'w\<close> and \<open>'r\<close> are the bodies of HTTP requests and responses.
\<close>

subsection \<open>What the generated code uses\<close>

text \<open>\<open>connect.Code\<close>, of which the generated code names one.\<close>

datatype connect_code = CodeUnimplemented | ConnectCode nat

type_synonym connect_error = "connect_code \<times> string"

type_synonym ('m, 's) rpc = "'m \<Rightarrow> 's \<Rightarrow> (connect_error + 'm) \<times> 's"

datatype 'r http_response = NotFound | Served 'r

text \<open>A handler serves a path; an HTTP client posts to a URL.\<close>

type_synonym ('w, 'r, 's) http = "string \<Rightarrow> 'w \<Rightarrow> 's \<Rightarrow> 'r http_response \<times> 's"

text \<open>\<open>connect.NewUnaryHandler\<close>, and \<open>connect.NewClient\<close> with the method \<open>CallUnary\<close> of its result.\<close>

record ('m, 'w, 'r, 's) connect =
  NewUnaryHandler :: "string \<Rightarrow> ('m, 's) rpc \<Rightarrow> 'w \<Rightarrow> 's \<Rightarrow> 'r \<times> 's"
  NewClient :: "('w, 'r, 's) http \<Rightarrow> string \<Rightarrow> ('m, 's) rpc"

definition ServeHTTP :: "('w \<Rightarrow> 's \<Rightarrow> 'r \<times> 's) \<Rightarrow> 'w \<Rightarrow> 's \<Rightarrow> 'r http_response \<times> 's" where
  "ServeHTTP handler w s = (case handler w s of (r, s') \<Rightarrow> (Served r, s'))"

text \<open>\<open>strings.TrimRight\<close> with the slash.\<close>

definition trim_slashes :: "string \<Rightarrow> string" where
  "trim_slashes s = rev (dropWhile (\<lambda>c. c = CHR ''/'') (rev s))"

definition unimplemented :: "string \<Rightarrow> ('m, 's) rpc" where
  "unimplemented message q s = (Inl (CodeUnimplemented, message), s)"

subsection \<open>The session service\<close>

definition SessionServiceName :: string where
  "SessionServiceName = ''session.v1.SessionService''"

definition SessionServiceCreateAnonymousSessionProcedure :: string where
  "SessionServiceCreateAnonymousSessionProcedure = ''/session.v1.SessionService/CreateAnonymousSession''"

lemmas session_procedures =
  SessionServiceCreateAnonymousSessionProcedure_def

record ('m, 's) SessionServiceHandler =
  CreateAnonymousSession :: "('m, 's) rpc"

text \<open>The client interface has the same methods.\<close>

type_synonym ('m, 's) SessionServiceClient = "('m, 's) SessionServiceHandler"

record ('m, 's) sessionServiceClient_struct =
  c_createAnonymousSession :: "('m, 's) rpc"

definition sessionServiceClient_methods :: "('m, 's) sessionServiceClient_struct \<Rightarrow> ('m, 's) SessionServiceClient" where
  "sessionServiceClient_methods c =
     \<lparr>CreateAnonymousSession = c_createAnonymousSession c\<rparr>"

definition NewSessionServiceClient ::
    "('m, 'w, 'r, 's) connect \<Rightarrow> ('w, 'r, 's) http \<Rightarrow> string \<Rightarrow> ('m, 's) SessionServiceClient" where
  "NewSessionServiceClient lib httpClient baseURL =
     (let baseURL = trim_slashes baseURL in
      sessionServiceClient_methods
       \<lparr>c_createAnonymousSession = NewClient lib httpClient (baseURL @ SessionServiceCreateAnonymousSessionProcedure)\<rparr>)"

definition NewSessionServiceHandler ::
    "('m, 'w, 'r, 's) connect \<Rightarrow> ('m, 's) SessionServiceHandler \<Rightarrow> string \<times> ('w, 'r, 's) http" where
  "NewSessionServiceHandler lib svc =
     (''/session.v1.SessionService/'', (\<lambda>path w s.
        if path = SessionServiceCreateAnonymousSessionProcedure
          then ServeHTTP (NewUnaryHandler lib SessionServiceCreateAnonymousSessionProcedure (CreateAnonymousSession svc)) w s
        else (NotFound, s)))"

definition UnimplementedSessionServiceHandler :: "('m, 's) SessionServiceHandler" where
  "UnimplementedSessionServiceHandler =
     \<lparr>CreateAnonymousSession = unimplemented ''session.v1.SessionService.CreateAnonymousSession is not implemented''\<rparr>"

subsection \<open>The upload service\<close>

definition UploadServiceName :: string where
  "UploadServiceName = ''upload.v1.UploadService''"

definition UploadServiceStartUploadProcedure :: string where
  "UploadServiceStartUploadProcedure = ''/upload.v1.UploadService/StartUpload''"

definition UploadServiceUploadChunkProcedure :: string where
  "UploadServiceUploadChunkProcedure = ''/upload.v1.UploadService/UploadChunk''"

definition UploadServiceCommitUploadProcedure :: string where
  "UploadServiceCommitUploadProcedure = ''/upload.v1.UploadService/CommitUpload''"

definition UploadServiceAbortUploadProcedure :: string where
  "UploadServiceAbortUploadProcedure = ''/upload.v1.UploadService/AbortUpload''"

lemmas upload_procedures =
  UploadServiceStartUploadProcedure_def
  UploadServiceUploadChunkProcedure_def
  UploadServiceCommitUploadProcedure_def
  UploadServiceAbortUploadProcedure_def

record ('m, 's) UploadServiceHandler =
  StartUpload :: "('m, 's) rpc"
  UploadChunk :: "('m, 's) rpc"
  CommitUpload :: "('m, 's) rpc"
  AbortUpload :: "('m, 's) rpc"

text \<open>The client interface has the same methods.\<close>

type_synonym ('m, 's) UploadServiceClient = "('m, 's) UploadServiceHandler"

record ('m, 's) uploadServiceClient_struct =
  c_startUpload :: "('m, 's) rpc"
  c_uploadChunk :: "('m, 's) rpc"
  c_commitUpload :: "('m, 's) rpc"
  c_abortUpload :: "('m, 's) rpc"

definition uploadServiceClient_methods :: "('m, 's) uploadServiceClient_struct \<Rightarrow> ('m, 's) UploadServiceClient" where
  "uploadServiceClient_methods c =
     \<lparr>StartUpload = c_startUpload c,
      UploadChunk = c_uploadChunk c,
      CommitUpload = c_commitUpload c,
      AbortUpload = c_abortUpload c\<rparr>"

definition NewUploadServiceClient ::
    "('m, 'w, 'r, 's) connect \<Rightarrow> ('w, 'r, 's) http \<Rightarrow> string \<Rightarrow> ('m, 's) UploadServiceClient" where
  "NewUploadServiceClient lib httpClient baseURL =
     (let baseURL = trim_slashes baseURL in
      uploadServiceClient_methods
       \<lparr>c_startUpload = NewClient lib httpClient (baseURL @ UploadServiceStartUploadProcedure),
        c_uploadChunk = NewClient lib httpClient (baseURL @ UploadServiceUploadChunkProcedure),
        c_commitUpload = NewClient lib httpClient (baseURL @ UploadServiceCommitUploadProcedure),
        c_abortUpload = NewClient lib httpClient (baseURL @ UploadServiceAbortUploadProcedure)\<rparr>)"

definition NewUploadServiceHandler ::
    "('m, 'w, 'r, 's) connect \<Rightarrow> ('m, 's) UploadServiceHandler \<Rightarrow> string \<times> ('w, 'r, 's) http" where
  "NewUploadServiceHandler lib svc =
     (''/upload.v1.UploadService/'', (\<lambda>path w s.
        if path = UploadServiceStartUploadProcedure
          then ServeHTTP (NewUnaryHandler lib UploadServiceStartUploadProcedure (StartUpload svc)) w s
        else if path = UploadServiceUploadChunkProcedure
          then ServeHTTP (NewUnaryHandler lib UploadServiceUploadChunkProcedure (UploadChunk svc)) w s
        else if path = UploadServiceCommitUploadProcedure
          then ServeHTTP (NewUnaryHandler lib UploadServiceCommitUploadProcedure (CommitUpload svc)) w s
        else if path = UploadServiceAbortUploadProcedure
          then ServeHTTP (NewUnaryHandler lib UploadServiceAbortUploadProcedure (AbortUpload svc)) w s
        else (NotFound, s)))"

definition UnimplementedUploadServiceHandler :: "('m, 's) UploadServiceHandler" where
  "UnimplementedUploadServiceHandler =
     \<lparr>StartUpload = unimplemented ''upload.v1.UploadService.StartUpload is not implemented'',
      UploadChunk = unimplemented ''upload.v1.UploadService.UploadChunk is not implemented'',
      CommitUpload = unimplemented ''upload.v1.UploadService.CommitUpload is not implemented'',
      AbortUpload = unimplemented ''upload.v1.UploadService.AbortUpload is not implemented''\<rparr>"

subsection \<open>The job service\<close>

definition PdfJobServiceName :: string where
  "PdfJobServiceName = ''pdfjob.v1.PdfJobService''"

definition PdfJobServiceListJobsProcedure :: string where
  "PdfJobServiceListJobsProcedure = ''/pdfjob.v1.PdfJobService/ListJobs''"

definition PdfJobServiceGetJobProcedure :: string where
  "PdfJobServiceGetJobProcedure = ''/pdfjob.v1.PdfJobService/GetJob''"

definition PdfJobServiceCancelJobProcedure :: string where
  "PdfJobServiceCancelJobProcedure = ''/pdfjob.v1.PdfJobService/CancelJob''"

definition PdfJobServiceDeleteJobProcedure :: string where
  "PdfJobServiceDeleteJobProcedure = ''/pdfjob.v1.PdfJobService/DeleteJob''"

lemmas pdfJob_procedures =
  PdfJobServiceListJobsProcedure_def
  PdfJobServiceGetJobProcedure_def
  PdfJobServiceCancelJobProcedure_def
  PdfJobServiceDeleteJobProcedure_def

record ('m, 's) PdfJobServiceHandler =
  ListJobs :: "('m, 's) rpc"
  GetJob :: "('m, 's) rpc"
  CancelJob :: "('m, 's) rpc"
  DeleteJob :: "('m, 's) rpc"

text \<open>The client interface has the same methods.\<close>

type_synonym ('m, 's) PdfJobServiceClient = "('m, 's) PdfJobServiceHandler"

record ('m, 's) pdfJobServiceClient_struct =
  c_listJobs :: "('m, 's) rpc"
  c_getJob :: "('m, 's) rpc"
  c_cancelJob :: "('m, 's) rpc"
  c_deleteJob :: "('m, 's) rpc"

definition pdfJobServiceClient_methods :: "('m, 's) pdfJobServiceClient_struct \<Rightarrow> ('m, 's) PdfJobServiceClient" where
  "pdfJobServiceClient_methods c =
     \<lparr>ListJobs = c_listJobs c,
      GetJob = c_getJob c,
      CancelJob = c_cancelJob c,
      DeleteJob = c_deleteJob c\<rparr>"

definition NewPdfJobServiceClient ::
    "('m, 'w, 'r, 's) connect \<Rightarrow> ('w, 'r, 's) http \<Rightarrow> string \<Rightarrow> ('m, 's) PdfJobServiceClient" where
  "NewPdfJobServiceClient lib httpClient baseURL =
     (let baseURL = trim_slashes baseURL in
      pdfJobServiceClient_methods
       \<lparr>c_listJobs = NewClient lib httpClient (baseURL @ PdfJobServiceListJobsProcedure),
        c_getJob = NewClient lib httpClient (baseURL @ PdfJobServiceGetJobProcedure),
        c_cancelJob = NewClient lib httpClient (baseURL @ PdfJobServiceCancelJobProcedure),
        c_deleteJob = NewClient lib httpClient (baseURL @ PdfJobServiceDeleteJobProcedure)\<rparr>)"

definition NewPdfJobServiceHandler ::
    "('m, 'w, 'r, 's) connect \<Rightarrow> ('m, 's) PdfJobServiceHandler \<Rightarrow> string \<times> ('w, 'r, 's) http" where
  "NewPdfJobServiceHandler lib svc =
     (''/pdfjob.v1.PdfJobService/'', (\<lambda>path w s.
        if path = PdfJobServiceListJobsProcedure
          then ServeHTTP (NewUnaryHandler lib PdfJobServiceListJobsProcedure (ListJobs svc)) w s
        else if path = PdfJobServiceGetJobProcedure
          then ServeHTTP (NewUnaryHandler lib PdfJobServiceGetJobProcedure (GetJob svc)) w s
        else if path = PdfJobServiceCancelJobProcedure
          then ServeHTTP (NewUnaryHandler lib PdfJobServiceCancelJobProcedure (CancelJob svc)) w s
        else if path = PdfJobServiceDeleteJobProcedure
          then ServeHTTP (NewUnaryHandler lib PdfJobServiceDeleteJobProcedure (DeleteJob svc)) w s
        else (NotFound, s)))"

definition UnimplementedPdfJobServiceHandler :: "('m, 's) PdfJobServiceHandler" where
  "UnimplementedPdfJobServiceHandler =
     \<lparr>ListJobs = unimplemented ''pdfjob.v1.PdfJobService.ListJobs is not implemented'',
      GetJob = unimplemented ''pdfjob.v1.PdfJobService.GetJob is not implemented'',
      CancelJob = unimplemented ''pdfjob.v1.PdfJobService.CancelJob is not implemented'',
      DeleteJob = unimplemented ''pdfjob.v1.PdfJobService.DeleteJob is not implemented''\<rparr>"

subsection \<open>Clients reach the services\<close>

text \<open>
  The documented behaviour of \<open>connect\<close> on a network that does not fail: when the posts to a
  URL are answered by the unary handler of a method, the client of the URL gives the results of the method.
\<close>

definition connect_delivers :: "('m, 'w, 'r, 's) connect \<Rightarrow> bool" where
  "connect_delivers lib \<longleftrightarrow>
     (\<forall>http url procedure method. http url = ServeHTTP (NewUnaryHandler lib procedure method) \<longrightarrow> NewClient lib http url = method)"

text \<open>
  A server mounts each handler at the path that its constructor returns, and the network takes a
  post below the server's origin to it.
\<close>

definition mount :: "(string \<times> ('w, 'r, 's) http) list \<Rightarrow> ('w, 'r, 's) http" where
  "mount routes path w s =
     (case find (\<lambda>(prefix, handler). HasPrefix path prefix) routes of
        None \<Rightarrow> (NotFound, s)
      | Some (prefix, handler) \<Rightarrow> handler path w s)"

definition network :: "string \<Rightarrow> ('w, 'r, 's) http \<Rightarrow> ('w, 'r, 's) http" where
  "network origin server url w s =
     (if HasPrefix url origin then server (drop (length origin) url) w s else (NotFound, s))"

definition rpc_server ::
    "('m, 'w, 'r, 's) connect \<Rightarrow> ('m, 's) SessionServiceHandler \<Rightarrow> ('m, 's) UploadServiceHandler \<Rightarrow>
      ('m, 's) PdfJobServiceHandler \<Rightarrow> ('w, 'r, 's) http" where
  "rpc_server lib sessions uploads jobs = mount
     [NewSessionServiceHandler lib sessions, NewUploadServiceHandler lib uploads, NewPdfJobServiceHandler lib jobs]"

lemma delivered:
  assumes "connect_delivers lib" and "server path = ServeHTTP (NewUnaryHandler lib path method)"
  shows "NewClient lib (network origin server) (origin @ path) = method"
proof -
  have "network origin server (origin @ path) = ServeHTTP (NewUnaryHandler lib path method)"
    using assms(2) by (intro ext) (simp add: network_def HasPrefix_def)
  with assms(1) show ?thesis by (simp add: connect_delivers_def)
qed

lemmas rpc_procedures = session_procedures upload_procedures pdfJob_procedures

lemmas rpc_handlers = rpc_server_def mount_def NewSessionServiceHandler_def NewUploadServiceHandler_def
  NewPdfJobServiceHandler_def

lemma session_route:
  "rpc_server lib a b c SessionServiceCreateAnonymousSessionProcedure =
    ServeHTTP (NewUnaryHandler lib SessionServiceCreateAnonymousSessionProcedure (CreateAnonymousSession a))"
  by (intro ext) (simp add: rpc_handlers rpc_procedures HasPrefix_def)

lemma upload_routes:
  "rpc_server lib a b c UploadServiceStartUploadProcedure =
    ServeHTTP (NewUnaryHandler lib UploadServiceStartUploadProcedure (StartUpload b))"
  "rpc_server lib a b c UploadServiceUploadChunkProcedure =
    ServeHTTP (NewUnaryHandler lib UploadServiceUploadChunkProcedure (UploadChunk b))"
  "rpc_server lib a b c UploadServiceCommitUploadProcedure =
    ServeHTTP (NewUnaryHandler lib UploadServiceCommitUploadProcedure (CommitUpload b))"
  "rpc_server lib a b c UploadServiceAbortUploadProcedure =
    ServeHTTP (NewUnaryHandler lib UploadServiceAbortUploadProcedure (AbortUpload b))"
  by (intro ext, simp add: rpc_handlers rpc_procedures HasPrefix_def)+

lemma job_routes:
  "rpc_server lib a b c PdfJobServiceListJobsProcedure =
    ServeHTTP (NewUnaryHandler lib PdfJobServiceListJobsProcedure (ListJobs c))"
  "rpc_server lib a b c PdfJobServiceGetJobProcedure =
    ServeHTTP (NewUnaryHandler lib PdfJobServiceGetJobProcedure (GetJob c))"
  "rpc_server lib a b c PdfJobServiceCancelJobProcedure =
    ServeHTTP (NewUnaryHandler lib PdfJobServiceCancelJobProcedure (CancelJob c))"
  "rpc_server lib a b c PdfJobServiceDeleteJobProcedure =
    ServeHTTP (NewUnaryHandler lib PdfJobServiceDeleteJobProcedure (DeleteJob c))"
  by (intro ext, simp add: rpc_handlers rpc_procedures HasPrefix_def)+

definition rpc_paths :: "string list" where
  "rpc_paths = [SessionServiceCreateAnonymousSessionProcedure, UploadServiceStartUploadProcedure,
     UploadServiceUploadChunkProcedure, UploadServiceCommitUploadProcedure, UploadServiceAbortUploadProcedure,
     PdfJobServiceListJobsProcedure, PdfJobServiceGetJobProcedure, PdfJobServiceCancelJobProcedure,
     PdfJobServiceDeleteJobProcedure]"

lemma other_paths: "path \<notin> set rpc_paths \<Longrightarrow> rpc_server lib a b c path w s = (NotFound, s)"
  by (simp add: rpc_handlers rpc_paths_def)

text \<open>
  C40. The generated clients reach the services. When the handlers of the three services are mounted at the
  paths that their constructors return, the clients made for the server's URL, with
  or without slashes at its end, are the services themselves: each method reaches the method of the
  same name of the right service, with its results and its effect. Every other path is answered with 404
  and changes nothing, and the methods of the placeholder handlers report that they are
  not implemented and change nothing.
\<close>

theorem rpc_clients_are_services:
  assumes "connect_delivers lib" and "trim_slashes baseURL = origin"
  shows "NewSessionServiceClient lib (network origin (rpc_server lib sessions uploads jobs)) baseURL = sessions \<and>
    NewUploadServiceClient lib (network origin (rpc_server lib sessions uploads jobs)) baseURL = uploads \<and>
    NewPdfJobServiceClient lib (network origin (rpc_server lib sessions uploads jobs)) baseURL = jobs \<and>
    (\<forall>path. path \<notin> set rpc_paths \<longrightarrow> rpc_server lib sessions uploads jobs path w s = (NotFound, s)) \<and>
    (\<forall>m \<in> {CreateAnonymousSession UnimplementedSessionServiceHandler,
        StartUpload UnimplementedUploadServiceHandler, UploadChunk UnimplementedUploadServiceHandler,
        CommitUpload UnimplementedUploadServiceHandler, AbortUpload UnimplementedUploadServiceHandler,
        ListJobs UnimplementedPdfJobServiceHandler, GetJob UnimplementedPdfJobServiceHandler,
        CancelJob UnimplementedPdfJobServiceHandler, DeleteJob UnimplementedPdfJobServiceHandler}.
      \<exists>message. m q s = (Inl (CodeUnimplemented, message), s))"
proof -
  have route: "NewClient lib (network origin (rpc_server lib sessions uploads jobs)) (origin @ path) = m"
    if "rpc_server lib sessions uploads jobs path = ServeHTTP (NewUnaryHandler lib path m)" for path m
    using assms(1) that by (rule delivered)
  show ?thesis
    using assms(2)
    by (simp add: other_paths NewSessionServiceClient_def NewUploadServiceClient_def NewPdfJobServiceClient_def
      sessionServiceClient_methods_def uploadServiceClient_methods_def pdfJobServiceClient_methods_def
      route [OF session_route] route [OF upload_routes(1)] route [OF upload_routes(2)] route [OF upload_routes(3)]
      route [OF upload_routes(4)] route [OF job_routes(1)] route [OF job_routes(2)] route [OF job_routes(3)]
      route [OF job_routes(4)] UnimplementedSessionServiceHandler_def UnimplementedUploadServiceHandler_def
      UnimplementedPdfJobServiceHandler_def unimplemented_def)
qed

text \<open>A library whose bodies are the messages, and a server that counts the uploads it starts.\<close>

definition toy_connect :: "(string, string, connect_error + string, nat) connect" where
  "toy_connect = \<lparr>NewUnaryHandler = (\<lambda>procedure m. m),
     NewClient = (\<lambda>http url q s. case http url q s of
       (NotFound, s') \<Rightarrow> (Inl (CodeUnimplemented, ''404''), s') | (Served r, s') \<Rightarrow> (r, s'))\<rparr>"

definition toy_upload_service :: "(string, nat) UploadServiceHandler" where
  "toy_upload_service = UnimplementedUploadServiceHandler\<lparr>StartUpload := (\<lambda>q n. (Inr (''started '' @ q), n + 1))\<rparr>"

theorem rpc_clients_are_services_witness:
  "StartUpload (NewUploadServiceClient toy_connect (network ''http://h'' (rpc_server toy_connect
      UnimplementedSessionServiceHandler toy_upload_service UnimplementedPdfJobServiceHandler)) ''http://h/'') ''a.pdf'' 4 =
    (Inr ''started a.pdf'', 5)"
proof -
  have d: "connect_delivers toy_connect"
    by (auto simp: connect_delivers_def toy_connect_def ServeHTTP_def fun_eq_iff split: prod.splits)
  have t: "trim_slashes ''http://h/'' = ''http://h''" by code_simp
  show ?thesis
    unfolding rpc_clients_are_services [OF d t, THEN conjunct2, THEN conjunct1] by (simp add: toy_upload_service_def)
qed

end
