(* ===== verification/Spec2Isabelle.thy ===== *)
theory Spec2Isabelle
  imports Quota_Properties Job_Pipeline Migrate_Down Commands Doccheck Rpc
begin

text \<open>
  Verification of go-pdf-forge, a Go service that takes PDF files from anonymous or named clients
  in chunks and queues jobs on them, with its configuration, its schema migrations and its three
  commands. Paths below are relative to the repository.

  \<^bold>\<open>The program.\<close> The state of the service is a PostgreSQL database. A client gets an anonymous session
  with a bearer token (\<open>internal/anonymous\<close>), within quotas per session and per address; it sends a
  file as an upload of numbered parts (\<open>internal/upload\<close>); a committed upload becomes a job, which
  workers claim under a lease, advance and finish (\<open>internal/job\<close>). Each package has managers, which
  check their input and go through an interface, and PostgreSQL stores, which implement it. An upload
  or a job belongs to an owner, a session or a user, and every statement filters by it. The upload of
  a job must be committed when the job is created, which ties the two packages: the model of jobs
  steps over the upload tables, too. The service starts from the environment
  (\<open>internal/config\<close>), opens its pools (\<open>internal/database\<close>) and expects the schema that
  \<open>cmd/pdf-migrate\<close> has made; \<open>cmd/mail-poc\<close> tries an SMTP relay (\<open>internal/smtppoc\<close>) and
  \<open>cmd/doccheck\<close> checks the documentation. The protocol between the browser and the service is generated
  (\<open>gen/go\<close>): one service each for sessions, uploads and jobs, with a client and a handler.

  \<^bold>\<open>Theories and sources.\<close>
  \<^item> \<open>Prelude\<close>, \<open>Strconv\<close>, \<open>Substrings\<close>: what the sources use of Go's standard library
    (\<open>strings\<close>, \<open>path\<close>, \<open>unicode/utf8\<close>, \<open>encoding/hex\<close>, \<open>strconv\<close>, \<open>time\<close>), integers that wrap at
    64 bits, errors, tables, outcomes of database calls, and the lemmas that all components share.
  \<^item> \<open>Identity\<close>: UUIDs, digests and owners, whose text \<open>token.go\<close>, \<open>upload.go\<close> and \<open>job.go\<close> repeat.
  \<^item> \<open>Capability\<close>, \<open>Anon_Session\<close>, \<open>Anon_Quota\<close>: \<open>internal/anonymous\<close>, that is \<open>token.go\<close>;
    \<open>session.go\<close> and \<open>storage_postgres.go\<close>; \<open>quota.go\<close> and \<open>storage_quota_postgres.go\<close>.
    \<open>Session_Properties\<close> and \<open>Quota_Properties\<close> hold the runs of their statements and the properties.
  \<^item> \<open>Upload\<close>, \<open>Upload_Store\<close>, \<open>Upload_Lifecycle\<close>: \<open>internal/upload\<close>, its pure functions, its store,
    and its manager with the runs of the store. \<open>Upload_Properties\<close> holds the properties of the runs.
  \<^item> \<open>Job\<close>, \<open>Job_Store\<close>, \<open>Job_Queue\<close>, \<open>Job_Manager\<close>: \<open>internal/job\<close>, its types with \<open>status.go\<close>,
    \<open>storage_postgres.go\<close>, \<open>storage_postgres_queue.go\<close>, and the clients in \<open>job.go\<close> and \<open>queue.go\<close>.
    \<open>Job_Changes\<close> is the abstract specification of the table, \<open>Job_Lease\<close> the contract of a lease,
    \<open>Job_Lifecycle\<close>, \<open>Job_Properties\<close> and \<open>Job_Witness\<close> the properties and their concrete inputs.
  \<^item> \<open>Job_Pipeline\<close>: the way of a file through both packages, from the upload to the finished job.
  \<^item> \<open>Config\<close>: \<open>internal/config/config.go\<close>. \<open>Postgres_Pool\<close>: \<open>database.go\<close> and \<open>testschema.go\<close> of
    \<open>internal/database\<close>. \<open>Migration\<close>, \<open>Migrate_Up\<close>, \<open>Migrate_Down\<close>: \<open>internal/database/migrate.go\<close>, that is loading,
    applying, and rolling back with the order of the steps.
  \<^item> \<open>Smtp\<close>: \<open>internal/smtppoc/client.go\<close>. \<open>Commands\<close>: \<open>cmd/pdf-migrate\<close>, \<open>cmd/mail-poc\<close>,
    \<open>internal/version\<close>, \<open>internal/testpostgres\<close>. \<open>Doccheck\<close>: \<open>cmd/doccheck\<close>.
  \<^item> \<open>Rpc\<close>: \<open>session.connect.go\<close>, \<open>upload.connect.go\<close> and \<open>pdf_job.connect.go\<close> under \<open>gen/go\<close>, the clients,
    handlers and unimplemented handlers of the services.
  \<^item> This theory: how the configuration fits the constructors of the services.

  Definitions keep the names of the code: a struct is a record whose fields carry a prefix of its
  type (\<open>up_Status\<close>), a row of a table is another record (\<open>us_status\<close>), a method of a type that shares its
  name with others is prefixed (\<open>Owner_Validate\<close>). Each theory opens with what it holds.

  \<^bold>\<open>State, transactions and failures.\<close> A table is a list of rows, and a statement that breaks a
  constraint of the migrations is an error that changes nothing. Every operation of a store takes the
  outcome of each of its database calls: it works, it fails, or, for a statement or commit whose reply is
  lost, it takes effect and reports an error. A transaction has its effect as a whole or not at all. A
  transaction that locks its row is one step, because concurrent ones wait; where an operation is
  several statements without a lock, as in \<open>Authenticate\<close> and \<open>Revoke\<close>, the model lets other
  calls change the tables between them. \<open>SKIP LOCKED\<close> takes the rows that others hold as an argument.
  A run is a list of calls with arbitrary arguments, clocks and outcomes, so the properties of
  runs hold for every interleaving and every pattern of failures. Deadlines and cancellations of contexts are failing calls.

  \<^bold>\<open>Interfaces.\<close> The locales \<open>session_store\<close> and \<open>upload_store\<close> with their extensions
  \<open>responsive_session_store\<close> and \<open>responsive_upload_store\<close>, \<open>quota_store\<close>, \<open>session_history\<close>, \<open>lease_queue\<close> and
  \<open>responsive_queue_store\<close> state what a client relies on; the stores are their
  interpretations. \<open>all_or_nothing\<close> is the contract of the migrator: a call leaves the database alone or
  has one of two effects.

  \<^bold>\<open>What the lemmas show.\<close>
  \<^item> Anonymous access (C1 to C8): tokens round-trip, authenticate as often as they are used until they expire
    or are revoked, and never after, whatever else runs; quotas hold in every reachable state, the two counter tables balance, and a decision is exact.
  \<^item> Uploads (C9 to C16): the reachable states are consistent, uploads move forward only, retries are
    harmless, a frozen plan and a committed digest stay, strangers see and change nothing, chunk geometry has no
    overflow and covers the file, file names are safe.
  \<^item> Jobs (C17 to C28): every call refines the specification of the table; rows stay consistent and each
    call moves a status along the one edge of the lifecycle that it stands for; leases are exclusive; claims are fair among the rows that are free, and bounded; stale workers,
    cancellation, deletion, creation and recovery behave as documented. C28 composes the packages: a file
    that is sent in chunks, committed and queued is claimed, worked on and finished, and its owner reads the result.
  \<^item> Configuration, database and tools (C29 to C39): an accepted configuration starts the services, numbers and
    durations are read exactly, messages do not depend on secrets; migration files are split and loaded
    correctly, migrations are atomic and reversible; the SMTP client keeps its transport and
    builds messages without injected lines; the commands do what their flags say.
  \<^item> Protocol (C40): each method of a generated client reaches the method of the service with the same name.

  \<^bold>\<open>Parameters.\<close> HMAC-SHA-256 and SHA-256, the functions of \<open>mime\<close> and \<open>net/mail\<close>, the date format, the
  floating-point scaling of a fraction of a duration, the host that \<open>url.Parse\<close> finds, what pgx reads
  in a connection URL, the syntax tree of a Go file, the list of files that git gives, the
  parsed command line, the random source, the clock, the effect of an SQL script of a migration on the
  schema, the package \<open>connect\<close> with the network below it, and the answers of servers. What a property assumes of one is
  in its statement; C35 assumes that the down scripts undo the up scripts.

  \<^bold>\<open>Termination and bounds.\<close> Every definition is total: loops recurse over a list or carry a measure, and no
  fuel is used. Machine integers that can overflow are written with their wrap at 64 bits, and
  C15 and C30 show where they cannot or what happens. Instants are nanoseconds since the start of year 1, as
  integers; an instant that reaches a statement is cut to whole microseconds.

  \<^bold>\<open>Not modelled.\<close> The message types of \<open>gen/go\<close> (\<open>*.pb.go\<close>) are generated by protoc-gen-go as descriptors and
  accessors for the protobuf runtime, without logic of the program; messages are a type parameter of \<open>Rpc\<close>. \<open>db/migrations/embed.go\<close> is a declaration without operations, whose file system is an argument
  of \<open>LoadMigrations\<close>. Of the modelled files, what is left out is the handling of nil receivers and
  contexts, the registration of flags, logging, exit codes in \<open>main\<close>, the deadline of the SMTP connection and
  interface assertions. The
  advisory lock of the migrator is modelled by making its calls atomic, not as a lock.
\<close>

subsection \<open>An accepted configuration starts the services\<close>

text \<open>The quota limits and the pepper as the configuration holds them.\<close>

definition configured_limits :: "Config \<Rightarrow> QuotaLimits" where
  "configured_limits cfg = (let q = an_Quotas (cfg_Anonymous cfg) in
     \<lparr>lim_Window = aq_Window q, lim_SessionsPerIP = aq_SessionsPerIP q,
      lim_UploadsPerSession = aq_UploadsPerSession q, lim_UploadsPerIP = aq_UploadsPerIP q,
      lim_JobsPerSession = aq_JobsPerSession q, lim_JobsPerIP = aq_JobsPerIP q,
      lim_BytesPerSession = aq_BytesPerSession q, lim_BytesPerIP = aq_BytesPerIP q\<rparr>)"

definition configured_pepper :: "Config \<Rightarrow> bytes" where
  "configured_pepper cfg = map of_char (an_TokenPepper (cfg_Anonymous cfg))"

lemma plain_Nil_iff [simp]: "plain bad text = [] \<longleftrightarrow> \<not> bad"
  by (simp add: plain_def)

lemma Load_accepts:
  assumes "Load env (Some lookup) = (cfg, [])"
  shows "read_config env lookup = Inr cfg" and "Config_Validate env cfg = []"
  using assms by (auto simp: Load_def split: sum.splits)

lemma accepted_limits: "quotas_validate (an_Quotas (cfg_Anonymous cfg)) = [] \<Longrightarrow> QuotaLimits_Validate (configured_limits cfg) = None"
  unfolding quotas_validate_def QuotaLimits_Validate_def configured_limits_def count_problem_def
  by (simp add: Let_def split: if_splits)

text \<open>
  C29. A configuration that \<open>Load\<close> accepts starts the services: given their stores, the upload and job
  managers accept its sizes and lifetimes, the anonymous managers accept its pepper, lifetime
  and quotas whenever anonymous access is on, and the migration command, which reads the
  database settings alone, accepts the same environment and reads the same settings.
\<close>

theorem accepted_configuration_starts_services:
  assumes "Load env (Some lookup) = (cfg, [])"
  shows "NewUploadManager (Some us) (cfg_MaxUploadBytes cfg) (cfg_UploadChunkBytes cfg) (cfg_UploadSessionTTL cfg) =
      Inr \<lparr>um_store = us, um_maxBytes = cfg_MaxUploadBytes cfg, um_chunkBytes = cfg_UploadChunkBytes cfg,
        um_sessionTTL = cfg_UploadSessionTTL cfg\<rparr> \<and>
    (0 < maxAttempts \<longrightarrow> NewJobManager (Some js) (cfg_PDFTargetBytes cfg) (cfg_JobRetention cfg) maxAttempts =
      Inr \<lparr>jm_store = js, jm_targetBytes = cfg_PDFTargetBytes cfg, jm_retention = cfg_JobRetention cfg,
        jm_maxAttempts = maxAttempts\<rparr>) \<and>
    (cfg_Auth cfg \<noteq> AuthRequired \<longrightarrow>
      anon_NewManager (Some ss) (configured_pepper cfg) (an_SessionTTL (cfg_Anonymous cfg)) =
        Inr \<lparr>mgr_store = ss, mgr_pepper = configured_pepper cfg, mgr_ttl = an_SessionTTL (cfg_Anonymous cfg)\<rparr> \<and>
      NewQuotaManager (Some qs) (configured_pepper cfg) (configured_limits cfg) =
        Inr \<lparr>qm_store = qs, qm_pepper = configured_pepper cfg, qm_limits = configured_limits cfg\<rparr>) \<and>
    LoadDatabase env (Some lookup) = (cfg_Database cfg, [])"
proof (intro conjI impI)
  note accepted = Load_accepts [OF assms]
  note valid = accepted(2) [unfolded Config_Validate_def append_is_Nil_conv plain_Nil_iff]
  show "NewUploadManager (Some us) (cfg_MaxUploadBytes cfg) (cfg_UploadChunkBytes cfg) (cfg_UploadSessionTTL cfg) =
      Inr \<lparr>um_store = us, um_maxBytes = cfg_MaxUploadBytes cfg, um_chunkBytes = cfg_UploadChunkBytes cfg,
        um_sessionTTL = cfg_UploadSessionTTL cfg\<rparr>"
    using valid by (simp add: NewUploadManager_def)
  show "NewJobManager (Some js) (cfg_PDFTargetBytes cfg) (cfg_JobRetention cfg) maxAttempts =
      Inr \<lparr>jm_store = js, jm_targetBytes = cfg_PDFTargetBytes cfg, jm_retention = cfg_JobRetention cfg,
        jm_maxAttempts = maxAttempts\<rparr>" if "0 < maxAttempts"
    using valid that by (simp add: NewJobManager_def)
  have p: "validatePepper (configured_pepper cfg) = (None :: anon_sentinel check)" if "cfg_Auth cfg \<noteq> AuthRequired"
    using valid that by (simp add: validatePepper_def configured_pepper_def pepperBytes_def)
  show "anon_NewManager (Some ss) (configured_pepper cfg) (an_SessionTTL (cfg_Anonymous cfg)) =
      Inr \<lparr>mgr_store = ss, mgr_pepper = configured_pepper cfg, mgr_ttl = an_SessionTTL (cfg_Anonymous cfg)\<rparr>"
    if "cfg_Auth cfg \<noteq> AuthRequired"
    using valid p [OF that] by (simp add: anon_NewManager_def)
  show "NewQuotaManager (Some qs) (configured_pepper cfg) (configured_limits cfg) =
      Inr \<lparr>qm_store = qs, qm_pepper = configured_pepper cfg, qm_limits = configured_limits cfg\<rparr>"
    if "cfg_Auth cfg \<noteq> AuthRequired"
    using valid p [OF that] by (simp add: NewQuotaManager_def accepted_limits)
  show "LoadDatabase env (Some lookup) = (cfg_Database cfg, [])"
    using valid by (simp add: LoadDatabase_def read_config_secrets(4) [OF accepted(1)])
qed

definition toy_settings :: LookupEnv where
  "toy_settings = [''ANONYMOUS_TOKEN_PEPPER'' \<mapsto> ''0123456789abcdef0123456789abcdef'', ''DB_PASSWORD'' \<mapsto> ''p'',
     ''S3_ACCESS_KEY_ID'' \<mapsto> ''k'', ''S3_SECRET_ACCESS_KEY'' \<mapsto> ''s'']"

lemma toy_settings_accepted: "snd (Load toy_environment (Some toy_settings)) = []"
  by code_simp

theorem accepted_configuration_starts_services_witness:
  "LoadDatabase toy_environment (Some toy_settings) =
    (cfg_Database (fst (Load toy_environment (Some toy_settings))), [])"
proof -
  have "Load toy_environment (Some toy_settings) = (fst (Load toy_environment (Some toy_settings)), [])"
    by (simp only: prod_eq_iff fst_conv snd_conv toy_settings_accepted)
  from accepted_configuration_starts_services [OF this] show ?thesis by blast
qed

end
